(* ===== verification/Prelude.thy ===== *)
theory Prelude
  imports Main "HOL-Library.Word" "HOL-Library.Signed_Division" "HOL-Library.Multiset"
begin

text \<open>
  The common ground of the development: the machine integers of the code (fixed-width
  words, and signed 64-bit values as mathematical integers with explicit conversions), the
  truncating division of C++, the units of \<open>std::chrono\<close>, IEEE rounding of a natural
  number to a given precision, and the generic lemmas on lists that several components use.

  Signed arithmetic on \<open>int64_t\<close> (the representation of every \<open>std::chrono\<close> duration
  the code uses) is undefined behaviour in C++ when it overflows, so a signed 64-bit value is
  an \<open>int\<close> here and the model is exact on the executions that do not overflow;
  \<open>in_i64\<close> is the range, for the theorems that bound the intermediate values.
  Unsigned arithmetic wraps and is done on words; the conversions between the two are
  \<open>sint\<close> and \<open>word_of_int\<close>, both modulo $2^{64}$, as in C++.
\<close>

unbundle bit_operations_syntax

type_synonym u8 = "8 word"
type_synonym u32 = "32 word"
type_synonym i32 = "32 word"
type_synonym u64 = "64 word"

text \<open>Hints for the component proofs: units of time, and fields that an operation leaves alone.\<close>

named_theorems chrono_simps \<open>conversions between units of time\<close>
named_theorems frame_simps \<open>state components an operation does not write\<close>

section \<open>Signed 64-bit values\<close>

definition in_i64 :: "int \<Rightarrow> bool" where
  "in_i64 x \<longleftrightarrow> - (2 ^ 63) \<le> x \<and> x < 2 ^ 63"

definition in_i32 :: "int \<Rightarrow> bool" where
  "in_i32 x \<longleftrightarrow> - (2 ^ 31) \<le> x \<and> x < 2 ^ 31"

text \<open>
  \<open>std::numeric_limits<int64_t>::min()\<close> and \<open>max()\<close>: \<open>time_point::min()\<close> and
  \<open>time_point::max()\<close> of the clocks.
\<close>

definition i64_min :: int where "i64_min = - (2 ^ 63)"
definition i64_max :: int where "i64_max = 2 ^ 63 - 1"

lemma sint_u64_in_i64 [simp, intro]: "in_i64 (sint (w :: u64))"
  using sint_greater_eq [of w] sint_less [of w] by (simp add: in_i64_def)

lemma sint_word_of_int_i64 [simp]: "in_i64 x \<Longrightarrow> sint (word_of_int x :: u64) = x"
  unfolding in_i64_def
  by (subst sint_sbintrunc') (simp add: signed_take_bit_int_eq_self)

lemma sint_word_of_int_i32 [simp]: "in_i32 x \<Longrightarrow> sint (word_of_int x :: 32 word) = x"
  unfolding in_i32_def
  by (subst sint_sbintrunc') (simp add: signed_take_bit_int_eq_self)

section \<open>Units of time\<close>

text \<open>
  Time points and nanosecond durations are integers counting nanoseconds; millisecond
  durations are integers counting milliseconds. \<open>duration_cast\<close> to a coarser unit
  divides truncating towards zero (\<open>sdiv\<close>).
\<close>

definition ms_to_ns :: "int \<Rightarrow> int" where
  "ms_to_ns x = x * 1000000"

definition duration_cast_ms :: "int \<Rightarrow> int" where
  "duration_cast_ms ns = ns sdiv 1000000"

lemma sdiv_nonneg: "0 \<le> a \<Longrightarrow> 0 \<le> b \<Longrightarrow> a sdiv b = a div b" for a b :: int
  by (cases "a = 0"; cases "b = 0") (auto simp: signed_divide_int_def)

lemma smod_nonneg: "0 \<le> a \<Longrightarrow> 0 \<le> b \<Longrightarrow> a smod b = a mod b" for a b :: int
  by (cases "a = 0") (auto simp: signed_modulo_int_def)

lemma ms_to_ns_mono_iff [simp, chrono_simps]: "ms_to_ns x \<le> ms_to_ns y \<longleftrightarrow> x \<le> y"
  by (simp add: ms_to_ns_def)

lemma ms_to_ns_nonneg_iff [simp, chrono_simps]: "0 \<le> ms_to_ns x \<longleftrightarrow> 0 \<le> x"
  by (simp add: ms_to_ns_def zero_le_mult_iff)

lemma ms_to_ns_zero [simp, chrono_simps]: "ms_to_ns 0 = 0"
  by (simp add: ms_to_ns_def)

lemma duration_cast_ms_to_ns [simp, chrono_simps]: "duration_cast_ms (ms_to_ns x) = x"
  by (cases "x \<ge> 0")
    (auto simp: duration_cast_ms_def ms_to_ns_def signed_divide_int_def abs_mult sgn_mult sgn_if)

lemma duration_cast_ms_nonneg: "0 \<le> x \<Longrightarrow> duration_cast_ms x = x div 1000000"
  by (simp add: duration_cast_ms_def sdiv_nonneg)

lemma duration_cast_ms_mono: "0 \<le> x \<Longrightarrow> x \<le> y \<Longrightarrow> duration_cast_ms x \<le> duration_cast_ms y"
  by (simp add: duration_cast_ms_nonneg zdiv_mono1)

lemma duration_cast_ms_zero [simp]: "duration_cast_ms 0 = 0"
  by (simp add: duration_cast_ms_def)

lemma div_million: "x div 1000000 * 1000000 \<le> x" "x < (x div 1000000 + 1) * 1000000" for x :: int
  using pos_mod_bound [of 1000000 x] pos_mod_sign [of 1000000 x] div_mult_mod_eq [of x 1000000]
  by (simp_all add: distrib_right)

section \<open>Binary floating point\<close>

text \<open>
  Rounding a natural number to \<open>p\<close> significant binary digits, to nearest with ties to
  even: the value of the conversion of an unsigned integer to \<open>float\<close> (\<open>p = 24\<close>) or
  \<open>double\<close> (\<open>p = 53\<close>), and, since scaling by a power of two commutes with rounding,
  of a product whose exact value is such an integer times a power of two.
\<close>

fun bit_len :: "nat \<Rightarrow> nat" where
  "bit_len n = (if n = 0 then 0 else Suc (bit_len (n div 2)))"

declare bit_len.simps [simp del]

definition round_half_even :: "nat \<Rightarrow> nat \<Rightarrow> nat" where
  "round_half_even n d =
     (let q = n div d; r = n mod d in
      if 2 * r < d then q
      else if d < 2 * r then Suc q
      else if even q then q else Suc q)"

definition round_bits :: "nat \<Rightarrow> nat \<Rightarrow> nat" where
  "round_bits p n = round_half_even n (2 ^ (bit_len n - p)) * 2 ^ (bit_len n - p)"

lemma bit_len_upper: "n < 2 ^ bit_len n"
proof (induction n rule: bit_len.induct)
  case (1 n)
  show ?case
  proof (cases "n = 0")
    case False
    with 1 have "n div 2 < 2 ^ bit_len (n div 2)" by simp
    then have "n < 2 * 2 ^ bit_len (n div 2)" by linarith
    with False show ?thesis by (subst bit_len.simps) simp
  qed (simp add: bit_len.simps)
qed

lemma bit_len_lower: "0 < n \<Longrightarrow> 2 ^ (bit_len n - 1) \<le> n"
proof (induction n rule: bit_len.induct)
  case (1 n)
  show ?case
  proof (cases "n div 2 = 0")
    case True
    with 1 have "n = 1" by simp
    then show ?thesis by (simp add: bit_len.simps)
  next
    case False
    with 1 have ih: "2 ^ (bit_len (n div 2) - 1) \<le> n div 2" by simp
    from False have pos: "bit_len (n div 2) = Suc (bit_len (n div 2 div 2))"
      by (subst bit_len.simps) simp
    have "bit_len n = Suc (bit_len (n div 2))"
      using \<open>0 < n\<close> by (subst bit_len.simps) simp
    with ih pos have "2 * 2 ^ bit_len (n div 2 div 2) \<le> 2 * (n div 2)" by simp
    also have "\<dots> \<le> n" by simp
    finally show ?thesis using \<open>bit_len n = _\<close> pos by simp
  qed
qed

lemma bit_len_le: "n < 2 ^ p \<Longrightarrow> bit_len n \<le> p"
proof (rule ccontr)
  assume n: "n < 2 ^ p" and "\<not> bit_len n \<le> p"
  then have p: "p \<le> bit_len n - 1" and "0 < n"
    by (auto simp: bit_len.simps [of n] split: if_splits)
  then have "(2::nat) ^ p \<le> 2 ^ (bit_len n - 1)" by (intro power_increasing) auto
  also have "\<dots> \<le> n" using \<open>0 < n\<close> by (rule bit_len_lower)
  finally show False using n by simp
qed

lemma round_bits_exact: "n < 2 ^ p \<Longrightarrow> round_bits p n = n"
  by (simp add: round_bits_def round_half_even_def bit_len_le)

lemma round_half_even_bounds:
  assumes "0 < d"
  shows "2 * n \<le> 2 * (round_half_even n d * d) + d"
    and "2 * (round_half_even n d * d) \<le> 2 * n + d"
proof -
  define Q r where "Q = n div d * d" and "r = n mod d"
  have n: "n = Q + r" by (simp add: Q_def r_def)
  have r: "r < d" using assms by (simp add: r_def)
  have rnd: "round_half_even n d * d = (if 2 * r < d \<or> (2 * r = d \<and> even (n div d)) then Q else Q + d)"
    by (auto simp: round_half_even_def Let_def Q_def r_def)
  show "2 * n \<le> 2 * (round_half_even n d * d) + d"
    unfolding rnd using n r by (auto split: if_splits)
  show "2 * (round_half_even n d * d) \<le> 2 * n + d"
    unfolding rnd using n r by (auto split: if_splits)
qed

text \<open>The relative error of rounding to \<open>p\<close> digits is at most $2^{-p}$.\<close>

lemma round_bits_error:
  assumes "0 < p"
  shows "2 ^ p * n \<le> 2 ^ p * round_bits p n + n" and "2 ^ p * round_bits p n \<le> 2 ^ p * n + n"
proof -
  have "2 ^ p * n \<le> 2 ^ p * round_bits p n + n \<and> 2 ^ p * round_bits p n \<le> 2 ^ p * n + n"
  proof (cases "bit_len n \<le> p")
    case True
    then have "n < 2 ^ p"
      using bit_len_upper [of n] power_increasing [of "bit_len n" p "2::nat"] by linarith
    then show ?thesis by (simp add: round_bits_exact)
  next
    case False
    define e where "e = bit_len n - p"
    from False have "0 < n" by (auto simp: bit_len.simps [of n] split: if_splits)
    have "(2::nat) ^ (p + e - 1) \<le> n"
      using bit_len_lower [OF \<open>0 < n\<close>] False by (simp add: e_def)
    moreover have "(2::nat) ^ (p + e - 1) * 2 = 2 ^ p * 2 ^ e"
      using assms by (simp add: power_add [symmetric] power_Suc2 [symmetric])
    ultimately have pe: "2 ^ p * 2 ^ e \<le> 2 * n" by linarith
    have "2 * n \<le> 2 * round_bits p n + 2 ^ e" "2 * round_bits p n \<le> 2 * n + 2 ^ e"
      using round_half_even_bounds [of "2 ^ e" n] by (auto simp: round_bits_def e_def)
    then have "2 ^ p * (2 * n) \<le> 2 ^ p * (2 * round_bits p n + 2 ^ e)"
      "2 ^ p * (2 * round_bits p n) \<le> 2 ^ p * (2 * n + 2 ^ e)"
      by (auto intro: mult_le_mono2)
    with pe show ?thesis by (simp add: distrib_left mult.left_commute)
  qed
  then show "2 ^ p * n \<le> 2 ^ p * round_bits p n + n" and "2 ^ p * round_bits p n \<le> 2 ^ p * n + n" by auto
qed

section \<open>Lists as vectors\<close>

text \<open>\<open>vector::insert\<close> before position \<open>i\<close> and \<open>vector::erase\<close> at position \<open>i\<close>.\<close>

definition list_insert :: "nat \<Rightarrow> 'a \<Rightarrow> 'a list \<Rightarrow> 'a list" where
  "list_insert i x xs = take i xs @ x # drop i xs"

definition list_erase :: "nat \<Rightarrow> 'a list \<Rightarrow> 'a list" where
  "list_erase i xs = take i xs @ drop (Suc i) xs"

lemma mset_list_insert [simp]: "mset (list_insert i x xs) = add_mset x (mset xs)"
  unfolding list_insert_def
  by (metis append_take_drop_id mset_append mset.simps(2) union_mset_add_mset_right)

lemma set_list_insert [simp]: "set (list_insert i x xs) = insert x (set xs)"
  by (metis mset_list_insert set_mset_add_mset_insert set_mset_mset)

lemma multiset_chain: "y + a = x + a' \<Longrightarrow> z + b = y + b' \<Longrightarrow> z + (a + b) = x + (a' + b')"
  for x y z :: "'a multiset"
  by (metis add.assoc add.commute)

lemma list_erase_split: "i < length xs \<Longrightarrow> xs = take i xs @ xs ! i # drop (Suc i) xs"
  by (rule id_take_nth_drop)

lemma mset_list_erase: "i < length xs \<Longrightarrow> mset xs = add_mset (xs ! i) (mset (list_erase i xs))"
  by (subst list_erase_split) (auto simp: list_erase_def)

lemma set_list_erase_subset: "set (list_erase i xs) \<subseteq> set xs"
  unfolding list_erase_def by (auto dest: in_set_takeD in_set_dropD)

lemma sorted_map_list_erase: "sorted (map f xs) \<Longrightarrow> sorted (map f (list_erase i xs))"
  for f :: "'a \<Rightarrow> 'k::linorder"
proof (cases "i < length xs")
  case True
  assume "sorted (map f xs)"
  then have "sorted (map f (take i xs @ xs ! i # drop (Suc i) xs))"
    using list_erase_split [OF True] by simp
  then show ?thesis by (auto simp: list_erase_def sorted_append)
qed (simp add: list_erase_def)

end
