(* ===== verification/Cpp_Std.thy ===== *)
theory Cpp_Std
  imports Prelude
begin

text \<open>
  What the code uses of the C++ standard library: \<open>std::upper_bound\<close> on a vector (the
  halving search itself, since the code also runs it on a vector that is not sorted),
  \<open>std::sort\<close> (any function that returns a sorted permutation: the order of equal
  elements is not specified), and \<open>std::map\<close> as a list of pairs in key order, so that
  iteration has the code's order. Two interfaces are stated as locales here and
  interpreted by the components: insertion that keeps a vector ordered
  (\<open>ordered_insert\<close>), and a table in which the first registration of a key wins
  (\<open>registry_base\<close>, \<open>registry\<close>).
\<close>

section \<open>upper_bound\<close>

text \<open>
  \<open>std::upper_bound(first, last, value, comp)\<close>: the number of elements from
  \<open>first\<close> to the first one that compares greater than the value, by halving; \<open>p x\<close>
  stands for \<open>comp(value, x)\<close>.
\<close>

fun ub_search :: "('a \<Rightarrow> bool) \<Rightarrow> 'a list \<Rightarrow> nat \<Rightarrow> nat \<Rightarrow> nat" where
  "ub_search p xs first len =
     (if len = 0 then first
      else let half = len div 2; mid = first + half in
        if p (xs ! mid) then ub_search p xs first half
        else ub_search p xs (Suc mid) (len - half - 1))"

declare ub_search.simps [simp del]

definition upper_bound :: "('a \<Rightarrow> 'a \<Rightarrow> bool) \<Rightarrow> 'a list \<Rightarrow> 'a \<Rightarrow> nat" where
  "upper_bound lt xs v = ub_search (lt v) xs 0 (length xs)"

lemma ub_search_range: "first \<le> ub_search p xs first len \<and> ub_search p xs first len \<le> first + len"
proof (induction p xs first len rule: ub_search.induct)
  case (1 p xs first len)
  show ?case
  proof (cases "len = 0")
    case False
    have "len div 2 < len" using False by simp
    with 1 [OF False refl refl] False show ?thesis
      by (subst (1 2) ub_search.simps) (auto simp: Let_def)
  qed (simp add: ub_search.simps)
qed

lemma upper_bound_le_length [simp]: "upper_bound lt xs v \<le> length xs"
  using ub_search_range [of 0 "lt v" xs "length xs"] by (simp add: upper_bound_def)

text \<open>
  On a partitioned range (no element after one that satisfies \<open>p\<close> fails it) the result
  splits the range.
\<close>

lemma ub_search_splits:
  assumes part: "\<And>i j. i \<le> j \<Longrightarrow> j < length xs \<Longrightarrow> p (xs ! i) \<Longrightarrow> p (xs ! j)"
    and "first + len \<le> length xs"
  shows "(\<forall>i. first \<le> i \<and> i < ub_search p xs first len \<longrightarrow> \<not> p (xs ! i)) \<and>
    (\<forall>i. ub_search p xs first len \<le> i \<and> i < first + len \<longrightarrow> p (xs ! i))"
  using assms(2)
proof (induction len arbitrary: first rule: less_induct)
  case (less len)
  show ?case
  proof (cases "len = 0")
    case True
    then have "ub_search p xs first len = first" by (simp add: ub_search.simps)
    with True show ?thesis by auto
  next
    case False
    define mid where "mid = first + len div 2"
    have mid: "mid < first + len" "mid < length xs" using False less.prems by (auto simp: mid_def)
    have half: "len div 2 < len" "len - len div 2 - 1 < len" using False by auto
    show ?thesis
    proof (cases "p (xs ! mid)")
      case True
      then have eq: "ub_search p xs first len = ub_search p xs first (len div 2)"
        using False by (subst ub_search.simps) (simp add: mid_def Let_def)
      have "p (xs ! i)" if "mid \<le> i" "i < first + len" for i
        using that True less.prems by (intro part [of mid i]) auto
      moreover have "(\<forall>i. first \<le> i \<and> i < ub_search p xs first (len div 2) \<longrightarrow> \<not> p (xs ! i)) \<and>
          (\<forall>i. ub_search p xs first (len div 2) \<le> i \<and> i < mid \<longrightarrow> p (xs ! i))"
        using less.IH [OF half(1), of first] less.prems by (simp add: mid_def)
      ultimately show ?thesis unfolding eq by (meson not_le)
    next
      case np: False
      then have eq: "ub_search p xs first len = ub_search p xs (Suc mid) (len - len div 2 - 1)"
        using False by (subst ub_search.simps) (simp add: mid_def Let_def)
      have sum: "Suc mid + (len - len div 2 - 1) = first + len" using False by (simp add: mid_def)
      have "\<not> p (xs ! i)" if "i \<le> mid" for i
        using that np mid(2) part [of i mid] by blast
      moreover have "(\<forall>i. Suc mid \<le> i \<and> i < ub_search p xs (Suc mid) (len - len div 2 - 1) \<longrightarrow> \<not> p (xs ! i)) \<and>
          (\<forall>i. ub_search p xs (Suc mid) (len - len div 2 - 1) \<le> i \<and> i < first + len \<longrightarrow> p (xs ! i))"
        using less.IH [OF half(2), of "Suc mid"] less.prems sum by simp
      ultimately show ?thesis unfolding eq by (meson not_less_eq_eq)
    qed
  qed
qed

lemma upper_bound_splits:
  assumes "\<And>i j. i \<le> j \<Longrightarrow> j < length xs \<Longrightarrow> lt v (xs ! i) \<Longrightarrow> lt v (xs ! j)"
  shows "\<forall>x \<in> set (take (upper_bound lt xs v) xs). \<not> lt v x"
    and "\<forall>x \<in> set (drop (upper_bound lt xs v) xs). lt v x"
proof -
  let ?r = "upper_bound lt xs v"
  have *: "\<forall>i < ?r. \<not> lt v (xs ! i)" "\<forall>i. ?r \<le> i \<and> i < length xs \<longrightarrow> lt v (xs ! i)"
    using ub_search_splits [of xs "lt v" 0 "length xs"] assms by (auto simp: upper_bound_def)
  show "\<forall>x \<in> set (take ?r xs). \<not> lt v x" using *(1) by (auto simp: in_set_conv_nth)
  show "\<forall>x \<in> set (drop ?r xs). lt v x" using *(2) by (auto simp: in_set_conv_nth)
qed

text \<open>Insertion at the upper bound of a key keeps a vector sorted by that key sorted.\<close>

definition ub_insert :: "('a \<Rightarrow> 'k::linorder) \<Rightarrow> 'a \<Rightarrow> 'a list \<Rightarrow> 'a list" where
  "ub_insert key x xs = list_insert (upper_bound (\<lambda>a b. key a < key b) xs x) x xs"

lemma sorted_ub_insert: "sorted (map key xs) \<Longrightarrow> sorted (map key (ub_insert key x xs))"
proof -
  assume s: "sorted (map key xs)"
  let ?lt = "\<lambda>a b. key a < key b"
  let ?r = "upper_bound ?lt xs x"
  have part: "?lt x (xs ! j)" if "i \<le> j" "j < length xs" "?lt x (xs ! i)" for i j
    using s that by (auto simp: sorted_iff_nth_mono dest: less_le_trans)
  have tk: "\<forall>y \<in> set (take ?r xs). \<not> ?lt x y"
    by (rule upper_bound_splits) (use part in auto)
  have dr: "\<forall>y \<in> set (drop ?r xs). ?lt x y"
    by (rule upper_bound_splits) (use part in auto)
  have "sorted (map key (take ?r xs @ drop ?r xs))" using s by simp
  then have "sorted (map key (take ?r xs))" "sorted (map key (drop ?r xs))"
    by (auto simp only: map_append sorted_append)
  with tk dr show ?thesis
    by (fastforce simp: ub_insert_def list_insert_def sorted_append not_less)
qed

section \<open>Ordered insertion\<close>

locale ordered_insert =
  fixes key :: "'a \<Rightarrow> 'k::linorder"
    and ins :: "'a \<Rightarrow> 'a list \<Rightarrow> 'a list"
  assumes mset_ins: "mset (ins x xs) = add_mset x (mset xs)"
    and sorted_ins: "sorted (map key xs) \<Longrightarrow> sorted (map key (ins x xs))"
begin

lemma set_ins [simp]: "set (ins x xs) = insert x (set xs)"
  by (metis mset_ins set_mset_add_mset_insert set_mset_mset)

lemma length_ins [simp]: "length (ins x xs) = Suc (length xs)"
  by (metis mset_ins size_add_mset size_mset)

lemma ins_not_Nil [simp]: "ins x xs \<noteq> []"
  using length_ins [of x xs] by fastforce

lemma mset_fold_ins: "mset (fold ins ys xs) = mset ys + mset xs"
  by (induction ys arbitrary: xs) (auto simp: mset_ins)

lemma sorted_fold_ins: "sorted (map key xs) \<Longrightarrow> sorted (map key (fold ins ys xs))"
  by (induction ys arbitrary: xs) (auto simp: sorted_ins)

text \<open>Taking an element out and putting it back in keeps the contents and the order.\<close>

lemma reinsert:
  assumes "sorted (map key xs)" and "i < length xs"
  shows "sorted (map key (ins y (list_erase i xs)))"
    and "add_mset (xs ! i) (mset (ins y (list_erase i xs))) = add_mset y (mset xs)"
  using assms
  by (auto simp: sorted_ins sorted_map_list_erase mset_ins mset_list_erase [OF assms(2)])

end

interpretation ubi: ordered_insert key "ub_insert key" for key :: "'a \<Rightarrow> 'k::linorder"
  by unfold_locales (auto simp: sorted_ub_insert, simp add: ub_insert_def)

section \<open>sort\<close>

text \<open>
  A function is a possible \<open>std::sort\<close> by a key when it permutes its input and orders
  it by the key. The library's stable sort is one.
\<close>

definition valid_sort :: "('a \<Rightarrow> 'k::linorder) \<Rightarrow> ('a list \<Rightarrow> 'a list) \<Rightarrow> bool" where
  "valid_sort key f \<longleftrightarrow> (\<forall>xs. mset (f xs) = mset xs \<and> sorted (map key (f xs)))"

lemma valid_sort_sort_key: "valid_sort key (sort_key key)"
  by (simp add: valid_sort_def)

lemma valid_sort_set: "valid_sort key f \<Longrightarrow> set (f xs) = set xs"
  unfolding valid_sort_def by (metis set_mset_mset)

section \<open>map\<close>

type_synonym ('k, 'v) std_map = "('k \<times> 'v) list"

text \<open>Keys are distinct and in ascending order, the order of iteration.\<close>

definition map_ok :: "('k::linorder, 'v) std_map \<Rightarrow> bool" where
  "map_ok m \<longleftrightarrow> sorted_wrt (<) (map fst m)"

definition map_find :: "('k, 'v) std_map \<Rightarrow> 'k \<rightharpoonup> 'v" where
  "map_find m = map_of m"

text \<open>\<open>m[k] = v\<close>, which overwrites.\<close>

fun map_assign :: "'k::linorder \<Rightarrow> 'v \<Rightarrow> ('k, 'v) std_map \<Rightarrow> ('k, 'v) std_map" where
  "map_assign k v [] = [(k, v)]"
| "map_assign k v ((k', v') # m) =
     (if k < k' then (k, v) # (k', v') # m
      else if k = k' then (k, v) # m
      else (k', v') # map_assign k v m)"

text \<open>\<open>m.insert({k, v})\<close>, which leaves an entry that is already there.\<close>

definition map_insert :: "'k::linorder \<Rightarrow> 'v \<Rightarrow> ('k, 'v) std_map \<Rightarrow> ('k, 'v) std_map" where
  "map_insert k v m = (case map_find m k of None \<Rightarrow> map_assign k v m | Some _ \<Rightarrow> m)"

definition map_erase :: "'k \<Rightarrow> ('k, 'v) std_map \<Rightarrow> ('k, 'v) std_map" where
  "map_erase k m = filter (\<lambda>e. fst e \<noteq> k) m"

lemma map_find_Nil [simp]: "map_find [] = Map.empty"
  by (simp add: map_find_def)

lemma map_find_assign [simp]: "map_find (map_assign k v m) = (map_find m)(k \<mapsto> v)"
  by (induction k v m rule: map_assign.induct) (auto simp: map_find_def fun_eq_iff)

lemma map_find_insert:
  "map_find (map_insert k v m) = (if map_find m k = None then (map_find m)(k \<mapsto> v) else map_find m)"
  by (auto simp: map_insert_def split: option.splits)

lemma map_find_erase [simp]: "map_find (map_erase k m) = (map_find m)(k := None)"
  by (induction m) (auto simp: map_find_def map_erase_def fun_eq_iff)

lemma keys_map_assign: "fst ` set (map_assign k v m) = insert k (fst ` set m)"
  by (induction k v m rule: map_assign.induct) auto

lemma map_ok_Nil [simp]: "map_ok []"
  by (simp add: map_ok_def)

lemma map_ok_Cons: "map_ok ((k, v) # m) \<longleftrightarrow> (\<forall>k' \<in> fst ` set m. k < k') \<and> map_ok m"
  by (auto simp: map_ok_def)

lemma map_ok_assign: "map_ok m \<Longrightarrow> map_ok (map_assign k v m)"
  by (induction k v m rule: map_assign.induct)
    (auto simp: map_ok_Cons keys_map_assign simp del: ball_simps(9) intro: less_trans)

lemma map_ok_insert: "map_ok m \<Longrightarrow> map_ok (map_insert k v m)"
  by (auto simp: map_insert_def map_ok_assign split: option.splits)

lemma map_ok_erase: "map_ok m \<Longrightarrow> map_ok (map_erase k m)"
  by (induction m) (auto simp: map_ok_def map_erase_def)

section \<open>Tables in which the first registration wins\<close>

locale registry_base =
  fixes lookup :: "'s \<Rightarrow> 'k \<rightharpoonup> 'v"
    and register :: "'k \<Rightarrow> 'v \<Rightarrow> 's \<Rightarrow> 's"
  assumes lookup_register:
    "lookup (register k v s) = (if lookup s k = None then (lookup s)(k \<mapsto> v) else lookup s)"
begin

lemma registered: "lookup (register k v s) k \<noteq> None"
  by (simp add: lookup_register)

lemma first_registration_wins: "lookup s k = Some v0 \<Longrightarrow> lookup (register k v s) k = Some v0"
  by (simp add: lookup_register)

lemma register_fresh: "lookup s k = None \<Longrightarrow> lookup (register k v s) k = Some v"
  by (simp add: lookup_register)

lemma register_other: "k' \<noteq> k \<Longrightarrow> lookup (register k v s) k' = lookup s k'"
  by (simp add: lookup_register)

lemma dom_register: "dom (lookup (register k v s)) = insert k (dom (lookup s))"
  by (auto simp: lookup_register split: if_splits)

end

locale registry = registry_base lookup register
  for lookup :: "'s \<Rightarrow> 'k \<rightharpoonup> 'v" and register :: "'k \<Rightarrow> 'v \<Rightarrow> 's \<Rightarrow> 's" +
  fixes unregister :: "'k \<Rightarrow> 's \<Rightarrow> 's"
  assumes lookup_unregister: "lookup (unregister k s) = (lookup s)(k := None)"
begin

lemma unregistered [simp]: "lookup (unregister k s) k = None"
  by (simp add: lookup_unregister)

lemma reregister: "lookup (register k v (unregister k s)) k = Some v"
  by (rule register_fresh) simp

lemma unregister_register: "lookup s k = None \<Longrightarrow> lookup (unregister k (register k v s)) = lookup s"
  by (auto simp: lookup_unregister lookup_register fun_eq_iff)

lemma dom_unregister: "dom (lookup (unregister k s)) = dom (lookup s) - {k}"
  by (auto simp: lookup_unregister)

end

interpretation std_map_registry: registry map_find map_insert map_erase
  by unfold_locales (auto simp: map_find_insert)

end
