(* ===== verification/Timer_Info.thy ===== *)
theory Timer_Info
  imports Cpp_Std
begin

text \<open>
  The data of the timer subsystem (\<open>services/timer\<close>): the timer types and flags of
  \<open>ITimerManager\<close>, the registered timer (\<open>TimerEntry\<close>), and the scheduled alarm
  (\<open>TimerInfo\<close>, \<open>timer_info.h\<close> and \<open>timer_info.cpp\<close>).

  A \<open>std::function\<close> that is called back is named by what the code stores in it: the
  remote notification of \<open>TimeService::CreateTimer\<close> for a client's callback object, and
  the network time refresh of \<open>NtpUpdateTime::Init\<close>; \<open>None\<close> is an empty function.
\<close>

datatype timer_callback = Notify_Remote nat | Ntp_Refresh

section \<open>Timer types and flags\<close>

definition RTC_WAKEUP :: i32 where "RTC_WAKEUP = 0"
definition RTC :: i32 where "RTC = 1"
definition ELAPSED_REALTIME_WAKEUP :: i32 where "ELAPSED_REALTIME_WAKEUP = 2"
definition ELAPSED_REALTIME :: i32 where "ELAPSED_REALTIME = 3"

lemmas timer_type_defs = RTC_WAKEUP_def RTC_def ELAPSED_REALTIME_WAKEUP_def ELAPSED_REALTIME_def

definition STANDALONE :: u32 where "STANDALONE = 1"
definition WAKE_FROM_IDLE :: u32 where "WAKE_FROM_IDLE = 2"
definition ALLOW_WHILE_IDLE :: u32 where "ALLOW_WHILE_IDLE = 4"
definition ALLOW_WHILE_IDLE_UNRESTRICTED :: u32 where "ALLOW_WHILE_IDLE_UNRESTRICTED = 8"
definition IDLE_UNTIL :: u32 where "IDLE_UNTIL = 16"

section \<open>Registered timers\<close>

record timer_entry =
  te_id :: u64
  te_type :: i32
  te_windowLength :: u64
  te_interval :: u64
  te_flag :: i32
  te_callback :: "timer_callback option"
  te_uid :: int

section \<open>Scheduled alarms\<close>

text \<open>
  \<open>origWhen\<close>, \<open>when\<close>, \<open>windowLength\<close> and \<open>repeatInterval\<close> are milliseconds; the
  elapsed times are nanoseconds of the boot clock.
\<close>

record timer_info =
  ti_id :: u64
  ti_type :: i32
  ti_origWhen :: int
  ti_wakeup :: bool
  ti_callback :: "timer_callback option"
  ti_flags :: u32
  ti_uid :: int
  ti_count :: u64
  ti_when :: int
  ti_windowLength :: int
  ti_whenElapsed :: int
  ti_maxWhenElapsed :: int
  ti_expectedWhenElapsed :: int
  ti_expectedMaxWhenElapsed :: int
  ti_repeatInterval :: int

text \<open>The constructor; \<open>count\<close> is value-initialised.\<close>

definition TimerInfo ::
  "u64 \<Rightarrow> i32 \<Rightarrow> int \<Rightarrow> int \<Rightarrow> int \<Rightarrow> int \<Rightarrow> int \<Rightarrow> timer_callback option \<Rightarrow> u32 \<Rightarrow> int \<Rightarrow> timer_info" where
  "TimerInfo timerId timerType when whenElapsed windowLength maxWhen interval callback flags uid =
     \<lparr>ti_id = timerId, ti_type = timerType, ti_origWhen = when,
      ti_wakeup = (timerType = ELAPSED_REALTIME_WAKEUP \<or> timerType = RTC_WAKEUP),
      ti_callback = callback, ti_flags = flags, ti_uid = uid,
      ti_count = 0, ti_when = when, ti_windowLength = windowLength,
      ti_whenElapsed = whenElapsed, ti_maxWhenElapsed = maxWhen,
      ti_expectedWhenElapsed = whenElapsed, ti_expectedMaxWhenElapsed = maxWhen,
      ti_repeatInterval = interval\<rparr>"

definition same_timer :: "timer_info \<Rightarrow> timer_info \<Rightarrow> bool" where
  "same_timer a b \<longleftrightarrow> ti_id a = ti_id b"

definition Matches :: "timer_info \<Rightarrow> string \<Rightarrow> bool" where
  "Matches a packageName = False"

lemma TimerInfo_sel [simp]:
  "ti_id (TimerInfo i t w e wl mx iv cb fl u) = i"
  "ti_type (TimerInfo i t w e wl mx iv cb fl u) = t"
  "ti_origWhen (TimerInfo i t w e wl mx iv cb fl u) = w"
  "ti_when (TimerInfo i t w e wl mx iv cb fl u) = w"
  "ti_callback (TimerInfo i t w e wl mx iv cb fl u) = cb"
  "ti_flags (TimerInfo i t w e wl mx iv cb fl u) = fl"
  "ti_uid (TimerInfo i t w e wl mx iv cb fl u) = u"
  "ti_windowLength (TimerInfo i t w e wl mx iv cb fl u) = wl"
  "ti_whenElapsed (TimerInfo i t w e wl mx iv cb fl u) = e"
  "ti_maxWhenElapsed (TimerInfo i t w e wl mx iv cb fl u) = mx"
  "ti_expectedWhenElapsed (TimerInfo i t w e wl mx iv cb fl u) = e"
  "ti_expectedMaxWhenElapsed (TimerInfo i t w e wl mx iv cb fl u) = mx"
  "ti_repeatInterval (TimerInfo i t w e wl mx iv cb fl u) = iv"
  "ti_wakeup (TimerInfo i t w e wl mx iv cb fl u) \<longleftrightarrow> t = ELAPSED_REALTIME_WAKEUP \<or> t = RTC_WAKEUP"
  by (simp_all add: TimerInfo_def)

end
