(* ===== verification/Batch.thy ===== *)
theory Batch
  imports Timer_Info
begin

text \<open>
  \<open>Batch\<close> (\<open>batch.h\<close>, \<open>batch.cpp\<close>): alarms that are delivered together. A batch keeps
  its alarms ordered by \<open>whenElapsed\<close>, the latest of their start times and the earliest of
  their deadlines, and the union of their flags. \<open>batch_inv\<close> and \<open>batch_bounds\<close> say so, and every operation
  keeps them; \<open>Add\<close> on a batch that can hold the alarm also keeps the common window
  \<open>[start, end]\<close> non-empty (\<open>feasible\<close>).
\<close>

record batch =
  b_start :: int
  b_end :: int
  b_flags :: u32
  b_alarms :: "timer_info list"

definition Batch_empty :: batch where
  "Batch_empty = \<lparr>b_start = i64_min, b_end = i64_max, b_flags = 0, b_alarms = []\<rparr>"

definition Batch_seed :: "timer_info \<Rightarrow> batch" where
  "Batch_seed seed =
     \<lparr>b_start = ti_whenElapsed seed, b_end = ti_maxWhenElapsed seed,
      b_flags = ti_flags seed, b_alarms = [seed]\<rparr>"

definition GetStart :: "batch \<Rightarrow> int" where "GetStart b = b_start b"
definition GetEnd :: "batch \<Rightarrow> int" where "GetEnd b = b_end b"
definition GetFlags :: "batch \<Rightarrow> u32" where "GetFlags b = b_flags b"

definition Size :: "batch \<Rightarrow> nat" where
  "Size b = length (b_alarms b)"

definition Get :: "batch \<Rightarrow> nat \<Rightarrow> timer_info option" where
  "Get b index = (if length (b_alarms b) \<le> index then None else Some (b_alarms b ! index))"

definition CanHold :: "batch \<Rightarrow> int \<Rightarrow> int \<Rightarrow> bool" where
  "CanHold b whenElapsed maxWhen \<longleftrightarrow> b_end b > whenElapsed \<and> b_start b \<le> maxWhen"

text \<open>The insertion of \<open>Add\<close>, before the first alarm that is due later.\<close>

definition insert_alarm :: "timer_info \<Rightarrow> timer_info list \<Rightarrow> timer_info list" where
  "insert_alarm alarm alarms =
     list_insert (upper_bound (\<lambda>a b. ti_whenElapsed a < ti_whenElapsed b) alarms alarm) alarm alarms"

text \<open>\<open>Add\<close> returns the batch and whether its start moved.\<close>

definition Add :: "timer_info \<Rightarrow> batch \<Rightarrow> batch \<times> bool" where
  "Add alarm b =
     (let b1 = b\<lparr>b_alarms := insert_alarm alarm (b_alarms b)\<rparr>;
          new_start = ti_whenElapsed alarm > b_start b1;
          b2 = (if new_start then b1\<lparr>b_start := ti_whenElapsed alarm\<rparr> else b1);
          b3 = (if ti_maxWhenElapsed alarm < b_end b2 then b2\<lparr>b_end := ti_maxWhenElapsed alarm\<rparr> else b2)
      in (b3\<lparr>b_flags := b_flags b3 OR ti_flags alarm\<rparr>, new_start))"

text \<open>The loop of \<open>Remove\<close>: the kept alarms, the new start, end and flags, and whether any was removed.\<close>

fun remove_loop ::
  "(timer_info \<Rightarrow> bool) \<Rightarrow> timer_info list \<Rightarrow> int \<Rightarrow> int \<Rightarrow> u32 \<Rightarrow> bool
   \<Rightarrow> timer_info list \<times> int \<times> int \<times> u32 \<times> bool" where
  "remove_loop predicate [] newStart newEnd newFlags didRemove = ([], newStart, newEnd, newFlags, didRemove)"
| "remove_loop predicate (alarm # rest) newStart newEnd newFlags didRemove =
     (if predicate alarm then remove_loop predicate rest newStart newEnd newFlags True
      else let (kept, res) =
             remove_loop predicate rest
               (if ti_whenElapsed alarm > newStart then ti_whenElapsed alarm else newStart)
               (if ti_maxWhenElapsed alarm < newEnd then ti_maxWhenElapsed alarm else newEnd)
               (newFlags OR ti_flags alarm) didRemove
           in (alarm # kept, res))"

definition Remove_if :: "(timer_info \<Rightarrow> bool) \<Rightarrow> batch \<Rightarrow> batch \<times> bool" where
  "Remove_if predicate b =
     (let (kept, newStart, newEnd, newFlags, didRemove) =
            remove_loop predicate (b_alarms b) i64_min i64_max 0 False;
          b1 = b\<lparr>b_alarms := kept\<rparr>
      in (if didRemove then b1\<lparr>b_start := newStart, b_end := newEnd, b_flags := newFlags\<rparr> else b1,
          didRemove))"

definition Remove :: "timer_info \<Rightarrow> batch \<Rightarrow> batch \<times> bool" where
  "Remove alarm = Remove_if (\<lambda>a. same_timer a alarm)"

definition HasPackage :: "batch \<Rightarrow> string \<Rightarrow> bool" where
  "HasPackage b package_name \<longleftrightarrow> list_ex (\<lambda>a. Matches a package_name) (b_alarms b)"

definition TYPE_NONWAKEUP_MASK :: u32 where "TYPE_NONWAKEUP_MASK = 1"

definition HasWakeups :: "batch \<Rightarrow> bool" where
  "HasWakeups b \<longleftrightarrow> list_ex (\<lambda>item. ti_type item AND TYPE_NONWAKEUP_MASK = 0) (b_alarms b)"

section \<open>The alarms of a batch in order\<close>

interpretation alarm_order: ordered_insert ti_whenElapsed insert_alarm
proof
  show "mset (insert_alarm x xs) = add_mset x (mset xs)" for x xs
    by (simp add: insert_alarm_def)
  show "sorted (map ti_whenElapsed (insert_alarm x xs))" if "sorted (map ti_whenElapsed xs)" for x xs
    using sorted_ub_insert [OF that, of x] by (simp add: insert_alarm_def ub_insert_def)
qed

section \<open>Invariant\<close>

text \<open>The order, the bounds and the flags, whatever the times; that the bounds are attained is \<open>batch_bounds\<close>
  in \<open>Batch_Bounds\<close>.\<close>

definition batch_inv :: "batch \<Rightarrow> bool" where
  "batch_inv b \<longleftrightarrow>
     b_alarms b \<noteq> [] \<and> sorted (map ti_whenElapsed (b_alarms b)) \<and>
     (\<forall>a \<in> set (b_alarms b). ti_whenElapsed a \<le> b_start b \<and> b_end b \<le> ti_maxWhenElapsed a) \<and>
     (\<forall>n. bit (b_flags b) n \<longleftrightarrow> (\<exists>a \<in> set (b_alarms b). bit (ti_flags a) n))"

text \<open>The start and the end are attained.\<close>

definition batch_tight :: "batch \<Rightarrow> bool" where
  "batch_tight b \<longleftrightarrow>
     b_start b \<in> ti_whenElapsed ` set (b_alarms b) \<and> b_end b \<in> ti_maxWhenElapsed ` set (b_alarms b)"

definition feasible :: "batch \<Rightarrow> bool" where
  "feasible b \<longleftrightarrow> b_start b \<le> b_end b"

definition alarm_ranged :: "timer_info \<Rightarrow> bool" where
  "alarm_ranged a \<longleftrightarrow> in_i64 (ti_whenElapsed a) \<and> in_i64 (ti_maxWhenElapsed a)"

lemma Add_sel [simp]:
  "b_alarms (fst (Add a b)) = insert_alarm a (b_alarms b)"
  "b_start (fst (Add a b)) = max (b_start b) (ti_whenElapsed a)"
  "b_end (fst (Add a b)) = min (b_end b) (ti_maxWhenElapsed a)"
  "b_flags (fst (Add a b)) = b_flags b OR ti_flags a"
  "snd (Add a b) \<longleftrightarrow> b_start b < ti_whenElapsed a"
  by (auto simp: Add_def Let_def)

lemma Seed_sel [simp]:
  "b_alarms (Batch_seed a) = [a]" "b_start (Batch_seed a) = ti_whenElapsed a"
  "b_end (Batch_seed a) = ti_maxWhenElapsed a" "b_flags (Batch_seed a) = ti_flags a"
  by (auto simp: Batch_seed_def)

lemma batch_inv_seed [simp]: "batch_inv (Batch_seed a)"
  by (simp add: batch_inv_def)

lemma batch_tight_seed [simp]: "batch_tight (Batch_seed a)"
  by (simp add: batch_tight_def)

lemma batch_inv_Add: "batch_inv b \<Longrightarrow> batch_inv (fst (Add a b))"
  by (auto simp: batch_inv_def alarm_order.sorted_ins bit_or_iff)

lemma batch_tight_Add: "batch_tight b \<Longrightarrow> batch_tight (fst (Add a b))"
  by (auto simp: batch_tight_def max_def min_def)

lemma remove_loop_eq:
  "remove_loop p as s e f d =
     (filter (\<lambda>a. \<not> p a) as,
      fold max (map ti_whenElapsed (filter (\<lambda>a. \<not> p a) as)) s,
      fold min (map ti_maxWhenElapsed (filter (\<lambda>a. \<not> p a) as)) e,
      fold (\<lambda>a f. f OR ti_flags a) (filter (\<lambda>a. \<not> p a) as) f,
      d \<or> list_ex p as)"
  by (induction p as s e f d rule: remove_loop.induct)
    (auto simp: Let_def max_def min_def)

text \<open>The folds of \<open>Remove\<close> are the maximum and the minimum.\<close>

lemma fold_max_eq: "fold max xs s = Max (insert s (set xs))" for s :: int
  using Max.set_eq_fold [of s xs] by simp

lemma fold_min_eq: "fold min xs s = Min (insert s (set xs))" for s :: int
  using Min.set_eq_fold [of s xs] by simp

lemma fold_max_in: "\<lbrakk>xs \<noteq> []; \<forall>x \<in> set xs. s \<le> x\<rbrakk> \<Longrightarrow> fold max xs s \<in> set xs" for s :: int
proof -
  assume ne: "xs \<noteq> []" and le: "\<forall>x \<in> set xs. s \<le> x"
  then have "Max (insert s (set xs)) = Max (set xs)"
    by (subst Max.insert) (auto simp: max_def Max_ge_iff)
  with ne show ?thesis by (simp add: fold_max_eq)
qed

lemma fold_min_in: "\<lbrakk>xs \<noteq> []; \<forall>x \<in> set xs. x \<le> s\<rbrakk> \<Longrightarrow> fold min xs s \<in> set xs" for s :: int
proof -
  assume ne: "xs \<noteq> []" and le: "\<forall>x \<in> set xs. x \<le> s"
  then have "Min (insert s (set xs)) = Min (set xs)"
    by (subst Min.insert) (auto intro!: min.absorb2 Min.boundedI dest: Min_in)
  with ne show ?thesis by (simp add: fold_min_eq)
qed

lemma bit_fold_flags:
  "bit (fold (\<lambda>a f. f OR ti_flags a) as f) n \<longleftrightarrow> bit f n \<or> (\<exists>a \<in> set as. bit (ti_flags a) n)"
  by (induction as arbitrary: f) (auto simp: bit_or_iff)

lemma Remove_if_sel [simp]:
  "b_alarms (fst (Remove_if p b)) = filter (\<lambda>a. \<not> p a) (b_alarms b)"
  "snd (Remove_if p b) \<longleftrightarrow> list_ex p (b_alarms b)"
  by (auto simp: Remove_if_def remove_loop_eq Let_def)

lemma Remove_if_none: "\<not> list_ex p (b_alarms b) \<Longrightarrow> fst (Remove_if p b) = b"
  by (auto simp: Remove_if_def remove_loop_eq Let_def list_ex_iff filter_id_conv)

lemma Remove_if_some:
  assumes "list_ex p (b_alarms b)"
  shows "b_start (fst (Remove_if p b)) = fold max (map ti_whenElapsed (filter (\<lambda>a. \<not> p a) (b_alarms b))) i64_min"
    and "b_end (fst (Remove_if p b)) = fold min (map ti_maxWhenElapsed (filter (\<lambda>a. \<not> p a) (b_alarms b))) i64_max"
    and "b_flags (fst (Remove_if p b)) = fold (\<lambda>a f. f OR ti_flags a) (filter (\<lambda>a. \<not> p a) (b_alarms b)) 0"
  using assms by (auto simp: Remove_if_def remove_loop_eq Let_def)

lemma sorted_map_filter: "sorted (map f xs) \<Longrightarrow> sorted (map f (filter P xs))"
  for f :: "'a \<Rightarrow> 'k::linorder"
  by (induction xs) auto

lemma batch_inv_Remove_if:
  assumes inv: "batch_inv b" and rest: "filter (\<lambda>a. \<not> p a) (b_alarms b) \<noteq> []"
  shows "batch_inv (fst (Remove_if p b))"
proof (cases "list_ex p (b_alarms b)")
  case True
  have "ti_whenElapsed a \<le> b_start (fst (Remove_if p b)) \<and> b_end (fst (Remove_if p b)) \<le> ti_maxWhenElapsed a"
    if "a \<in> set (filter (\<lambda>a. \<not> p a) (b_alarms b))" for a
    using that by (auto simp: Remove_if_some(1,2) [OF True] fold_max_eq fold_min_eq intro!: Max_ge Min_le)
  moreover have "sorted (map ti_whenElapsed (filter (\<lambda>a. \<not> p a) (b_alarms b)))"
    using inv by (simp add: batch_inv_def sorted_map_filter)
  ultimately show ?thesis
    using rest by (simp add: batch_inv_def Remove_if_some(3) [OF True] bit_fold_flags)
qed (use inv in \<open>simp add: Remove_if_none\<close>)

text \<open>
  With 64-bit times the recomputed start and end are again attained: \<open>time_point::min()\<close>
  and \<open>max()\<close>, from which the loop starts, do not survive while an alarm is left.
\<close>

lemma batch_tight_Remove_if:
  assumes "batch_tight b" and rest: "filter (\<lambda>a. \<not> p a) (b_alarms b) \<noteq> []"
    and ranged: "\<forall>a \<in> set (b_alarms b). alarm_ranged a"
  shows "batch_tight (fst (Remove_if p b))"
proof (cases "list_ex p (b_alarms b)")
  case True
  let ?as = "filter (\<lambda>a. \<not> p a) (b_alarms b)"
  have "fold max (map ti_whenElapsed ?as) i64_min \<in> set (map ti_whenElapsed ?as)"
    using rest ranged by (intro fold_max_in) (auto simp: alarm_ranged_def in_i64_def i64_min_def)
  moreover have "fold min (map ti_maxWhenElapsed ?as) i64_max \<in> set (map ti_maxWhenElapsed ?as)"
    using rest ranged by (intro fold_min_in) (auto simp: alarm_ranged_def in_i64_def i64_max_def)
  ultimately show ?thesis
    by (simp add: batch_tight_def Remove_if_some [OF True])
qed (use assms in \<open>simp add: Remove_if_none\<close>)

section \<open>The common window\<close>

text \<open>
  A batch that can hold an alarm has a start and an end inside the alarm's window after
  \<open>Add\<close>, and the window of the batch stays non-empty.
\<close>

lemma feasible_seed: "ti_whenElapsed a \<le> ti_maxWhenElapsed a \<Longrightarrow> feasible (Batch_seed a)"
  by (simp add: feasible_def)

lemma feasible_Add:
  assumes "feasible b" and "CanHold b (ti_whenElapsed a) (ti_maxWhenElapsed a)"
    and "ti_whenElapsed a \<le> ti_maxWhenElapsed a"
  shows "feasible (fst (Add a b))"
  using assms by (auto simp: feasible_def CanHold_def)

lemma feasible_Remove_if:
  assumes "batch_inv b" "batch_tight b" "feasible b"
    and rest: "filter (\<lambda>a. \<not> p a) (b_alarms b) \<noteq> []"
    and ranged: "\<forall>a \<in> set (b_alarms b). alarm_ranged a"
  shows "feasible (fst (Remove_if p b))"
proof -
  let ?b = "fst (Remove_if p b)"
  have "batch_tight ?b" using assms by (intro batch_tight_Remove_if) auto
  then obtain x y where "x \<in> set (b_alarms b)" "b_start ?b = ti_whenElapsed x"
    "y \<in> set (b_alarms b)" "b_end ?b = ti_maxWhenElapsed y"
    by (auto simp: batch_tight_def)
  then have "b_start ?b \<le> b_start b" "b_end b \<le> b_end ?b"
    using assms(1) by (auto simp: batch_inv_def)
  with assms(3) show ?thesis by (simp add: feasible_def)
qed

text \<open>Delivering a feasible batch at its start is inside the window of every alarm in it.\<close>

lemma feasible_window:
  assumes "batch_inv b" "feasible b" "a \<in> set (b_alarms b)"
  shows "ti_whenElapsed a \<le> GetStart b \<and> GetStart b \<le> ti_maxWhenElapsed a"
  using assms by (fastforce simp: batch_inv_def feasible_def GetStart_def)

lemma HasWakeups_iff: "HasWakeups b \<longleftrightarrow> (\<exists>a \<in> set (b_alarms b). even (ti_type a))"
  by (auto simp: HasWakeups_def list_ex_iff TYPE_NONWAKEUP_MASK_def and_one_eq even_iff_mod_2_eq_zero odd_iff_mod_2_eq_one)

end
