(* ===== verification/Timer_Handler.thy ===== *)
theory Timer_Handler
  imports Cpp_Std
begin

text \<open>
  \<open>TimerHandler\<close> (\<open>timer_handler.h\<close>, \<open>timer_handler.cpp\<close>): the six kernel timers
  behind the manager. The system calls are outside the program: their results are parameters
  (\<open>os_calls\<close>, and the result function of \<open>timerfd_settime\<close>), and the calls that acquire
  or release a descriptor are recorded in order, so that the lemmas can say what is open at
  the end. The kernel's state that the manager relies on is the time each timer was last
  successfully set to (\<open>armed\<close>).
\<close>

definition ALARM_TYPE_COUNT :: nat where "ALARM_TYPE_COUNT = 5"
definition N_TIMER_FDS :: nat where "N_TIMER_FDS = ALARM_TYPE_COUNT + 1"
definition ALARM_TIME_CHANGE_MASK :: u32 where "ALARM_TIME_CHANGE_MASK = push_bit 16 1"

text \<open>The clocks of the system, and that of each kernel timer; \<open>Thread_clock\<close> is a thread's own.\<close>

datatype clock_id = CLOCK_REALTIME | CLOCK_BOOTTIME | CLOCK_MONOTONIC | CLOCK_REALTIME_ALARM | CLOCK_BOOTTIME_ALARM | Thread_clock

definition alarm_to_clock_id :: "clock_id list" where
  "alarm_to_clock_id =
     [CLOCK_REALTIME_ALARM, CLOCK_REALTIME, CLOCK_BOOTTIME_ALARM, CLOCK_BOOTTIME, CLOCK_MONOTONIC, CLOCK_REALTIME]"

record timer_handler =
  th_fds :: "int list"
  th_epollFd :: int

record os_calls =
  os_epoll_create :: int
  os_timerfd_create :: "nat \<Rightarrow> clock_id \<Rightarrow> int"
  os_epoll_ctl_add :: "nat \<Rightarrow> int"
  os_timerfd_settime :: int

datatype fd_event = Opened int | Closed int

section \<open>Creation and destruction\<close>

text \<open>\<open>~TimerHandler\<close>: every timer descriptor is closed, then the epoll descriptor.\<close>

definition destroy_handler :: "timer_handler \<Rightarrow> fd_event list" where
  "destroy_handler h = map Closed (th_fds h) @ [Closed (th_epollFd h)]"

text \<open>The first loop of \<open>Create\<close>: the descriptors so far, or a failure and its clean-up.\<close>

fun create_fds :: "os_calls \<Rightarrow> int \<Rightarrow> nat \<Rightarrow> nat \<Rightarrow> int list \<Rightarrow> int list option \<times> fd_event list" where
  "create_fds os epollfd 0 i fds = (Some fds, [])"
| "create_fds os epollfd (Suc n) i fds =
     (let fd = os_timerfd_create os i (alarm_to_clock_id ! i) in
      if fd < 0 then (None, Closed epollfd # map Closed fds)
      else let (r, ev) = create_fds os epollfd n (Suc i) (fds @ [fd]) in (r, Opened fd # ev))"

definition Create_handler :: "os_calls \<Rightarrow> timer_handler option \<times> fd_event list" where
  "Create_handler os =
     (let epollfd = os_epoll_create os in
      if epollfd < 0 then (None, [])
      else case create_fds os epollfd N_TIMER_FDS 0 [] of
        (None, ev) \<Rightarrow> (None, Opened epollfd # ev)
      | (Some fds, ev) \<Rightarrow>
          let handler = \<lparr>th_fds = fds, th_epollFd = epollfd\<rparr> in
          if \<exists>i \<in> set [0..<length fds]. os_epoll_ctl_add os i < 0
          then (None, Opened epollfd # ev @ destroy_handler handler)
          else if os_timerfd_settime os < 0
          then (None, Opened epollfd # ev @ destroy_handler handler)
          else (Some handler, Opened epollfd # ev))"

text \<open>The descriptors left open by a sequence of events, counting multiplicity.\<close>

definition opened :: "fd_event list \<Rightarrow> int multiset" where
  "opened evs = mset (List.map_filter (\<lambda>e. case e of Opened fd \<Rightarrow> Some fd | Closed _ \<Rightarrow> None) evs)"

definition closed :: "fd_event list \<Rightarrow> int multiset" where
  "closed evs = mset (List.map_filter (\<lambda>e. case e of Closed fd \<Rightarrow> Some fd | Opened _ \<Rightarrow> None) evs)"

lemma opened_simps [simp]:
  "opened [] = {#}" "opened (Opened fd # evs) = add_mset fd (opened evs)"
  "opened (Closed fd # evs) = opened evs" "opened (xs @ ys) = opened xs + opened ys"
  by (auto simp: opened_def map_filter_simps map_filter_def)

lemma closed_simps [simp]:
  "closed [] = {#}" "closed (Opened fd # evs) = closed evs"
  "closed (Closed fd # evs) = add_mset fd (closed evs)" "closed (xs @ ys) = closed xs + closed ys"
  by (auto simp: closed_def map_filter_simps map_filter_def)

lemma opened_map_Closed [simp]: "opened (map Closed fds) = {#}"
  by (induction fds) auto

lemma closed_map_Closed [simp]: "closed (map Closed fds) = mset fds"
  by (induction fds) auto

lemma create_fds_Some:
  "create_fds os e n i fds = (Some fds', evs) \<Longrightarrow>
    opened evs + mset fds = mset fds' \<and> closed evs = {#} \<and> length fds' = length fds + n \<and>
    (\<forall>fd \<in> set fds'. fd \<in> set fds \<or> 0 \<le> fd)"
  by (induction os e n i fds arbitrary: fds' evs rule: create_fds.induct)
    (fastforce simp: Let_def split: if_splits prod.splits)+

lemma create_fds_None:
  "create_fds os e n i fds = (None, evs) \<Longrightarrow> closed evs = add_mset e (opened evs + mset fds)"
  by (induction os e n i fds arbitrary: evs rule: create_fds.induct)
    (auto simp: Let_def split: if_splits prod.splits)

section \<open>Setting a timer\<close>

type_synonym armed = "nat \<Rightarrow> (int \<times> int) option"

text \<open>
  \<open>Set\<close>: the time point is split into seconds and nanoseconds and handed to
  \<open>timerfd_settime\<close>, whose result \<open>settime\<close> gives; an unknown type is EINVAL.
  A timespec of zero disarms the timer.
\<close>

definition Set_timer :: "(nat \<Rightarrow> int \<times> int \<Rightarrow> int) \<Rightarrow> u32 \<Rightarrow> int \<Rightarrow> armed \<Rightarrow> int \<times> armed" where
  "Set_timer settime type when a =
     (if ALARM_TYPE_COUNT < unat type then (-1, a)
      else let second = when sdiv 1000000000;
               ts = (second, when - second * 1000000000);
               ret = settime (unat type) ts
           in (ret, if ret < 0 then a
                    else a(unat type := (if ts = (0, 0) then None else Some ts))))"

text \<open>What \<open>timerfd_settime\<close> documents: a normalised absolute time is accepted.\<close>

definition settime_documented :: "(nat \<Rightarrow> int \<times> int \<Rightarrow> int) \<Rightarrow> bool" where
  "settime_documented settime \<longleftrightarrow>
     (\<forall>i sec nsec. 0 \<le> sec \<and> 0 \<le> nsec \<and> nsec < 1000000000 \<longrightarrow> settime i (sec, nsec) = 0)"

definition timespec_of :: "int \<Rightarrow> int \<times> int" where
  "timespec_of when = (when div 1000000000, when mod 1000000000)"

lemma Set_timer_armed:
  assumes "settime_documented settime" and "unat type \<le> ALARM_TYPE_COUNT" and "0 < when"
  shows "Set_timer settime type when a = (0, a(unat type := Some (timespec_of when)))"
proof -
  have eqs: "when sdiv 1000000000 = when div 1000000000"
    "when - when div 1000000000 * 1000000000 = when mod 1000000000"
    using assms(3) by (auto simp: sdiv_nonneg minus_div_mult_eq_mod)
  have "settime (unat type) (when div 1000000000, when mod 1000000000) = 0"
    using assms(1,3) by (simp add: settime_documented_def pos_imp_zdiv_nonneg_iff)
  moreover have "\<not> (when div 1000000000 = 0 \<and> when mod 1000000000 = 0)"
    using assms(3) by (metis div_mult_mod_eq mult_zero_left add.right_neutral less_irrefl)
  ultimately show ?thesis
    using assms(2) by (auto simp: Set_timer_def Let_def eqs timespec_of_def not_less)
qed

section \<open>Waiting\<close>

text \<open>
  \<open>WaitForAlarm\<close>: the ready descriptors by index, each with the result of \<open>read\<close>: success,
  or a negative result and whether \<open>errno\<close> is \<open>ECANCELED\<close>. The result is unsigned, so
  an error code comes back as a large number.
\<close>

datatype read_result = Read_ok | Read_err int bool

fun wait_loop :: "(nat \<times> read_result) list \<Rightarrow> u32 \<Rightarrow> u32" where
  "wait_loop [] result = result"
| "wait_loop ((alarm_idx, Read_ok) # events) result = wait_loop events (result OR push_bit alarm_idx 1)"
| "wait_loop ((alarm_idx, Read_err err canceled) # events) result =
     (if alarm_idx = ALARM_TYPE_COUNT \<and> canceled
      then wait_loop events (result OR ALARM_TIME_CHANGE_MASK)
      else word_of_int err)"

definition WaitForAlarm :: "int \<Rightarrow> (nat \<times> read_result) list \<Rightarrow> u32" where
  "WaitForAlarm nevents events =
     (if nevents < 0 then word_of_int nevents else wait_loop (take (nat nevents) events) 0)"

lemma bit_time_change_mask [simp]: "bit ALARM_TIME_CHANGE_MASK n \<longleftrightarrow> n = 16"
proof -
  have "bit (push_bit 16 1 :: u32) n \<longleftrightarrow> n = 16"
    unfolding bit_push_bit_iff by (auto simp: bit_1_iff)
  then show ?thesis by (simp only: ALARM_TIME_CHANGE_MASK_def)
qed

lemma bit_wait_loop:
  assumes "\<forall>e \<in> set events. snd e = Read_ok \<or> (fst e = ALARM_TYPE_COUNT \<and> (\<exists>err. snd e = Read_err err True))"
    and "n < 32"
  shows "bit (wait_loop events result) n \<longleftrightarrow>
    bit result n \<or> (n, Read_ok) \<in> set events \<or> (n = 16 \<and> (\<exists>err. (ALARM_TYPE_COUNT, Read_err err True) \<in> set events))"
  using assms(1)
proof (induction events result rule: wait_loop.induct)
  case (2 i events result)
  then show ?case using assms(2) by (auto simp: bit_simps)
next
  case (3 i err c events result)
  then show ?case using assms(2) by (auto simp: bit_or_iff)
qed simp

section \<open>Guarantees\<close>

text \<open>\<open>Create\<close> leaks no descriptor: when it fails, whichever system call failed, every
  descriptor that was opened has been closed exactly once; when it succeeds, exactly the epoll
  descriptor and six timer descriptors are open, the ones the handler holds.\<close>

theorem Create_leaks_nothing:
  "let (handler, evs) = Create_handler os
   in (case handler of
         None \<Rightarrow> closed evs = opened evs
       | Some h \<Rightarrow> closed evs = {#} \<and> opened evs = add_mset (th_epollFd h) (mset (th_fds h)) \<and>
           length (th_fds h) = N_TIMER_FDS \<and> 0 \<le> th_epollFd h \<and> list_all (\<lambda>fd. 0 \<le> fd) (th_fds h))"
proof (cases "os_epoll_create os < 0")
  case False
  obtain r ev where c: "create_fds os (os_epoll_create os) N_TIMER_FDS 0 [] = (r, ev)" by fastforce
  show ?thesis
  proof (cases r)
    case None
    then show ?thesis using c create_fds_None [of os _ N_TIMER_FDS 0 "[]" ev] False
      by (simp add: Create_handler_def Let_def)
  next
    case (Some fds)
    then have f: "opened ev = mset fds" "closed ev = {#}" "length fds = N_TIMER_FDS" "\<forall>fd \<in> set fds. 0 \<le> fd"
      using create_fds_Some [of os _ N_TIMER_FDS 0 "[]" fds ev] c by auto
    then show ?thesis using c Some False
      by (auto simp: Create_handler_def Let_def destroy_handler_def not_less list_all_iff)
  qed
qed (simp add: Create_handler_def)

text \<open>\<open>WaitForAlarm\<close> reports exactly what happened: when every read succeeded, or was cancelled
  on the sixth timer by a change of the clock, bit \<open>n\<close> of the result is set just when timer \<open>n\<close> was
  read, and bit 16 also when the clock was changed.\<close>

theorem WaitForAlarm_bits:
  assumes "list_all (\<lambda>(i, r). r = Read_ok \<or> (i = ALARM_TYPE_COUNT \<and> (\<exists>err. r = Read_err err True))) events"
    and "n < 32"
  shows "bit (WaitForAlarm (int (length events)) events) n \<longleftrightarrow>
    (n, Read_ok) \<in> set events \<or> (n = 16 \<and> (\<exists>err. (ALARM_TYPE_COUNT, Read_err err True) \<in> set events))"
  using bit_wait_loop [of events n 0] assms by (fastforce simp: WaitForAlarm_def list_all_iff)

theorem WaitForAlarm_bits_witness:
  "bit (WaitForAlarm 2 [(3, Read_ok), (5, Read_err (-1) True)]) 16 \<and>
   \<not> bit (WaitForAlarm 2 [(3, Read_ok), (5, Read_err (-1) True)]) 5"
  using WaitForAlarm_bits [of "[(3, Read_ok), (5, Read_err (-1) True)]" 16]
    WaitForAlarm_bits [of "[(3, Read_ok), (5, Read_err (-1) True)]" 5]
  by (simp add: ALARM_TYPE_COUNT_def)

end
