(* ===== verification/Timer_Clock.thy ===== *)
theory Timer_Clock
  imports Batch Timer_Handler
begin

text \<open>
  The constants of \<open>timer_manager.cpp\<close>, the clocks it reads and the trigger-time
  arithmetic. Everything outside the program that the timer manager consults is a field of
  \<open>world\<close>: each read happens at an instant \<open>t\<close> (a counter that the manager advances at
  every read), so two reads of a clock in one operation may return different values.
\<close>

definition TIME_CHANGED_MASK :: u32 where "TIME_CHANGED_MASK = push_bit 16 1"
definition ONE_THOUSAND :: int where "ONE_THOUSAND = 1000"

text \<open>Milliseconds, but for the two futurities, which are compared with time points.\<close>

definition MIN_FUTURITY :: int where "MIN_FUTURITY = ms_to_ns 5000"
definition ZERO_FUTURITY :: int where "ZERO_FUTURITY = ms_to_ns 0"
definition MIN_INTERVAL_FIVE_SECONDS :: int where "MIN_INTERVAL_FIVE_SECONDS = 5000"
definition MIN_INTERVAL_ONE_SECONDS :: int where "MIN_INTERVAL_ONE_SECONDS = 1000"
definition MAX_INTERVAL :: int where "MAX_INTERVAL = 24 * 365 * 3600000"
definition INTERVAL_HOUR :: int where "INTERVAL_HOUR = 3600000"
definition INTERVAL_HALF_DAY :: int where "INTERVAL_HALF_DAY = 12 * 3600000"
definition MIN_FUZZABLE_INTERVAL :: int where "MIN_FUZZABLE_INTERVAL = 10000"

lemmas timer_constants =
  MIN_FUTURITY_def ZERO_FUTURITY_def MIN_INTERVAL_FIVE_SECONDS_def MIN_INTERVAL_ONE_SECONDS_def
  MAX_INTERVAL_def INTERVAL_HOUR_def INTERVAL_HALF_DAY_def MIN_FUZZABLE_INTERVAL_def ONE_THOUSAND_def

text \<open>
  \<open>w_clock_boottime\<close> is \<open>clock_gettime(CLOCK_BOOTTIME)\<close>, \<open>None\<close> when it fails;
  \<open>w_sort\<close> is the \<open>std::sort\<close> by \<open>whenElapsed\<close>; \<open>w_random\<close> the numbers the random
  engine yields; \<open>w_settime\<close> the result of \<open>timerfd_settime\<close>.
\<close>

record world =
  w_clock_boottime :: "nat \<Rightarrow> (int \<times> int) option"
  w_steady_now :: "nat \<Rightarrow> int"
  w_system_now :: "nat \<Rightarrow> int"
  w_ability_manager :: "nat \<Rightarrow> bool"
  w_bundle_manager :: "nat \<Rightarrow> bool"
  w_is_system_app :: "nat \<Rightarrow> int \<Rightarrow> bool"
  w_settime :: "nat \<Rightarrow> int \<times> int \<Rightarrow> int"
  w_sort :: "timer_info list \<Rightarrow> timer_info list"
  w_random :: "nat \<Rightarrow> u64"

definition GetBootTimeNs :: "world \<Rightarrow> nat \<Rightarrow> int" where
  "GetBootTimeNs w t =
     (case w_clock_boottime w t of
        None \<Rightarrow> w_steady_now w t
      | Some (sec, nsec) \<Rightarrow> sec * 1000000000 + nsec)"

definition IsSystemUid :: "world \<Rightarrow> nat \<Rightarrow> int \<Rightarrow> bool" where
  "IsSystemUid w t uid =
     (if \<not> w_ability_manager w t then False
      else if \<not> w_bundle_manager w t then False
      else w_is_system_app w t uid)"

text \<open>\<open>when\<close> in milliseconds; the boot clock is read at \<open>t\<close>, the system clock after it.\<close>

definition ConvertToElapsed :: "world \<Rightarrow> nat \<Rightarrow> int \<Rightarrow> i32 \<Rightarrow> int" where
  "ConvertToElapsed w t when type =
     (let bootTimePoint = GetBootTimeNs w t in
      if type = RTC \<or> type = RTC_WAKEUP
      then let systemTimeNow = w_system_now w (Suc t); offset = ms_to_ns when - systemTimeNow
           in bootTimePoint + offset
      else let offset = ms_to_ns when - bootTimePoint in bootTimePoint + offset)"

text \<open>
  \<open>static_cast<long>(BATCH_WINDOW_COE * futurity.count())\<close> for a futurity that is not
  negative: \<open>float_t\<close> is a 24-bit float, so the count is rounded when it is converted and
  the product with 0.75 is rounded again; the cast truncates. Three times the rounded count
  has the digits of the product, two places up.
\<close>

definition batch_window :: "int \<Rightarrow> int" where
  "batch_window ms = int (round_bits 24 (3 * round_bits 24 (nat ms)) div 4)"

definition MaxTriggerTime :: "int \<Rightarrow> int \<Rightarrow> int \<Rightarrow> int" where
  "MaxTriggerTime now triggerAtTime interval =
     (let futurity = (if interval = 0 then duration_cast_ms (triggerAtTime - now) else interval);
          futurity = (if futurity < MIN_FUZZABLE_INTERVAL then 0 else futurity)
      in triggerAtTime + ms_to_ns (batch_window futurity))"

lemma batch_window_zero [simp]: "batch_window 0 = 0"
  by (simp add: batch_window_def round_bits_def round_half_even_def bit_len.simps)

lemma batch_window_nonneg [simp]: "0 \<le> batch_window c"
  by (simp add: batch_window_def)

text \<open>Below $2^{24}/3$ milliseconds, an hour and a half, the window is exactly three quarters.\<close>

lemma batch_window_exact: "0 \<le> c \<Longrightarrow> 3 * c < 2 ^ 24 \<Longrightarrow> batch_window c = 3 * c div 4"
  by (simp add: batch_window_def round_bits_exact nat_less_iff zdiv_int)

lemma batch_window_bounds:
  assumes "0 \<le> c"
  shows "batch_window c \<le> c" and "c div 2 \<le> batch_window c"
proof -
  define n where "n = nat c"
  let ?x = "round_bits 24 n" and ?y = "round_bits 24 (3 * round_bits 24 n)"
  have x: "16777216 * n \<le> 16777216 * ?x + n" "16777216 * ?x \<le> 16777216 * n + n"
    using round_bits_error [of 24 n] by simp_all
  have y: "16777216 * (3 * ?x) \<le> 16777216 * ?y + 3 * ?x" "16777216 * ?y \<le> 16777216 * (3 * ?x) + 3 * ?x"
    using round_bits_error [of 24 "3 * ?x"] by simp_all
  have "?y \<le> 4 * n" "2 * n \<le> ?y" using x y by linarith+
  then have "?y div 4 \<le> n" "n div 2 \<le> ?y div 4" by simp_all
  then have "int (?y div 4) \<le> int n" "int n div 2 \<le> int (?y div 4)"
    by (simp_all add: zdiv_int [symmetric] del: of_nat_div)
  then show "batch_window c \<le> c" and "c div 2 \<le> batch_window c"
    using assms by (simp_all add: batch_window_def n_def)
qed

lemma MaxTriggerTime_ge: "triggerAtTime \<le> MaxTriggerTime now triggerAtTime interval"
  by (simp add: MaxTriggerTime_def Let_def)

lemma MaxTriggerTime_le:
  "0 < interval \<Longrightarrow> MaxTriggerTime now triggerAtTime interval \<le> triggerAtTime + ms_to_ns interval"
  by (auto simp: MaxTriggerTime_def Let_def MIN_FUZZABLE_INTERVAL_def batch_window_bounds)

lemma MaxTriggerTime_exact_small:
  "0 < interval \<Longrightarrow> interval < MIN_FUZZABLE_INTERVAL \<Longrightarrow> MaxTriggerTime now triggerAtTime interval = triggerAtTime"
  by (simp add: MaxTriggerTime_def)

lemma ConvertToElapsed_elapsed:
  "type \<noteq> RTC \<Longrightarrow> type \<noteq> RTC_WAKEUP \<Longrightarrow> ConvertToElapsed w t when type = ms_to_ns when"
  by (simp add: ConvertToElapsed_def Let_def)

lemma ConvertToElapsed_rtc:
  "type = RTC \<or> type = RTC_WAKEUP \<Longrightarrow>
    ConvertToElapsed w t when type = GetBootTimeNs w t + (ms_to_ns when - w_system_now w (Suc t))"
  by (auto simp: ConvertToElapsed_def Let_def)

section \<open>A world for examples\<close>

text \<open>A boot clock that stands at 100 seconds, and 0, 1, 2, ... as the numbers of the engine.\<close>

definition sample_world :: world where
  "sample_world =
     \<lparr>w_clock_boottime = (\<lambda>_. Some (100, 0)), w_steady_now = (\<lambda>_. 100000000000),
      w_system_now = (\<lambda>_. 1000000000000000000), w_ability_manager = (\<lambda>_. True),
      w_bundle_manager = (\<lambda>_. True), w_is_system_app = (\<lambda>_ _. False),
      w_settime = (\<lambda>_ _. 0), w_sort = sort_key ti_whenElapsed, w_random = of_nat\<rparr>"

lemma sample_world_sel [simp]:
  "w_sort sample_world = sort_key ti_whenElapsed" "w_settime sample_world = (\<lambda>_ _. 0)"
  "w_system_now sample_world t = 1000000000000000000" "GetBootTimeNs sample_world t = 100000000000"
  "IsSystemUid sample_world t u = False" "w_random sample_world = of_nat"
  by (simp_all add: sample_world_def GetBootTimeNs_def IsSystemUid_def)

end
