(* ===== verification/Timer_Batching.thy ===== *)
theory Timer_Batching
  imports Timer_Clock
begin

text \<open>
  The state of \<open>TimerManager\<close> (\<open>timer_manager.h\<close>) and the operations on its list of
  batches: \<open>AddBatchLocked\<close>, \<open>AttemptCoalesceLocked\<close>, \<open>InsertAndBatchTimerLocked\<close>,
  \<open>FindFirstWakeupBatchLocked\<close> and \<open>RescheduleKernelTimerLocked\<close>.

  An alarm is a value here and a shared pointer in the code. The code writes to an alarm
  only in \<open>ReAddTimerLocked\<close> and \<open>TriggerTimersLocked\<close>, both times after the batch that
  held it has been taken out of the list, and a new batch copies its seed, so no alarm is
  written through two batches of the list.

  Calls of an alarm's callback are recorded in \<open>fired\<close>, in order.
\<close>

record timer_manager =
  timerEntryMap :: "(u64, timer_entry) std_map"
  randomPos :: nat
  alarmBatches :: "batch list"
  kernelTimers :: armed
  lastTimeChangeClockTime :: int
  lastTimeChangeRealtime :: int
  proxyUids :: "int set"
  proxyMap :: "(int, timer_info list) std_map"
  fired :: "(timer_callback \<times> u64) list"
  ticks :: nat

text \<open>The constructor: no timer, and both times of the last change at the clocks' minimum.\<close>

definition TimerManager :: "timer_manager" where
  "TimerManager =
     \<lparr>timerEntryMap = [], randomPos = 0, alarmBatches = [], kernelTimers = (\<lambda>_. None),
      lastTimeChangeClockTime = i64_min, lastTimeChangeRealtime = i64_min,
      proxyUids = {}, proxyMap = [], fired = [], ticks = 0\<rparr>"

section \<open>The list of batches\<close>

definition AddBatchLocked :: "batch list \<Rightarrow> batch \<Rightarrow> batch list" where
  "AddBatchLocked bs newBatch =
     list_insert (upper_bound (\<lambda>a b. GetStart a < GetStart b) bs newBatch) newBatch bs"

text \<open>The loop of \<open>AttemptCoalesceLocked\<close>: the code never advances \<open>i\<close>.\<close>

fun coalesce_loop :: "int \<Rightarrow> batch list \<Rightarrow> int \<Rightarrow> int \<Rightarrow> int" where
  "coalesce_loop i [] whenElapsed maxWhen = -1"
| "coalesce_loop i (item # rest) whenElapsed maxWhen =
     (if GetFlags item AND STANDALONE = 0 \<and> CanHold item whenElapsed maxWhen then i
      else coalesce_loop i rest whenElapsed maxWhen)"

definition AttemptCoalesceLocked :: "batch list \<Rightarrow> int \<Rightarrow> int \<Rightarrow> int" where
  "AttemptCoalesceLocked bs whenElapsed maxWhen = coalesce_loop 0 bs whenElapsed maxWhen"

definition insert_and_batch :: "timer_info \<Rightarrow> batch list \<Rightarrow> batch list" where
  "insert_and_batch alarm bs =
     (let whichBatch = (if ti_flags alarm AND STANDALONE \<noteq> 0 then -1
                        else AttemptCoalesceLocked bs (ti_whenElapsed alarm) (ti_maxWhenElapsed alarm))
      in if whichBatch < 0 then AddBatchLocked bs (Batch_seed alarm)
         else let (batch, new_start) = Add alarm (bs ! nat whichBatch);
                  bs1 = bs[nat whichBatch := batch]
              in if new_start then AddBatchLocked (list_erase (nat whichBatch) bs1) batch else bs1)"

definition InsertAndBatchTimerLocked :: "timer_info \<Rightarrow> timer_manager \<Rightarrow> timer_manager" where
  "InsertAndBatchTimerLocked alarm m = m\<lparr>alarmBatches := insert_and_batch alarm (alarmBatches m)\<rparr>"

section \<open>The kernel timers\<close>

definition SetLocked :: "world \<Rightarrow> i32 \<Rightarrow> int \<Rightarrow> timer_manager \<Rightarrow> timer_manager" where
  "SetLocked w type when m = m\<lparr>kernelTimers := snd (Set_timer (w_settime w) type when (kernelTimers m))\<rparr>"

text \<open>The position of the first batch with a wake-up alarm: the code compares pointers.\<close>

fun find_wakeup :: "nat \<Rightarrow> batch list \<Rightarrow> nat option" where
  "find_wakeup i [] = None"
| "find_wakeup i (b # bs) = (if HasWakeups b then Some i else find_wakeup (Suc i) bs)"

definition FindFirstWakeupBatchLocked :: "batch list \<Rightarrow> nat option" where
  "FindFirstWakeupBatchLocked bs = find_wakeup 0 bs"

definition RescheduleKernelTimerLocked :: "world \<Rightarrow> timer_manager \<Rightarrow> timer_manager" where
  "RescheduleKernelTimerLocked w m =
     (case alarmBatches m of
        [] \<Rightarrow> m
      | firstBatch # _ \<Rightarrow>
          let firstWakeup = FindFirstWakeupBatchLocked (alarmBatches m);
              m1 = (case firstWakeup of
                      None \<Rightarrow> m
                    | Some i \<Rightarrow> SetLocked w ELAPSED_REALTIME_WAKEUP (GetStart (alarmBatches m ! i)) m);
              nextNonWakeup = (if firstWakeup \<noteq> Some 0 then GetStart firstBatch else i64_min)
          in if nextNonWakeup \<noteq> i64_min then SetLocked w ELAPSED_REALTIME nextNonWakeup m1 else m1)"

section \<open>Invariant of the list\<close>

definition batches_inv :: "batch list \<Rightarrow> bool" where
  "batches_inv bs \<longleftrightarrow> (\<forall>b \<in> set bs. batch_inv b) \<and> sorted (map GetStart bs)"

text \<open>What the list holds, as a multiset: the abstract state of the scheduler.\<close>

definition scheduled_in :: "batch list \<Rightarrow> timer_info multiset" where
  "scheduled_in bs = (\<Sum>b \<in># mset bs. mset (b_alarms b))"

definition scheduled :: "timer_manager \<Rightarrow> timer_info multiset" where
  "scheduled m = scheduled_in (alarmBatches m)"

interpretation batch_order: ordered_insert GetStart "\<lambda>b bs. AddBatchLocked bs b"
proof
  show "mset (AddBatchLocked bs b) = add_mset b (mset bs)" for b bs
    by (simp add: AddBatchLocked_def)
  show "sorted (map GetStart (AddBatchLocked bs b))" if "sorted (map GetStart bs)" for b bs
    using sorted_ub_insert [OF that, of b] by (simp add: AddBatchLocked_def ub_insert_def)
qed

lemma scheduled_in_simps [simp]:
  "scheduled_in [] = {#}"
  "scheduled_in (b # bs) = mset (b_alarms b) + scheduled_in bs"
  "scheduled_in (bs @ cs) = scheduled_in bs + scheduled_in cs"
  by (auto simp: scheduled_in_def)

lemma scheduled_in_AddBatch [simp]:
  "scheduled_in (AddBatchLocked bs b) = mset (b_alarms b) + scheduled_in bs"
  by (simp add: scheduled_in_def batch_order.mset_ins)

lemma set_scheduled_in: "set_mset (scheduled_in bs) = (\<Union>b \<in> set bs. set (b_alarms b))"
  by (induction bs) auto

lemma coalesce_loop_cases:
  "coalesce_loop i bs w x =
    (if \<exists>b \<in> set bs. GetFlags b AND STANDALONE = 0 \<and> CanHold b w x then i else -1)"
  by (induction bs) auto

lemma coalesce_zero:
  "AttemptCoalesceLocked bs w x =
    (if \<exists>b \<in> set bs. GetFlags b AND STANDALONE = 0 \<and> CanHold b w x then 0 else -1)"
  by (simp add: AttemptCoalesceLocked_def coalesce_loop_cases)

text \<open>What the insertion does: a batch of its own, or into the first batch.\<close>

lemma insert_and_batch_cases:
  "insert_and_batch a bs =
    (if ti_flags a AND STANDALONE = 0 \<and>
        (\<exists>b \<in> set bs. GetFlags b AND STANDALONE = 0 \<and> CanHold b (ti_whenElapsed a) (ti_maxWhenElapsed a))
     then if b_start (hd bs) < ti_whenElapsed a then AddBatchLocked (tl bs) (fst (Add a (hd bs)))
          else fst (Add a (hd bs)) # tl bs
     else AddBatchLocked bs (Batch_seed a))"
  by (cases bs)
    (auto simp: insert_and_batch_def coalesce_zero Let_def list_erase_def split: prod.splits
      dest: arg_cong [where f = fst] arg_cong [where f = snd])

lemma scheduled_in_insert: "scheduled_in (insert_and_batch a bs) = add_mset a (scheduled_in bs)"
  by (cases bs) (auto simp: insert_and_batch_cases alarm_order.mset_ins)

lemma batches_inv_insert: "batches_inv bs \<Longrightarrow> batches_inv (insert_and_batch a bs)"
  by (cases bs)
    (auto simp: insert_and_batch_cases batches_inv_def batch_inv_Add batch_order.sorted_ins
      GetStart_def max_def intro: batch_order.sorted_ins)

text \<open>
  Batches whose start has come. Inserting an alarm that is not due adds none: a batch that
  takes it in starts no earlier than the alarm.
\<close>

definition due :: "int \<Rightarrow> batch list \<Rightarrow> batch list" where
  "due now bs = filter (\<lambda>b. GetStart b \<le> now) bs"

lemma size_due_AddBatch:
  "length (due now (AddBatchLocked bs b)) = (if GetStart b \<le> now then 1 else 0) + length (due now bs)"
proof -
  have "size (filter_mset (\<lambda>b. GetStart b \<le> now) (mset (AddBatchLocked bs b))) =
      (if GetStart b \<le> now then 1 else 0) + size (filter_mset (\<lambda>b. GetStart b \<le> now) (mset bs))"
    by (simp add: batch_order.mset_ins)
  then show ?thesis by (simp add: due_def mset_filter [symmetric] del: mset_filter)
qed

lemma due_simps [simp]:
  "due now [] = []"
  "due now (b # bs) = (if GetStart b \<le> now then b # due now bs else due now bs)"
  by (simp_all add: due_def)

lemma due_insert:
  "now < ti_whenElapsed a \<Longrightarrow> length (due now (insert_and_batch a bs)) \<le> length (due now bs)"
  by (cases bs) (auto simp: insert_and_batch_cases size_due_AddBatch GetStart_def)

lemma due_insert_le: "length (due now (insert_and_batch a bs)) \<le> Suc (length (due now bs))"
  by (cases bs) (auto simp: insert_and_batch_cases size_due_AddBatch GetStart_def)

text \<open>In a sorted list nothing is due once the first batch is not.\<close>

lemma not_due_all:
  "sorted (map GetStart (b # bs)) \<Longrightarrow> now < GetStart b \<Longrightarrow> due now (b # bs) = []"
  by (auto simp: due_def filter_empty_conv)

section \<open>Keeping the windows of the batches\<close>

text \<open>
  Insertion keeps every batch feasible when the first batch is the one that can hold the
  alarm, or none can: the case in which the index that \<open>AttemptCoalesceLocked\<close> returns is
  the right one.
\<close>

definition coalesce_first :: "timer_info \<Rightarrow> batch list \<Rightarrow> bool" where
  "coalesce_first a bs \<longleftrightarrow>
     (\<forall>b \<in> set (tl bs). \<not> (GetFlags b AND STANDALONE = 0 \<and> CanHold b (ti_whenElapsed a) (ti_maxWhenElapsed a)))"

lemma feasible_insert:
  assumes "\<forall>b \<in> set bs. feasible b" and "coalesce_first a bs"
    and "ti_whenElapsed a \<le> ti_maxWhenElapsed a"
  shows "\<forall>b \<in> set (insert_and_batch a bs). feasible b"
proof (cases bs)
  case Nil
  with assms show ?thesis by (simp add: insert_and_batch_cases feasible_seed)
next
  case (Cons b rest)
  have "feasible (fst (Add a b))" if "CanHold b (ti_whenElapsed a) (ti_maxWhenElapsed a)"
    using assms that Cons by (simp add: feasible_Add)
  with assms Cons show ?thesis
    by (auto simp: insert_and_batch_cases coalesce_first_def feasible_seed)
qed

section \<open>What the kernel is asked for\<close>

lemma find_wakeup_shift: "find_wakeup (Suc i) bs = map_option Suc (find_wakeup i bs)"
  by (induction bs arbitrary: i) auto

lemma FindFirstWakeup_None: "FindFirstWakeupBatchLocked bs = None \<longleftrightarrow> (\<forall>b \<in> set bs. \<not> HasWakeups b)"
  by (induction bs) (auto simp: FindFirstWakeupBatchLocked_def find_wakeup_shift)

lemma FindFirstWakeup_Some:
  "FindFirstWakeupBatchLocked bs = Some i \<Longrightarrow>
    i < length bs \<and> HasWakeups (bs ! i) \<and> (\<forall>j < i. \<not> HasWakeups (bs ! j))"
proof (induction bs arbitrary: i)
  case (Cons b bs)
  then show ?case
    by (auto simp: FindFirstWakeupBatchLocked_def find_wakeup_shift nth_Cons split: if_splits nat.splits)
qed (simp add: FindFirstWakeupBatchLocked_def)

lemma FindFirstWakeup_zero: "FindFirstWakeupBatchLocked (b # bs) = Some 0 \<longleftrightarrow> HasWakeups b"
  by (auto simp: FindFirstWakeupBatchLocked_def find_wakeup_shift)

lemma Reschedule_frame [simp, frame_simps]:
  "alarmBatches (RescheduleKernelTimerLocked w m) = alarmBatches m"
  "timerEntryMap (RescheduleKernelTimerLocked w m) = timerEntryMap m"
  "randomPos (RescheduleKernelTimerLocked w m) = randomPos m"
  "lastTimeChangeClockTime (RescheduleKernelTimerLocked w m) = lastTimeChangeClockTime m"
  "lastTimeChangeRealtime (RescheduleKernelTimerLocked w m) = lastTimeChangeRealtime m"
  "proxyUids (RescheduleKernelTimerLocked w m) = proxyUids m"
  "proxyMap (RescheduleKernelTimerLocked w m) = proxyMap m"
  "fired (RescheduleKernelTimerLocked w m) = fired m"
  "ticks (RescheduleKernelTimerLocked w m) = ticks m"
  by (auto simp: RescheduleKernelTimerLocked_def SetLocked_def Let_def split: list.splits option.splits)

lemma Insert_frame [simp, frame_simps]:
  "timerEntryMap (InsertAndBatchTimerLocked a m) = timerEntryMap m"
  "randomPos (InsertAndBatchTimerLocked a m) = randomPos m"
  "kernelTimers (InsertAndBatchTimerLocked a m) = kernelTimers m"
  "lastTimeChangeClockTime (InsertAndBatchTimerLocked a m) = lastTimeChangeClockTime m"
  "lastTimeChangeRealtime (InsertAndBatchTimerLocked a m) = lastTimeChangeRealtime m"
  "proxyUids (InsertAndBatchTimerLocked a m) = proxyUids m"
  "proxyMap (InsertAndBatchTimerLocked a m) = proxyMap m"
  "fired (InsertAndBatchTimerLocked a m) = fired m"
  "ticks (InsertAndBatchTimerLocked a m) = ticks m"
  "alarmBatches (InsertAndBatchTimerLocked a m) = insert_and_batch a (alarmBatches m)"
  by (simp_all add: InsertAndBatchTimerLocked_def)

lemma SetLocked_kernel:
  "settime_documented (w_settime w) \<Longrightarrow> unat type \<le> ALARM_TYPE_COUNT \<Longrightarrow> 0 < when \<Longrightarrow>
    SetLocked w type when m = m\<lparr>kernelTimers := (kernelTimers m)(unat type := Some (timespec_of when))\<rparr>"
  by (simp add: SetLocked_def Set_timer_armed)

text \<open>
  Two kernel timers matter: number 2 wakes the device and is set to the first batch with a
  wake-up alarm, number 3 does not and is set to the first batch when that one has none.
\<close>

lemma Reschedule_kernel:
  assumes "settime_documented (w_settime w)" and "\<forall>b \<in> set (alarmBatches m). 0 < GetStart b"
    and "alarmBatches m = b # bs"
  shows "kernelTimers (RescheduleKernelTimerLocked w m) =
    (let k = (case FindFirstWakeupBatchLocked (alarmBatches m) of
                None \<Rightarrow> kernelTimers m
              | Some i \<Rightarrow> (kernelTimers m)(2 := Some (timespec_of (GetStart (alarmBatches m ! i)))))
     in if HasWakeups b then k else k(3 := Some (timespec_of (GetStart b))))"
proof -
  have pos: "0 < GetStart (alarmBatches m ! i)" if "FindFirstWakeupBatchLocked (alarmBatches m) = Some i" for i
    using assms(2) FindFirstWakeup_Some [OF that] by simp
  have b: "0 < GetStart b" "GetStart b \<noteq> i64_min" using assms(2,3) by (auto simp: i64_min_def)
  show ?thesis
    using assms(1,3) b pos
    by (auto simp: RescheduleKernelTimerLocked_def SetLocked_kernel timer_type_defs ALARM_TYPE_COUNT_def
        FindFirstWakeup_zero Let_def split: option.splits)
qed

end
