(* ===== verification/Timer_Proxy.thy ===== *)
theory Timer_Proxy
  imports Timer_Batching
begin

text \<open>
  Delivery and the proxy of \<open>TimerManager\<close>: the alarms of a proxied uid are queued instead
  of called back, and called back or dropped when the proxy ends
  (\<open>DeliverTimersLocked\<close>, \<open>CallbackAlarmIfNeed\<close>, \<open>RemoveProxy\<close>, \<open>ProxyTimer\<close>,
  \<open>ResetAllProxy\<close>).
\<close>

text \<open>\<open>alarm->callback(alarm->id)\<close>; every caller has checked that the function is not empty.\<close>

definition call_back :: "timer_info \<Rightarrow> timer_manager \<Rightarrow> timer_manager" where
  "call_back alarm m =
     (case ti_callback alarm of
        None \<Rightarrow> m
      | Some cb \<Rightarrow> m\<lparr>fired := fired m @ [(cb, ti_id alarm)]\<rparr>)"

definition CallbackAlarmIfNeed :: "timer_info \<Rightarrow> timer_manager \<Rightarrow> timer_manager" where
  "CallbackAlarmIfNeed alarm m =
     (let uid = ti_uid alarm in
      if uid \<notin> proxyUids m then call_back alarm m
      else case map_find (proxyMap m) uid of
             None \<Rightarrow> m\<lparr>proxyMap := map_assign uid [alarm] (proxyMap m)\<rparr>
           | Some timeInfoVec \<Rightarrow> m\<lparr>proxyMap := map_assign uid (timeInfoVec @ [alarm]) (proxyMap m)\<rparr>)"

fun DeliverTimersLocked :: "timer_info list \<Rightarrow> timer_manager \<Rightarrow> timer_manager" where
  "DeliverTimersLocked [] m = m"
| "DeliverTimersLocked (alarm # triggerList) m =
     DeliverTimersLocked triggerList
       (if ti_callback alarm \<noteq> None then CallbackAlarmIfNeed alarm m else m)"

text \<open>
  \<open>RemoveProxy\<close> erases from a copy of the queue; the queue itself goes only when the copy
  ends up empty. The loop goes on with the iterator it has erased, which is undefined in C++; here, as on a
  vector in practice, it then stands at the next alarm.
\<close>

definition RemoveProxy :: "u64 \<Rightarrow> int \<Rightarrow> timer_manager \<Rightarrow> timer_manager" where
  "RemoveProxy timerNumber uid m =
     (case map_find (proxyMap m) uid of
        None \<Rightarrow> m
      | Some queue \<Rightarrow>
          let alarms = filter (\<lambda>a. ti_id a \<noteq> timerNumber) queue
          in if alarms = [] then m\<lparr>proxyMap := map_erase uid (proxyMap m)\<rparr> else m)"

text \<open>The loops that call back a whole queue, skipping empty functions.\<close>

fun call_back_all :: "timer_info list \<Rightarrow> timer_manager \<Rightarrow> timer_manager" where
  "call_back_all [] m = m"
| "call_back_all (alarm # timeInfoVec) m =
     call_back_all timeInfoVec (if ti_callback alarm = None then m else call_back alarm m)"

definition ProxyTimer :: "int \<Rightarrow> bool \<Rightarrow> bool \<Rightarrow> timer_manager \<Rightarrow> timer_manager \<times> bool" where
  "ProxyTimer uid isProxy needRetrigger m =
     (if isProxy then (m\<lparr>proxyUids := insert uid (proxyUids m)\<rparr>, True)
      else if uid \<notin> proxyUids m then (m, False)
      else let m1 = m\<lparr>proxyUids := proxyUids m - {uid}\<rparr> in
        if \<not> needRetrigger then (m1\<lparr>proxyMap := map_erase uid (proxyMap m1)\<rparr>, True)
        else case map_find (proxyMap m1) uid of
               None \<Rightarrow> (m1, True)
             | Some timeInfoVec \<Rightarrow>
                 let m2 = call_back_all timeInfoVec m1
                 in (m2\<lparr>proxyMap := map_erase uid (proxyMap m2)\<rparr>, True))"

fun reset_loop :: "(int, timer_info list) std_map \<Rightarrow> timer_manager \<Rightarrow> timer_manager" where
  "reset_loop [] m = m"
| "reset_loop ((uid, timeInfoVec) # rest) m = reset_loop rest (call_back_all timeInfoVec m)"

definition ResetAllProxy :: "timer_manager \<Rightarrow> timer_manager \<times> bool" where
  "ResetAllProxy m = ((reset_loop (proxyMap m) m)\<lparr>proxyMap := [], proxyUids := {}\<rparr>, True)"

section \<open>What is called and what is queued\<close>

text \<open>The call that an alarm makes, and the queue of a uid.\<close>

definition call_of :: "timer_info \<Rightarrow> (timer_callback \<times> u64) list" where
  "call_of a = (case ti_callback a of None \<Rightarrow> [] | Some cb \<Rightarrow> [(cb, ti_id a)])"

definition calls :: "timer_info list \<Rightarrow> (timer_callback \<times> u64) list" where
  "calls as = concat (map call_of as)"

definition queue_of :: "timer_manager \<Rightarrow> int \<Rightarrow> timer_info list" where
  "queue_of m uid = (case map_find (proxyMap m) uid of None \<Rightarrow> [] | Some q \<Rightarrow> q)"

lemma calls_simps [simp]:
  "calls [] = []" "calls (a # as) = call_of a @ calls as" "calls (as @ bs) = calls as @ calls bs"
  by (simp_all add: calls_def)

lemma call_of_None [simp]: "ti_callback a = None \<Longrightarrow> call_of a = []"
  by (simp add: call_of_def)

lemma call_back_eq: "call_back a m = m\<lparr>fired := fired m @ call_of a\<rparr>"
  by (simp add: call_back_def call_of_def split: option.splits)

lemma call_back_all_eq: "call_back_all as m = m\<lparr>fired := fired m @ calls as\<rparr>"
  by (induction as arbitrary: m) (auto simp: call_back_eq)

lemma reset_loop_eq: "reset_loop es m = m\<lparr>fired := fired m @ concat (map (calls \<circ> snd) es)\<rparr>"
  by (induction es arbitrary: m) (auto simp: call_back_all_eq)

lemma CallbackAlarm_fields:
  "fired (CallbackAlarmIfNeed a m) = fired m @ (if ti_uid a \<in> proxyUids m then [] else call_of a)"
  "queue_of (CallbackAlarmIfNeed a m) uid =
     queue_of m uid @ (if ti_uid a \<in> proxyUids m \<and> ti_uid a = uid then [a] else [])"
  "proxyUids (CallbackAlarmIfNeed a m) = proxyUids m"
  by (auto simp: CallbackAlarmIfNeed_def call_back_eq queue_of_def Let_def split: option.splits)

text \<open>
  Delivery, for any list: the alarms of uids that are not proxied are called in order, those
  of a proxied uid are appended to its queue in order, and nothing else changes.
\<close>

lemma Deliver_spec:
  "fired (DeliverTimersLocked as m) = fired m @ calls (filter (\<lambda>a. ti_uid a \<notin> proxyUids m) as)"
  "queue_of (DeliverTimersLocked as m) uid =
     queue_of m uid @ (if uid \<in> proxyUids m then filter (\<lambda>a. ti_uid a = uid \<and> ti_callback a \<noteq> None) as else [])"
  "proxyUids (DeliverTimersLocked as m) = proxyUids m"
  by (induction as arbitrary: m) (auto simp: CallbackAlarm_fields)

lemma Deliver_frame [simp, frame_simps]:
  "alarmBatches (DeliverTimersLocked as m) = alarmBatches m"
  "timerEntryMap (DeliverTimersLocked as m) = timerEntryMap m"
  "randomPos (DeliverTimersLocked as m) = randomPos m"
  "kernelTimers (DeliverTimersLocked as m) = kernelTimers m"
  "lastTimeChangeClockTime (DeliverTimersLocked as m) = lastTimeChangeClockTime m"
  "lastTimeChangeRealtime (DeliverTimersLocked as m) = lastTimeChangeRealtime m"
  "ticks (DeliverTimersLocked as m) = ticks m"
  by (induction as arbitrary: m)
    (simp_all add: CallbackAlarmIfNeed_def call_back_eq Let_def split: option.splits)

section \<open>Invariant of the proxy\<close>

text \<open>
  Only proxied uids have a queue, a queue is not empty, and it holds alarms of its uid that
  have a callback.
\<close>

definition proxy_inv :: "timer_manager \<Rightarrow> bool" where
  "proxy_inv m \<longleftrightarrow> map_ok (proxyMap m) \<and>
     (\<forall>uid q. map_find (proxyMap m) uid = Some q \<longrightarrow>
        uid \<in> proxyUids m \<and> q \<noteq> [] \<and> (\<forall>a \<in> set q. ti_uid a = uid \<and> ti_callback a \<noteq> None))"

lemma proxy_inv_cong:
  "proxyMap m' = proxyMap m \<Longrightarrow> proxyUids m' = proxyUids m \<Longrightarrow> proxy_inv m' = proxy_inv m"
  by (simp add: proxy_inv_def)

lemma proxy_inv_CallbackAlarm:
  "proxy_inv m \<Longrightarrow> ti_callback a \<noteq> None \<Longrightarrow> proxy_inv (CallbackAlarmIfNeed a m)"
  by (auto simp: proxy_inv_def CallbackAlarmIfNeed_def call_back_eq Let_def map_ok_assign
      split: option.splits if_splits)

lemma proxy_inv_Deliver: "proxy_inv m \<Longrightarrow> proxy_inv (DeliverTimersLocked as m)"
  by (induction as arbitrary: m) (auto simp: proxy_inv_CallbackAlarm)

lemma proxy_inv_RemoveProxy: "proxy_inv m \<Longrightarrow> proxy_inv (RemoveProxy i uid m)"
  by (auto simp: proxy_inv_def RemoveProxy_def Let_def map_ok_erase split: option.splits if_splits)

lemma proxy_inv_ProxyTimer: "proxy_inv m \<Longrightarrow> proxy_inv (fst (ProxyTimer uid p r m))"
  by (auto simp: proxy_inv_def ProxyTimer_def call_back_all_eq Let_def map_ok_erase
      split: option.splits if_splits)

lemma proxy_inv_Reset: "proxy_inv (fst (ResetAllProxy m))"
  by (simp add: proxy_inv_def ResetAllProxy_def)

lemma RemoveProxy_frame [simp, frame_simps]:
  "alarmBatches (RemoveProxy i uid m) = alarmBatches m"
  "timerEntryMap (RemoveProxy i uid m) = timerEntryMap m"
  "fired (RemoveProxy i uid m) = fired m"
  "proxyUids (RemoveProxy i uid m) = proxyUids m"
  "kernelTimers (RemoveProxy i uid m) = kernelTimers m"
  "ticks (RemoveProxy i uid m) = ticks m"
  by (auto simp: RemoveProxy_def Let_def split: option.splits)

lemma ProxyTimer_frame [simp, frame_simps]:
  "alarmBatches (fst (ProxyTimer uid p r m)) = alarmBatches m"
  "timerEntryMap (fst (ProxyTimer uid p r m)) = timerEntryMap m"
  "kernelTimers (fst (ProxyTimer uid p r m)) = kernelTimers m"
  by (auto simp: ProxyTimer_def call_back_all_eq Let_def split: option.splits)

lemma Reset_frame [simp, frame_simps]:
  "alarmBatches (fst (ResetAllProxy m)) = alarmBatches m"
  "timerEntryMap (fst (ResetAllProxy m)) = timerEntryMap m"
  "kernelTimers (fst (ResetAllProxy m)) = kernelTimers m"
  "proxyUids (fst (ResetAllProxy m)) = {}"
  "proxyMap (fst (ResetAllProxy m)) = []"
  by (auto simp: ResetAllProxy_def reset_loop_eq)

lemma queue_of_unproxied: "proxy_inv m \<Longrightarrow> uid \<notin> proxyUids m \<Longrightarrow> queue_of m uid = []"
  by (cases "map_find (proxyMap m) uid") (auto simp: proxy_inv_def queue_of_def)

text \<open>Ending a proxy with \<open>needRetrigger\<close> calls the whole queue, in order, and empties it.\<close>

lemma ProxyTimer_end:
  assumes "uid \<in> proxyUids m"
  shows "fired (fst (ProxyTimer uid False True m)) = fired m @ calls (queue_of m uid)"
    and "queue_of (fst (ProxyTimer uid False True m)) uid = []"
    and "proxyUids (fst (ProxyTimer uid False True m)) = proxyUids m - {uid}"
    and "snd (ProxyTimer uid False True m)"
  using assms by (auto simp: ProxyTimer_def call_back_all_eq queue_of_def Let_def split: option.splits)

lemma mset_calls: "mset (calls as) = (\<Sum>a \<in># mset as. mset (call_of a))"
  by (induction as) auto

lemma mset_calls_split:
  "mset (calls (filter P as)) + mset (calls (filter (\<lambda>a. \<not> P a) as)) = mset (calls as)"
  by (induction as) auto

lemma calls_filter_callback: "calls (filter (\<lambda>a. P a \<and> ti_callback a \<noteq> None) as) = calls (filter P as)"
  by (induction as) auto

end
