(* ===== verification/Timer_Manager.thy ===== *)
theory Timer_Manager
  imports Timer_Proxy
begin

text \<open>
  Scheduling, removal and re-batching (\<open>timer_manager.cpp\<close>): \<open>SetHandler\<close>,
  \<open>SetHandlerLocked\<close>, \<open>RemoveHandler\<close>, \<open>RemoveLocked\<close>, \<open>ReAddTimerLocked\<close>,
  \<open>ReBatchAllTimers\<close>, \<open>ReBatchAllTimersLocked\<close>. Every read of a clock, and every question whether a uid is a system application, advances \<open>ticks\<close>.
\<close>

section \<open>Scheduling\<close>

definition SetHandlerLocked_alarm :: "world \<Rightarrow> timer_info \<Rightarrow> bool \<Rightarrow> bool \<Rightarrow> timer_manager \<Rightarrow> timer_manager" where
  "SetHandlerLocked_alarm w alarm rebatching doValidate m =
     (let m1 = InsertAndBatchTimerLocked alarm m
      in if \<not> rebatching then RescheduleKernelTimerLocked w m1 else m1)"

text \<open>The uid arrives as an unsigned 64-bit number and is narrowed to \<open>int\<close> by the constructor.\<close>

definition SetHandlerLocked ::
  "world \<Rightarrow> u64 \<Rightarrow> i32 \<Rightarrow> int \<Rightarrow> int \<Rightarrow> int \<Rightarrow> int \<Rightarrow> int \<Rightarrow> timer_callback option \<Rightarrow> u32 \<Rightarrow> bool \<Rightarrow> u64
   \<Rightarrow> timer_manager \<Rightarrow> timer_manager" where
  "SetHandlerLocked w timerId type when whenElapsed windowLength maxWhen interval callback flags doValidate callingUid m =
     (let alarm = TimerInfo timerId type when whenElapsed windowLength maxWhen interval callback flags
                    (sint (ucast callingUid :: i32))
      in SetHandlerLocked_alarm w alarm False doValidate m)"

text \<open>The window and the interval as \<open>SetHandler\<close> corrects them, in milliseconds.\<close>

definition window_duration :: "u64 \<Rightarrow> int" where
  "window_duration windowLength =
     (let d = sint windowLength in if d > INTERVAL_HALF_DAY then INTERVAL_HOUR else d)"

definition interval_duration :: "bool \<Rightarrow> u64 \<Rightarrow> int" where
  "interval_duration isSystem interval =
     (let minInterval = (if isSystem then MIN_INTERVAL_ONE_SECONDS else MIN_INTERVAL_FIVE_SECONDS);
          d = sint interval
      in if d > 0 \<and> d < minInterval then minInterval
         else if d > MAX_INTERVAL then MAX_INTERVAL else d)"

text \<open>
  The times of the alarm, computed before the mutex is taken: when it is due, its window, the end
  of the window, its interval. None when the time has passed. \<open>t\<close> numbers the first of five reads.
\<close>

definition set_handler_times :: "world \<Rightarrow> nat \<Rightarrow> i32 \<Rightarrow> u64 \<Rightarrow> u64 \<Rightarrow> u64 \<Rightarrow> int \<Rightarrow> (int \<times> int \<times> int \<times> int) option" where
  "set_handler_times w t type triggerAtTime windowLength interval uid =
     (let windowLengthDuration = window_duration windowLength;
          intervalDuration = interval_duration (IsSystemUid w t uid) interval;
          nowElapsed = GetBootTimeNs w (t + 1);
          nominalTrigger = ConvertToElapsed w (t + 2) (sint triggerAtTime) type
      in if nominalTrigger < nowElapsed then None
         else let minTrigger = (if IsSystemUid w (t + 4) uid then nowElapsed + ZERO_FUTURITY
                                else nowElapsed + MIN_FUTURITY);
                  triggerElapsed = (if nominalTrigger > minTrigger then nominalTrigger else minTrigger);
                  (maxElapsed, windowLengthDuration) =
                    (if windowLengthDuration = 0 then (triggerElapsed, windowLengthDuration)
                     else if windowLengthDuration < 0
                     then let maxElapsed = MaxTriggerTime nominalTrigger triggerElapsed intervalDuration
                          in (maxElapsed, duration_cast_ms (maxElapsed - triggerElapsed))
                     else (triggerElapsed + ms_to_ns windowLengthDuration, windowLengthDuration))
              in Some (triggerElapsed, windowLengthDuration, maxElapsed, intervalDuration))"

definition SetHandler ::
  "world \<Rightarrow> u64 \<Rightarrow> i32 \<Rightarrow> u64 \<Rightarrow> u64 \<Rightarrow> u64 \<Rightarrow> i32 \<Rightarrow> timer_callback option \<Rightarrow> int \<Rightarrow> timer_manager \<Rightarrow> timer_manager" where
  "SetHandler w timerId type triggerAtTime windowLength interval flag callback uid m =
     (let m1 = m\<lparr>ticks := ticks m + 5\<rparr> in
      case set_handler_times w (ticks m) type triggerAtTime windowLength interval uid of
        None \<Rightarrow> m1
      | Some (triggerElapsed, windowLengthDuration, maxElapsed, intervalDuration) \<Rightarrow>
          SetHandlerLocked w timerId type (sint triggerAtTime) triggerElapsed windowLengthDuration
            maxElapsed intervalDuration callback flag True (word_of_int uid) m1)"

section \<open>Re-batching and removal\<close>

definition ReAddTimerLocked :: "world \<Rightarrow> int \<Rightarrow> bool \<Rightarrow> timer_info \<Rightarrow> timer_manager \<Rightarrow> timer_manager" where
  "ReAddTimerLocked w nowElapsed doValidate timer m =
     (let t = ticks m; m1 = m\<lparr>ticks := t + 2\<rparr>;
          timer = timer\<lparr>ti_when := ti_origWhen timer\<rparr>;
          whenElapsed = ConvertToElapsed w t (ti_when timer) (ti_type timer)
      in if whenElapsed < nowElapsed then m1
         else let maxElapsed =
                    (if ti_windowLength timer = 0 then whenElapsed
                     else if ti_windowLength timer > 0 then whenElapsed + ms_to_ns (ti_windowLength timer)
                     else MaxTriggerTime nowElapsed whenElapsed (ti_repeatInterval timer));
                  timer = timer\<lparr>ti_whenElapsed := whenElapsed, ti_maxWhenElapsed := maxElapsed\<rparr>
              in SetHandlerLocked_alarm w timer True doValidate m1)"

definition ReBatchAllTimersLocked :: "world \<Rightarrow> bool \<Rightarrow> timer_manager \<Rightarrow> timer_manager" where
  "ReBatchAllTimersLocked w doValidate m =
     (let oldSet = alarmBatches m; t = ticks m;
          m1 = m\<lparr>alarmBatches := [], ticks := Suc t\<rparr>;
          nowElapsed = GetBootTimeNs w t;
          m2 = fold (\<lambda>batch. fold (ReAddTimerLocked w nowElapsed doValidate) (b_alarms batch)) oldSet m1
      in RescheduleKernelTimerLocked w m2)"

definition ReBatchAllTimers :: "world \<Rightarrow> timer_manager \<Rightarrow> timer_manager" where
  "ReBatchAllTimers w = ReBatchAllTimersLocked w True"

text \<open>
  The loop of \<open>RemoveLocked\<close>: \<open>didRemove\<close> is overwritten at every batch, so at the end it
  tells about the last one.
\<close>

fun remove_batches :: "(timer_info \<Rightarrow> bool) \<Rightarrow> batch list \<Rightarrow> bool \<Rightarrow> batch list \<times> bool" where
  "remove_batches whichAlarms [] didRemove = ([], didRemove)"
| "remove_batches whichAlarms (batch # rest) didRemove =
     (let (batch', didRemove') = Remove_if whichAlarms batch;
          (rest', didRemove'') = remove_batches whichAlarms rest didRemove'
      in (if Size batch' = 0 then rest' else batch' # rest', didRemove''))"

definition RemoveLocked :: "world \<Rightarrow> u64 \<Rightarrow> timer_manager \<Rightarrow> timer_manager" where
  "RemoveLocked w timerId m =
     (let (bs, didRemove) = remove_batches (\<lambda>timer. ti_id timer = timerId) (alarmBatches m) False;
          m1 = m\<lparr>alarmBatches := bs\<rparr>
      in if didRemove then ReBatchAllTimersLocked w True m1 else m1)"

definition RemoveHandler :: "world \<Rightarrow> u64 \<Rightarrow> timer_manager \<Rightarrow> timer_manager" where
  "RemoveHandler w timerId = RemoveLocked w timerId"

section \<open>Frames\<close>

lemmas manager_defs = SetHandlerLocked_alarm_def SetHandlerLocked_def ReAddTimerLocked_def

text \<open>The fields that scheduling, re-batching and removal leave alone.\<close>

definition same_registry :: "timer_manager \<Rightarrow> timer_manager \<Rightarrow> bool" where
  "same_registry m m' \<longleftrightarrow>
     timerEntryMap m' = timerEntryMap m \<and> randomPos m' = randomPos m \<and>
     lastTimeChangeClockTime m' = lastTimeChangeClockTime m \<and>
     lastTimeChangeRealtime m' = lastTimeChangeRealtime m \<and>
     proxyUids m' = proxyUids m \<and> proxyMap m' = proxyMap m \<and> fired m' = fired m"

lemma same_registry_refl [simp]: "same_registry m m"
  by (simp add: same_registry_def)

lemma same_registry_trans: "same_registry m m' \<Longrightarrow> same_registry m' m'' \<Longrightarrow> same_registry m m''"
  by (simp add: same_registry_def)

lemma SetHandlerLocked_alarm_frame: "same_registry m (SetHandlerLocked_alarm w a r d m)"
  by (simp add: SetHandlerLocked_alarm_def same_registry_def Let_def)

lemma SetHandlerLocked_alarm_batches [simp]:
  "alarmBatches (SetHandlerLocked_alarm w a r d m) = insert_and_batch a (alarmBatches m)"
  by (simp add: SetHandlerLocked_alarm_def Let_def)

lemma SetHandlerLocked_frame: "same_registry m (SetHandlerLocked w i t wh we wl mx iv cb fl dv u m)"
  by (simp add: SetHandlerLocked_def SetHandlerLocked_alarm_frame Let_def)

lemma SetHandlerLocked_batches [simp]:
  "alarmBatches (SetHandlerLocked w i t wh we wl mx iv cb fl dv u m) =
    insert_and_batch (TimerInfo i t wh we wl mx iv cb fl (sint (ucast u :: i32))) (alarmBatches m)"
  by (simp add: SetHandlerLocked_def Let_def)

lemma SetHandler_frame: "same_registry m (SetHandler w i t at wl iv fl cb u m)"
proof -
  have "same_registry m (m\<lparr>ticks := n\<rparr>)" for n by (simp add: same_registry_def)
  then show ?thesis
    by (auto simp: SetHandler_def Let_def split: prod.splits option.splits
        intro: same_registry_trans [OF _ SetHandlerLocked_frame])
qed

text \<open>The uid that goes through the unsigned parameter is the uid again.\<close>

lemma uid_narrow: "in_i32 uid \<Longrightarrow> sint (ucast (word_of_int uid :: u64) :: i32) = uid"
proof -
  have "(ucast (word_of_int uid :: u64) :: i32) = word_of_int uid"
    by (rule bit_word_eqI) (simp add: bit_ucast_iff bit_word_of_int_iff)
  then show "in_i32 uid \<Longrightarrow> ?thesis" by simp
qed

section \<open>What is scheduled\<close>

lemma window_duration_le: "window_duration wl \<le> INTERVAL_HALF_DAY"
  by (simp add: window_duration_def Let_def timer_constants)

lemma interval_duration_le: "interval_duration s iv \<le> MAX_INTERVAL"
  by (auto simp: interval_duration_def Let_def timer_constants)

lemma interval_duration_ge:
  "0 < interval_duration s iv \<Longrightarrow>
    (if s then MIN_INTERVAL_ONE_SECONDS else MIN_INTERVAL_FIVE_SECONDS) \<le> interval_duration s iv"
  by (auto simp: interval_duration_def Let_def timer_constants split: if_splits)

lemma interval_duration_zero_or_ge:
  "interval_duration s iv \<le> 0 \<or> (if s then 1000 else 5000) \<le> interval_duration s iv"
  by (auto simp: interval_duration_def Let_def timer_constants split: if_splits)

lemma interval_duration_pos_iff: "0 < interval_duration s iv \<longleftrightarrow> 0 < sint iv"
  by (auto simp: interval_duration_def Let_def timer_constants)

text \<open>The alarm that a request for a timer stands for.\<close>

definition request_of :: "u64 \<Rightarrow> i32 \<Rightarrow> u64 \<Rightarrow> i32 \<Rightarrow> timer_callback option \<Rightarrow> timer_info \<Rightarrow> bool" where
  "request_of timerId type triggerAtTime flag callback a \<longleftrightarrow>
     ti_id a = timerId \<and> ti_type a = type \<and> ti_when a = sint triggerAtTime \<and>
     ti_origWhen a = sint triggerAtTime \<and> ti_flags a = flag \<and> ti_callback a = callback"

lemma SetHandler_rejects:
  "ConvertToElapsed w (ticks m + 2) (sint at) type < GetBootTimeNs w (ticks m + 1) \<Longrightarrow>
    SetHandler w timerId type at wl iv fl cb u m = m\<lparr>ticks := ticks m + 5\<rparr>"
  by (simp add: SetHandler_def set_handler_times_def Let_def)

lemma SetHandler_deadline:
  fixes w m
  defines "now \<equiv> GetBootTimeNs w (ticks m + 1)"
  assumes "now \<le> ConvertToElapsed w (ticks m + 2) (sint at) type"
  obtains a where
    "alarmBatches (SetHandler w timerId type at wl iv fl cb u m) = insert_and_batch a (alarmBatches m)"
    "request_of timerId type at fl cb a"
    "ti_uid a = sint (ucast (word_of_int u :: u64) :: i32)"
    "ti_whenElapsed a = max (ConvertToElapsed w (ticks m + 2) (sint at) type)
       (now + (if IsSystemUid w (ticks m + 4) u then 0 else 5000000000))"
    "ti_whenElapsed a \<le> ti_maxWhenElapsed a" "ti_expectedWhenElapsed a = ti_whenElapsed a"
    "ti_repeatInterval a = interval_duration (IsSystemUid w (ticks m) u) iv"
    "ti_maxWhenElapsed a = (if window_duration wl < 0
       then MaxTriggerTime (ConvertToElapsed w (ticks m + 2) (sint at) type) (ti_whenElapsed a) (ti_repeatInterval a)
       else ti_whenElapsed a + ms_to_ns (window_duration wl))"
proof -
  let ?nom = "ConvertToElapsed w (ticks m + 2) (sint at) type"
  let ?win = "window_duration wl" and ?iv = "interval_duration (IsSystemUid w (ticks m) u) iv"
  define trig where "trig = max ?nom (now + (if IsSystemUid w (ticks m + 4) u then 0 else 5000000000))"
  define mx where "mx = (if ?win < 0 then MaxTriggerTime ?nom trig ?iv else trig + ms_to_ns ?win)"
  define win where "win = (if ?win < 0 then duration_cast_ms (mx - trig) else ?win)"
  define a where "a = TimerInfo timerId type (sint at) trig win mx ?iv cb fl (sint (ucast (word_of_int u :: u64) :: i32))"
  have "SetHandler w timerId type at wl iv fl cb u m =
      SetHandlerLocked w timerId type (sint at) trig win mx ?iv cb fl True (word_of_int u) (m\<lparr>ticks := ticks m + 5\<rparr>)"
    using assms(2)
    by (auto simp: SetHandler_def set_handler_times_def Let_def trig_def mx_def win_def now_def timer_constants ms_to_ns_def max_def)
  then have "alarmBatches (SetHandler w timerId type at wl iv fl cb u m) = insert_and_batch a (alarmBatches m)"
    by (simp add: a_def)
  moreover have "trig \<le> mx" by (simp add: mx_def MaxTriggerTime_ge)
  ultimately show ?thesis
    by (intro that [of a]) (auto simp: a_def request_of_def trig_def mx_def)
qed

lemma SetHandler_accepts:
  fixes w m
  defines "now \<equiv> GetBootTimeNs w (ticks m + 1)"
  assumes "now \<le> ConvertToElapsed w (ticks m + 2) (sint at) type"
  obtains a where
    "alarmBatches (SetHandler w timerId type at wl iv fl cb u m) = insert_and_batch a (alarmBatches m)"
    "request_of timerId type at fl cb a"
    "ti_uid a = sint (ucast (word_of_int u :: u64) :: i32)"
    "ti_whenElapsed a = max (ConvertToElapsed w (ticks m + 2) (sint at) type)
       (now + (if IsSystemUid w (ticks m + 4) u then 0 else 5000000000))"
    "ti_whenElapsed a \<le> ti_maxWhenElapsed a" "ti_expectedWhenElapsed a = ti_whenElapsed a"
    "ti_repeatInterval a = interval_duration (IsSystemUid w (ticks m) u) iv"
    "0 \<le> window_duration wl \<longrightarrow> ti_maxWhenElapsed a = ti_whenElapsed a + ms_to_ns (window_duration wl)"
  by (rule SetHandler_deadline [OF assms(2) [unfolded assms(1)], of timerId wl iv fl cb u], rule that)
    (assumption | simp add: assms(1))+

lemma SetHandler_batches:
  "alarmBatches (SetHandler w i t at wl iv fl cb u m) = alarmBatches m \<or>
   (\<exists>a. request_of i t at fl cb a \<and> ti_uid a = sint (ucast (word_of_int u :: u64) :: i32) \<and>
        ti_whenElapsed a \<le> ti_maxWhenElapsed a \<and>
        alarmBatches (SetHandler w i t at wl iv fl cb u m) = insert_and_batch a (alarmBatches m))"
proof (cases "ConvertToElapsed w (ticks m + 2) (sint at) t < GetBootTimeNs w (ticks m + 1)")
  case False
  then show ?thesis
    unfolding not_less
    by (rule SetHandler_accepts [of w m at t i wl iv fl cb u]) blast
qed (auto simp: SetHandler_rejects)

lemma SetHandler_batches_inv:
  "batches_inv (alarmBatches m) \<Longrightarrow> batches_inv (alarmBatches (SetHandler w i t at wl iv fl cb u m))"
  using SetHandler_batches [of w i t at wl iv fl cb u m] by (auto simp: batches_inv_insert)

section \<open>Re-batching\<close>

text \<open>The same timer after its times have been computed anew.\<close>

definition readded :: "timer_info \<Rightarrow> timer_info \<Rightarrow> bool" where
  "readded a a' \<longleftrightarrow>
     (\<exists>x y. a' = a\<lparr>ti_when := ti_origWhen a, ti_whenElapsed := x, ti_maxWhenElapsed := y\<rparr> \<and>
        (ti_type a \<noteq> RTC \<and> ti_type a \<noteq> RTC_WAKEUP \<longrightarrow> x = ms_to_ns (ti_origWhen a)) \<and>
        x \<le> y)"

lemma readded_id: "readded a a' \<Longrightarrow> ti_id a' = ti_id a"
  by (auto simp: readded_def)

lemma ReAdd_drops:
  "ConvertToElapsed w (ticks m) (ti_origWhen a) (ti_type a) < now \<Longrightarrow>
    ReAddTimerLocked w now dv a m = m\<lparr>ticks := ticks m + 2\<rparr>"
  by (simp add: ReAddTimerLocked_def Let_def)

lemma ReAdd_keeps:
  assumes "now \<le> ConvertToElapsed w (ticks m) (ti_origWhen a) (ti_type a)"
  obtains a' where
    "alarmBatches (ReAddTimerLocked w now dv a m) = insert_and_batch a' (alarmBatches m)"
    "ticks (ReAddTimerLocked w now dv a m) = ticks m + 2"
    "readded a a'" "now \<le> ti_whenElapsed a'"
    "ti_whenElapsed a' = ConvertToElapsed w (ticks m) (ti_origWhen a) (ti_type a)"
proof -
  let ?x = "ConvertToElapsed w (ticks m) (ti_origWhen a) (ti_type a)"
  define y where "y = (if ti_windowLength a = 0 then ?x
      else if ti_windowLength a > 0 then ?x + ms_to_ns (ti_windowLength a)
      else MaxTriggerTime now ?x (ti_repeatInterval a))"
  define a' where "a' = a\<lparr>ti_when := ti_origWhen a, ti_whenElapsed := ?x, ti_maxWhenElapsed := y\<rparr>"
  have eq: "ReAddTimerLocked w now dv a m =
      SetHandlerLocked_alarm w a' True dv (m\<lparr>ticks := ticks m + 2\<rparr>)"
    using assms by (simp add: ReAddTimerLocked_def a'_def y_def Let_def)
  have "?x \<le> y" by (simp add: y_def MaxTriggerTime_ge)
  then have "readded a a'"
    unfolding readded_def a'_def by (intro exI [of _ ?x] exI [of _ y]) (simp add: ConvertToElapsed_elapsed)
  then show ?thesis
    using assms by (intro that [of a']) (simp_all add: eq a'_def SetHandlerLocked_alarm_def Let_def)
qed

lemma ReAdd_frame: "same_registry m (ReAddTimerLocked w now dv a m)"
  by (auto simp: ReAddTimerLocked_def SetHandlerLocked_alarm_def same_registry_def Let_def)

lemma fold_nested: "fold (\<lambda>b. fold f (g b)) bs x = fold f (concat (map g bs)) x"
  by (induction bs arbitrary: x) auto

lemma ReBatch_eq:
  "ReBatchAllTimersLocked w dv m = RescheduleKernelTimerLocked w
     (fold (ReAddTimerLocked w (GetBootTimeNs w (ticks m)) dv) (concat (map b_alarms (alarmBatches m)))
       (m\<lparr>alarmBatches := [], ticks := Suc (ticks m)\<rparr>))"
  by (simp add: ReBatchAllTimersLocked_def Let_def fold_nested)

lemma mset_concat_alarms: "mset (concat (map b_alarms bs)) = scheduled_in bs"
  by (induction bs) auto

lemma fold_ReAdd_frame: "same_registry m (fold (ReAddTimerLocked w now dv) as m)"
  by (induction as arbitrary: m) (auto intro: same_registry_trans [OF ReAdd_frame])

lemma fold_ReAdd_inv:
  "batches_inv (alarmBatches m) \<Longrightarrow> batches_inv (alarmBatches (fold (ReAddTimerLocked w now dv) as m))"
proof (induction as arbitrary: m)
  case (Cons a as)
  have "batches_inv (alarmBatches (ReAddTimerLocked w now dv a m))"
  proof (cases "ConvertToElapsed w (ticks m) (ti_origWhen a) (ti_type a) < now")
    case False
    then show ?thesis
      unfolding not_less using Cons.prems by (auto intro: ReAdd_keeps [of now w m a dv] simp: batches_inv_insert)
  qed (simp add: ReAdd_drops Cons.prems)
  with Cons.IH show ?case by simp
qed simp

lemma scheduled_ReAdd:
  "scheduled (ReAddTimerLocked w now dv a m) = scheduled m \<or>
   (\<exists>a'. readded a a' \<and> now \<le> ti_whenElapsed a' \<and>
         scheduled (ReAddTimerLocked w now dv a m) = add_mset a' (scheduled m))"
proof (cases "ConvertToElapsed w (ticks m) (ti_origWhen a) (ti_type a) < now")
  case False
  then show ?thesis
    unfolding not_less
    by (rule ReAdd_keeps [of now w m a dv]) (auto simp: scheduled_def scheduled_in_insert)
qed (simp add: ReAdd_drops scheduled_def)

lemma scheduled_fold_ReAdd:
  "a' \<in># scheduled (fold (ReAddTimerLocked w now dv) as m) \<Longrightarrow>
    a' \<in># scheduled m \<or> (\<exists>a \<in> set as. readded a a' \<and> now \<le> ti_whenElapsed a')"
proof (induction as arbitrary: m)
  case (Cons a as)
  from Cons.IH [of "ReAddTimerLocked w now dv a m"] Cons.prems scheduled_ReAdd [of w now dv a m]
  show ?case by auto
qed simp

text \<open>Nothing is lost when no timer's time has passed.\<close>

lemma ids_fold_ReAdd:
  assumes "\<forall>a \<in> set as. \<forall>t. now \<le> ConvertToElapsed w t (ti_origWhen a) (ti_type a)"
  shows "image_mset ti_id (scheduled (fold (ReAddTimerLocked w now dv) as m)) =
    image_mset ti_id (scheduled m) + image_mset ti_id (mset as)"
  using assms
proof (induction as arbitrary: m)
  case (Cons a as)
  from Cons.prems have "now \<le> ConvertToElapsed w (ticks m) (ti_origWhen a) (ti_type a)" by simp
  then have "image_mset ti_id (scheduled (ReAddTimerLocked w now dv a m)) =
      add_mset (ti_id a) (image_mset ti_id (scheduled m))"
    by (rule ReAdd_keeps [of now w m a dv]) (auto simp: scheduled_def scheduled_in_insert readded_id)
  with Cons show ?case by simp
qed simp

lemma same_registry_Reschedule: "same_registry m (RescheduleKernelTimerLocked w m)"
  by (simp add: same_registry_def)

lemma scheduled_Reschedule [simp]: "scheduled (RescheduleKernelTimerLocked w m) = scheduled m"
  by (simp add: scheduled_def)

lemma scheduled_clear [simp]: "scheduled (m\<lparr>alarmBatches := bs, ticks := n\<rparr>) = scheduled_in bs"
  "scheduled (m\<lparr>alarmBatches := bs\<rparr>) = scheduled_in bs"
  by (simp_all add: scheduled_def)

lemma ReBatch_frame: "same_registry m (ReBatchAllTimersLocked w dv m)"
proof -
  have "same_registry m (m\<lparr>alarmBatches := [], ticks := Suc (ticks m)\<rparr>)"
    by (simp add: same_registry_def)
  then show ?thesis
    unfolding ReBatch_eq by (blast intro: same_registry_trans fold_ReAdd_frame same_registry_Reschedule)
qed

text \<open>Whatever the list was before, after re-batching it satisfies the invariant.\<close>

lemma ReBatch_inv: "batches_inv (alarmBatches (ReBatchAllTimersLocked w dv m))"
  unfolding ReBatch_eq by (simp, rule fold_ReAdd_inv) (simp add: batches_inv_def)

lemma ReBatch_scheduled:
  "a' \<in># scheduled (ReBatchAllTimersLocked w dv m) \<Longrightarrow>
    \<exists>a \<in># scheduled m. readded a a' \<and> GetBootTimeNs w (ticks m) \<le> ti_whenElapsed a'"
proof -
  assume "a' \<in># scheduled (ReBatchAllTimersLocked w dv m)"
  then have "\<exists>a \<in> set (concat (map b_alarms (alarmBatches m))).
      readded a a' \<and> GetBootTimeNs w (ticks m) \<le> ti_whenElapsed a'"
    unfolding ReBatch_eq scheduled_Reschedule using scheduled_fold_ReAdd by fastforce
  then show ?thesis unfolding scheduled_def set_scheduled_in by (simp only: set_concat set_map) blast
qed

lemma ReBatch_ids:
  assumes "\<forall>a \<in># scheduled m. \<forall>t. GetBootTimeNs w (ticks m) \<le> ConvertToElapsed w t (ti_origWhen a) (ti_type a)"
  shows "image_mset ti_id (scheduled (ReBatchAllTimersLocked w dv m)) = image_mset ti_id (scheduled m)"
proof -
  have "image_mset ti_id (scheduled (ReBatchAllTimersLocked w dv m)) =
      {#} + image_mset ti_id (mset (concat (map b_alarms (alarmBatches m))))"
    unfolding ReBatch_eq scheduled_Reschedule using assms
    by (subst ids_fold_ReAdd) (auto simp: scheduled_def set_scheduled_in)
  then show ?thesis by (simp only: mset_concat_alarms scheduled_def) simp
qed

text \<open>For boot-time alarms: exactly those whose nominal time has passed are lost.\<close>

lemma fold_ReAdd_elapsed:
  assumes "\<forall>a \<in> set as. ti_type a \<noteq> RTC \<and> ti_type a \<noteq> RTC_WAKEUP"
  shows "image_mset ti_id (scheduled (fold (ReAddTimerLocked w now dv) as m)) =
    image_mset ti_id (scheduled m) + image_mset ti_id {#a \<in># mset as. now \<le> ms_to_ns (ti_origWhen a)#}"
  using assms
proof (induction as arbitrary: m)
  case (Cons a as)
  from Cons.prems have c: "ConvertToElapsed w (ticks m) (ti_origWhen a) (ti_type a) = ms_to_ns (ti_origWhen a)"
    by (simp add: ConvertToElapsed_elapsed)
  have "image_mset ti_id (scheduled (ReAddTimerLocked w now dv a m)) =
      (if now \<le> ms_to_ns (ti_origWhen a) then add_mset (ti_id a) (image_mset ti_id (scheduled m))
       else image_mset ti_id (scheduled m))"
  proof (cases "now \<le> ms_to_ns (ti_origWhen a)")
    case True
    then have "now \<le> ConvertToElapsed w (ticks m) (ti_origWhen a) (ti_type a)" by (simp add: c)
    then show ?thesis
      by (rule ReAdd_keeps [of now w m a dv]) (auto simp: True scheduled_def scheduled_in_insert readded_id)
  qed (simp add: ReAdd_drops c scheduled_def)
  with Cons show ?case by simp
qed simp

lemma ReBatch_elapsed:
  assumes "\<forall>a \<in># scheduled m. ti_type a \<noteq> RTC \<and> ti_type a \<noteq> RTC_WAKEUP"
  shows "image_mset ti_id (scheduled (ReBatchAllTimersLocked w dv m)) =
    image_mset ti_id {#a \<in># scheduled m. GetBootTimeNs w (ticks m) \<le> ms_to_ns (ti_origWhen a)#}"
proof -
  have as: "mset (concat (map b_alarms (alarmBatches m))) = scheduled m"
    by (simp add: mset_concat_alarms scheduled_def)
  then have "set (concat (map b_alarms (alarmBatches m))) = set_mset (scheduled m)" by (metis set_mset_mset)
  with assms have "\<forall>a \<in> set (concat (map b_alarms (alarmBatches m))). ti_type a \<noteq> RTC \<and> ti_type a \<noteq> RTC_WAKEUP" by simp
  from fold_ReAdd_elapsed [OF this] show ?thesis by (simp add: ReBatch_eq as scheduled_in_def)
qed

section \<open>Removal\<close>

lemma remove_batches_fst:
  "fst (remove_batches p bs d) = filter (\<lambda>b. b_alarms b \<noteq> []) (map (\<lambda>b. fst (Remove_if p b)) bs)"
  by (induction bs arbitrary: d) (simp_all add: Let_def case_prod_beta Size_def)

lemma remove_batches_snd:
  "snd (remove_batches p bs d) = (if bs = [] then d else list_ex p (b_alarms (last bs)))"
  by (induction bs arbitrary: d) (simp_all add: Let_def case_prod_beta)

lemma scheduled_in_remove:
  "scheduled_in (fst (remove_batches p bs d)) = filter_mset (\<lambda>a. \<not> p a) (scheduled_in bs)"
proof -
  have "scheduled_in (filter (\<lambda>b. b_alarms b \<noteq> []) cs) = scheduled_in cs" for cs
    by (induction cs) auto
  then have "scheduled_in (fst (remove_batches p bs d)) = scheduled_in (map (\<lambda>b. fst (Remove_if p b)) bs)"
    by (simp add: remove_batches_fst)
  also have "\<dots> = filter_mset (\<lambda>a. \<not> p a) (scheduled_in bs)"
    by (induction bs) (simp_all add: mset_filter)
  finally show ?thesis .
qed

lemma remove_batches_inv:
  "\<forall>b \<in> set bs. batch_inv b \<Longrightarrow> \<forall>b \<in> set (fst (remove_batches p bs d)). batch_inv b"
  by (auto simp: remove_batches_fst batch_inv_Remove_if)

text \<open>The list after the loop of \<open>RemoveLocked\<close>.\<close>

definition without :: "u64 \<Rightarrow> batch list \<Rightarrow> batch list" where
  "without timerId bs = fst (remove_batches (\<lambda>a. ti_id a = timerId) bs False)"

lemma RemoveLocked_eq:
  "RemoveLocked w timerId m =
    (if alarmBatches m \<noteq> [] \<and> (\<exists>a \<in> set (b_alarms (last (alarmBatches m))). ti_id a = timerId)
     then ReBatchAllTimersLocked w True (m\<lparr>alarmBatches := without timerId (alarmBatches m)\<rparr>)
     else m\<lparr>alarmBatches := without timerId (alarmBatches m)\<rparr>)"
  using remove_batches_snd [of "\<lambda>a. ti_id a = timerId" "alarmBatches m" False]
  by (auto simp: RemoveLocked_def without_def Let_def list_ex_iff split: prod.splits if_splits)

lemma Remove_frame: "same_registry m (RemoveHandler w timerId m)"
proof -
  have "same_registry m (m\<lparr>alarmBatches := bs\<rparr>)" for bs by (simp add: same_registry_def)
  then show ?thesis
    by (auto simp: RemoveHandler_def RemoveLocked_eq intro: same_registry_trans [OF _ ReBatch_frame])
qed

lemma scheduled_without:
  "scheduled_in (without timerId bs) = filter_mset (\<lambda>a. ti_id a \<noteq> timerId) (scheduled_in bs)"
  by (simp add: without_def scheduled_in_remove)

text \<open>After a removal no alarm of the timer is scheduled.\<close>

lemma Remove_none: "a \<in># scheduled (RemoveHandler w timerId m) \<Longrightarrow> ti_id a \<noteq> timerId"
  by (auto simp: RemoveHandler_def RemoveLocked_eq scheduled_without readded_id
      dest!: ReBatch_scheduled split: if_splits)

lemma Remove_scheduled:
  "a' \<in># scheduled (RemoveHandler w timerId m) \<Longrightarrow> \<exists>a \<in># scheduled m. a' = a \<or> readded a a'"
  by (auto simp: RemoveHandler_def RemoveLocked_eq scheduled_without scheduled_def [of m]
      dest!: ReBatch_scheduled split: if_splits)

lemma Remove_batch_inv:
  "\<forall>b \<in> set (alarmBatches m). batch_inv b \<Longrightarrow> \<forall>b \<in> set (alarmBatches (RemoveHandler w timerId m)). batch_inv b"
  using ReBatch_inv [of w True "m\<lparr>alarmBatches := without timerId (alarmBatches m)\<rparr>"]
  by (auto simp: RemoveHandler_def RemoveLocked_eq batches_inv_def without_def
      dest: remove_batches_inv)

end
