(* ===== verification/Timer_Trigger.thy ===== *)
theory Timer_Trigger
  imports Timer_Manager
begin

text \<open>
  \<open>TriggerTimersLocked\<close> (\<open>timer_manager.cpp\<close>): the batches whose start has come are taken
  off the list, their alarms collected, and the repeating ones scheduled again. The loop has
  no bound in the code; \<open>trigger_fuel\<close> bounds its rounds and \<open>Trigger_terminates\<close> shows
  that it is enough for times within 18 years of boot.
\<close>

section \<open>Triggering\<close>

text \<open>
  The body of the loop over a batch. \<open>count\<close> is unsigned, so \<open>delta\<close> is an unsigned number
  of milliseconds, \<open>whenElapsed + delta\<close> an unsigned number of nanoseconds, and both are
  converted back to signed when they are passed on.
\<close>

definition trigger_count :: "int \<Rightarrow> timer_info \<Rightarrow> u64" where
  "trigger_count nowElapsed alarm =
     (if ti_repeatInterval alarm > 0
      then 1 + word_of_int (duration_cast_ms (nowElapsed - ti_expectedWhenElapsed alarm) sdiv ti_repeatInterval alarm)
      else 1)"

definition trigger_alarm ::
  "world \<Rightarrow> int \<Rightarrow> timer_info \<Rightarrow> timer_info list \<times> bool \<times> timer_manager \<Rightarrow> timer_info list \<times> bool \<times> timer_manager" where
  "trigger_alarm w nowElapsed alarm0 = (\<lambda>(triggerList, hasWakeup, m).
     let alarm = alarm0\<lparr>ti_count := trigger_count nowElapsed alarm0\<rparr>;
         m1 = (if ti_repeatInterval alarm > 0
               then let delta = ti_count alarm * word_of_int (ti_repeatInterval alarm);
                        nextElapsed = sint (word_of_int (ti_whenElapsed alarm) + delta * 1000000 :: u64)
                    in SetHandlerLocked w (ti_id alarm) (ti_type alarm)
                         (sint (word_of_int (ti_when alarm) + delta :: u64)) nextElapsed (ti_windowLength alarm)
                         (MaxTriggerTime nowElapsed nextElapsed (ti_repeatInterval alarm)) (ti_repeatInterval alarm)
                         (ti_callback alarm) (ti_flags alarm) True (word_of_int (ti_uid alarm)) m
               else m)
     in (triggerList @ [alarm], (if ti_wakeup alarm then True else hasWakeup), m1))"

fun trigger_loop ::
  "nat \<Rightarrow> world \<Rightarrow> int \<Rightarrow> timer_info list \<times> bool \<times> timer_manager \<Rightarrow> (timer_info list \<times> bool \<times> timer_manager) option" where
  "trigger_loop 0 w nowElapsed st = None"
| "trigger_loop (Suc fuel) w nowElapsed (triggerList, hasWakeup, m) =
     (case alarmBatches m of
        [] \<Rightarrow> Some (triggerList, hasWakeup, m)
      | batch # rest \<Rightarrow>
          if GetStart batch > nowElapsed then Some (triggerList, hasWakeup, m)
          else trigger_loop fuel w nowElapsed
                 (fold (trigger_alarm w nowElapsed) (b_alarms batch) (triggerList, hasWakeup, m\<lparr>alarmBatches := rest\<rparr>)))"

text \<open>One round for every batch, one for every alarm, and one to see that nothing is due.\<close>

definition trigger_fuel :: "timer_manager \<Rightarrow> nat" where
  "trigger_fuel m = Suc (length (alarmBatches m) + size (scheduled m))"

definition TriggerTimersLocked ::
  "world \<Rightarrow> timer_info list \<Rightarrow> int \<Rightarrow> timer_manager \<Rightarrow> (timer_info list \<times> bool \<times> timer_manager) option" where
  "TriggerTimersLocked w triggerList nowElapsed m =
     (case trigger_loop (trigger_fuel m) w nowElapsed (triggerList, False, m) of
        None \<Rightarrow> None
      | Some (triggerList, hasWakeup, m) \<Rightarrow> Some (w_sort w triggerList, hasWakeup, m))"


section \<open>What one alarm does\<close>

definition repeating :: "timer_info \<Rightarrow> bool" where
  "repeating a \<longleftrightarrow> ti_repeatInterval a > 0"

definition triggered :: "int \<Rightarrow> timer_info \<Rightarrow> timer_info" where
  "triggered now a = a\<lparr>ti_count := trigger_count now a\<rparr>"

text \<open>The alarm that a repeating alarm is scheduled again as.\<close>

definition next_alarm :: "int \<Rightarrow> timer_info \<Rightarrow> timer_info" where
  "next_alarm now a =
     (let delta = trigger_count now a * word_of_int (ti_repeatInterval a);
          nextElapsed = sint (word_of_int (ti_whenElapsed a) + delta * 1000000 :: u64)
      in TimerInfo (ti_id a) (ti_type a) (sint (word_of_int (ti_when a) + delta :: u64)) nextElapsed
           (ti_windowLength a) (MaxTriggerTime now nextElapsed (ti_repeatInterval a)) (ti_repeatInterval a)
           (ti_callback a) (ti_flags a) (sint (ucast (word_of_int (ti_uid a) :: u64) :: i32)))"

lemma triggered_sel [simp]:
  "ti_id (triggered now a) = ti_id a" "ti_uid (triggered now a) = ti_uid a"
  "ti_callback (triggered now a) = ti_callback a" "ti_whenElapsed (triggered now a) = ti_whenElapsed a"
  by (simp_all add: triggered_def)

lemma next_alarm_sel [simp]:
  "ti_id (next_alarm now a) = ti_id a" "ti_callback (next_alarm now a) = ti_callback a"
  "ti_expectedWhenElapsed (next_alarm now a) = ti_whenElapsed (next_alarm now a)"
  "ti_repeatInterval (next_alarm now a) = ti_repeatInterval a"
  "ti_whenElapsed (next_alarm now a) \<le> ti_maxWhenElapsed (next_alarm now a)"
  by (simp_all add: next_alarm_def Let_def MaxTriggerTime_ge)

text \<open>An alarm and its copy with another count are scheduled again alike.\<close>

lemma triggered_next:
  assumes "triggered now a = triggered now a'"
  shows "next_alarm now a = next_alarm now a'" "repeating a = repeating a'" "ti_whenElapsed a = ti_whenElapsed a'"
proof -
  have "trigger_count now a = trigger_count now a'"
    using arg_cong [OF assms, of ti_count] by (simp add: triggered_def)
  then show "next_alarm now a = next_alarm now a'"
    using arg_cong [OF assms, of "\<lambda>x. (ti_id x, ti_type x, ti_when x, ti_whenElapsed x, ti_windowLength x, ti_repeatInterval x,
      ti_callback x, ti_flags x, ti_uid x)"]
    by (simp add: next_alarm_def triggered_def)
  show "repeating a = repeating a'" "ti_whenElapsed a = ti_whenElapsed a'"
    using arg_cong [OF assms, of ti_repeatInterval] arg_cong [OF assms, of ti_whenElapsed]
    by (simp_all add: repeating_def triggered_def)
qed

lemma trigger_alarm_eq:
  "trigger_alarm w now a (ts, hw, m) =
    (ts @ [triggered now a], ti_wakeup a \<or> hw,
     if repeating a
     then RescheduleKernelTimerLocked w (InsertAndBatchTimerLocked (next_alarm now a) m) else m)"
  by (simp add: trigger_alarm_def triggered_def repeating_def next_alarm_def SetHandlerLocked_def
      SetHandlerLocked_alarm_def Let_def)

lemma fold_trigger:
  "\<exists>m'. fold (trigger_alarm w now) as (ts, hw, m) =
      (ts @ map (triggered now) as, (\<exists>a \<in> set as. ti_wakeup a) \<or> hw, m') \<and>
    alarmBatches m' = fold insert_and_batch (map (next_alarm now) (filter repeating as)) (alarmBatches m) \<and>
    same_registry m m' \<and> ticks m' = ticks m"
proof (induction as arbitrary: ts hw m)
  case (Cons a as)
  define m1 where "m1 = snd (snd (trigger_alarm w now a (ts, hw, m)))"
  have m1: "trigger_alarm w now a (ts, hw, m) = (ts @ [triggered now a], ti_wakeup a \<or> hw, m1)"
    "alarmBatches m1 = (if repeating a then insert_and_batch (next_alarm now a) (alarmBatches m) else alarmBatches m)"
    "same_registry m m1" "ticks m1 = ticks m"
    by (simp_all add: m1_def trigger_alarm_eq same_registry_def)
  from Cons [of "ts @ [triggered now a]" "ti_wakeup a \<or> hw" m1] m1 show ?case
    by (auto intro: same_registry_trans)
qed simp

lemma scheduled_in_fold_insert:
  "scheduled_in (fold insert_and_batch as bs) = mset as + scheduled_in bs"
  by (induction as arbitrary: bs) (simp_all add: scheduled_in_insert)

lemma batches_inv_fold_insert: "batches_inv bs \<Longrightarrow> batches_inv (fold insert_and_batch as bs)"
  by (induction as arbitrary: bs) (simp_all add: batches_inv_insert)

lemma batch_inv_insert: "\<forall>b \<in> set bs. batch_inv b \<Longrightarrow> \<forall>b \<in> set (insert_and_batch a bs). batch_inv b"
  by (cases bs) (auto simp: insert_and_batch_cases batch_inv_Add)

lemma batch_inv_fold_insert:
  "\<forall>b \<in> set bs. batch_inv b \<Longrightarrow> \<forall>b \<in> set (fold insert_and_batch as bs). batch_inv b"
  by (induction as arbitrary: bs) (auto dest: batch_inv_insert)

lemma due_fold_insert:
  "length (due now (fold insert_and_batch as bs)) \<le>
    length (due now bs) + length (filter (\<lambda>a. ti_whenElapsed a \<le> now) as)"
proof (induction as arbitrary: bs)
  case (Cons a as)
  from Cons [of "insert_and_batch a bs"] due_insert [of now a bs] due_insert_le [of now a bs]
  show ?case by (cases "ti_whenElapsed a \<le> now") auto
qed simp

section \<open>The loop, whatever the times\<close>

text \<open>
  What a run does: the alarms \<open>popped\<close> from the list are appended to the trigger list in
  order, and what is scheduled afterwards is what was before, less these alarms, plus the
  next alarm of each repeating one.
\<close>

definition kept :: "int \<Rightarrow> timer_manager \<Rightarrow> timer_info list \<Rightarrow> timer_manager \<Rightarrow> bool" where
  "kept now m popped m' \<longleftrightarrow>
     (\<forall>P. (\<forall>a \<in># scheduled m. P a) \<longrightarrow> (\<forall>a. P a \<longrightarrow> P (next_alarm now a)) \<longrightarrow>
       (\<forall>a \<in> set popped. P a) \<and> (\<forall>a \<in># scheduled m'. P a))"

lemma keptD:
  assumes "kept now m popped m'" "\<forall>a \<in># scheduled m. P a" "\<And>a. P a \<Longrightarrow> P (next_alarm now a)"
  shows "(\<forall>a \<in> set popped. P a) \<and> (\<forall>a \<in># scheduled m'. P a)"
  using assms(1) [unfolded kept_def, THEN spec, of P] assms(2,3) by blast

lemma kept_trans:
  assumes k: "kept now m as m'" "kept now m' bs m''"
  shows "kept now m (as @ bs) m''"
  unfolding kept_def
proof (intro allI impI)
  fix P assume P: "\<forall>a \<in># scheduled m. P a" "\<forall>a. P a \<longrightarrow> P (next_alarm now a)"
  have 1: "(\<forall>a \<in> set as. P a) \<and> (\<forall>a \<in># scheduled m'. P a)"
    using keptD [OF k(1) P(1)] P(2) by blast
  moreover have "(\<forall>a \<in> set bs. P a) \<and> (\<forall>a \<in># scheduled m''. P a)"
    using keptD [OF k(2), of P] 1 P(2) by blast
  ultimately show "(\<forall>a \<in> set (as @ bs). P a) \<and> (\<forall>a \<in># scheduled m''. P a)" by auto
qed

definition run :: "int \<Rightarrow> timer_info list \<times> bool \<times> timer_manager \<Rightarrow> timer_info list
    \<Rightarrow> timer_info list \<times> bool \<times> timer_manager \<Rightarrow> bool" where
  "run now = (\<lambda>(ts, hw, m) popped (ts', hw', m').
     ts' = ts @ map (triggered now) popped \<and>
     scheduled m' + mset popped = scheduled m + mset (map (next_alarm now) (filter repeating popped)) \<and>
     (hw' \<longleftrightarrow> hw \<or> (\<exists>a \<in> set popped. ti_wakeup a)) \<and> same_registry m m' \<and> ticks m' = ticks m \<and>
     ((\<forall>b \<in> set (alarmBatches m). batch_inv b) \<longrightarrow>
       (\<forall>b \<in> set (alarmBatches m'). batch_inv b) \<and> (\<forall>a \<in> set popped. ti_whenElapsed a \<le> now)) \<and>
     (batches_inv (alarmBatches m) \<longrightarrow> batches_inv (alarmBatches m')) \<and>
     kept now m popped m')"

lemma run_facts:
  assumes "run now (ts, hw, m) popped (ts', hw', m')"
  shows "scheduled m' + mset popped = scheduled m + mset (map (next_alarm now) (filter repeating popped))"
    and "hw' \<longleftrightarrow> hw \<or> (\<exists>a \<in> set popped. ti_wakeup a)"
    and "\<forall>b \<in> set (alarmBatches m). batch_inv b \<Longrightarrow> \<forall>a \<in> set popped. ti_whenElapsed a \<le> now"
    and "ts' = ts @ map (triggered now) popped"
  using assms unfolding run_def prod.case by blast+

lemma run_nil: "run now st [] st"
  by (simp add: run_def kept_def split: prod.splits)

lemma run_trans: "run now st as st' \<Longrightarrow> run now st' bs st'' \<Longrightarrow> run now st (as @ bs) st''"
proof -
  assume 1: "run now st as st'" and 2: "run now st' bs st''"
  obtain ts hw m ts' hw' m' ts'' hw'' m'' where st: "st = (ts, hw, m)" "st' = (ts', hw', m')" "st'' = (ts'', hw'', m'')"
    by (metis prod_cases3)
  have sch: "scheduled m'' + mset (as @ bs) =
      scheduled m + mset (map (next_alarm now) (filter repeating (as @ bs)))"
    using 1 2 unfolding run_def st prod.case mset_append filter_append map_append
    by (elim conjE) (rule multiset_chain)
  have reg: "same_registry m m''"
    using 1 2 unfolding run_def st prod.case by (elim conjE) (rule same_registry_trans)
  have inv: "(\<forall>b \<in> set (alarmBatches m). batch_inv b) \<longrightarrow>
      (\<forall>b \<in> set (alarmBatches m''). batch_inv b) \<and> (\<forall>a \<in> set (as @ bs). ti_whenElapsed a \<le> now)"
    "batches_inv (alarmBatches m) \<longrightarrow> batches_inv (alarmBatches m'')"
    using 1 2 unfolding run_def st prod.case set_append by blast+
  have kept: "kept now m (as @ bs) m''"
    using 1 2 unfolding run_def st prod.case by (elim conjE) (rule kept_trans)
  have out: "ts'' = ts @ map (triggered now) (as @ bs)" "ticks m'' = ticks m"
    "hw'' \<longleftrightarrow> hw \<or> (\<exists>a \<in> set (as @ bs). ti_wakeup a)"
    using 1 2 unfolding run_def st prod.case by auto
  show ?thesis
    unfolding run_def st prod.case using sch reg inv kept out by blast
qed

lemma run_round:
  assumes bs: "alarmBatches m = b # rest" and b: "GetStart b \<le> now"
  shows "run now (ts, hw, m) (b_alarms b)
    (fold (trigger_alarm w now) (b_alarms b) (ts, hw, m\<lparr>alarmBatches := rest\<rparr>))"
proof -
  obtain m1 where m1: "fold (trigger_alarm w now) (b_alarms b) (ts, hw, m\<lparr>alarmBatches := rest\<rparr>) =
      (ts @ map (triggered now) (b_alarms b), (\<exists>a \<in> set (b_alarms b). ti_wakeup a) \<or> hw, m1)"
    "alarmBatches m1 = fold insert_and_batch (map (next_alarm now) (filter repeating (b_alarms b))) rest"
    "same_registry (m\<lparr>alarmBatches := rest\<rparr>) m1" "ticks m1 = ticks m"
    using fold_trigger [of w now "b_alarms b" ts hw "m\<lparr>alarmBatches := rest\<rparr>"] by auto
  have "same_registry m m1" using m1(3) by (simp add: same_registry_def)
  moreover have "scheduled m1 + mset (b_alarms b) =
      scheduled m + mset (map (next_alarm now) (filter repeating (b_alarms b)))"
    by (simp add: scheduled_def m1(2) bs scheduled_in_fold_insert)
  moreover have "\<forall>b \<in> set (alarmBatches m). batch_inv b \<Longrightarrow>
      (\<forall>b \<in> set (alarmBatches m1). batch_inv b) \<and> (\<forall>a \<in> set (b_alarms b). ti_whenElapsed a \<le> now)"
    using b by (auto simp: m1(2) bs batch_inv_def [of b] GetStart_def dest: batch_inv_fold_insert [rule_format, rotated])
  moreover have "batches_inv (alarmBatches m) \<Longrightarrow> batches_inv (alarmBatches m1)"
    by (simp add: m1(2) bs batches_inv_fold_insert batches_inv_def [of "b # rest"] batches_inv_def [of rest])
  moreover have "kept now m (b_alarms b) m1"
    by (auto simp: kept_def scheduled_def m1(2) bs scheduled_in_fold_insert)
  ultimately show ?thesis using m1(4) unfolding run_def m1(1) by auto
qed

lemma trigger_loop_run:
  assumes "trigger_loop fuel w now (ts, hw, m) = Some (ts', hw', m')"
  shows "(\<exists>popped. run now (ts, hw, m) popped (ts', hw', m')) \<and>
    (alarmBatches m' = [] \<or> now < GetStart (hd (alarmBatches m')))"
  using assms
proof (induction fuel arbitrary: ts hw m)
  case (Suc fuel)
  show ?case
  proof (cases "alarmBatches m = [] \<or> now < GetStart (hd (alarmBatches m))")
    case True
    with Suc.prems show ?thesis by (auto split: list.splits intro: run_nil)
  next
    case False
    then obtain b rest where bs: "alarmBatches m = b # rest" and b: "GetStart b \<le> now"
      by (cases "alarmBatches m") auto
    obtain ts1 hw1 m1 where st1: "fold (trigger_alarm w now) (b_alarms b) (ts, hw, m\<lparr>alarmBatches := rest\<rparr>) = (ts1, hw1, m1)"
      by (metis prod_cases3)
    have "trigger_loop fuel w now (ts1, hw1, m1) = Some (ts', hw', m')"
      using Suc.prems b by (simp add: bs st1)
    from Suc.IH [OF this] run_round [OF bs b, of ts hw w] show ?thesis
      unfolding st1 by (blast intro: run_trans)
  qed
qed simp

section \<open>When the loop ends\<close>

text \<open>
  A repeating alarm's next time: \<open>expectedWhenElapsed\<close> plus whole intervals, the first after
  now, shifted by what re-batching moved \<open>whenElapsed\<close> from it. It is after now when the two
  agree; when they do not (\<open>stale\<close>), the next alarm may be due at once, but it is no longer
  stale. So every round takes a due batch away or leaves a stale alarm fewer.
\<close>

definition stale :: "timer_info \<Rightarrow> bool" where
  "stale a \<longleftrightarrow> ti_expectedWhenElapsed a \<noteq> ti_whenElapsed a"

text \<open>Times in nanoseconds: $2^{59}$ of them are 18 years, $2^{61}$ are 73.\<close>

definition now_ok :: "int \<Rightarrow> bool" where
  "now_ok now \<longleftrightarrow> \<bar>now\<bar> \<le> 2 ^ 59"

definition alarm_ok :: "timer_info \<Rightarrow> bool" where
  "alarm_ok a \<longleftrightarrow> ti_repeatInterval a \<le> MAX_INTERVAL \<and>
     \<bar>ti_whenElapsed a\<bar> \<le> 2 ^ 61 \<and> \<bar>ti_expectedWhenElapsed a\<bar> \<le> 2 ^ 61 \<and>
     (stale a \<longrightarrow> \<bar>ti_whenElapsed a\<bar> \<le> 2 ^ 59 \<and> \<bar>ti_expectedWhenElapsed a\<bar> \<le> 2 ^ 59)"

definition skipped :: "int \<Rightarrow> timer_info \<Rightarrow> int" where
  "skipped now a = duration_cast_ms (now - ti_expectedWhenElapsed a) sdiv ti_repeatInterval a"

lemma abs_sdiv: "\<bar>x sdiv y\<bar> = \<bar>x\<bar> div \<bar>y\<bar>" for x y :: int
  by (cases "x = 0"; cases "y = 0")
    (simp_all add: signed_divide_int_def abs_mult abs_sgn_eq pos_imp_zdiv_nonneg_iff)

lemma skipped_bound: "repeating a \<Longrightarrow> \<bar>skipped now a\<bar> * ti_repeatInterval a * 1000000 \<le> \<bar>now - ti_expectedWhenElapsed a\<bar>"
proof -
  assume r: "repeating a"
  let ?d = "\<bar>now - ti_expectedWhenElapsed a\<bar>" and ?i = "ti_repeatInterval a"
  have "\<bar>skipped now a\<bar> = ?d div 1000000 div ?i"
    using r by (simp add: skipped_def abs_sdiv duration_cast_ms_def repeating_def)
  then have "\<bar>skipped now a\<bar> * ?i = ?d div 1000000 - ?d div 1000000 mod ?i"
    by (simp add: minus_mod_eq_div_mult)
  then have "\<bar>skipped now a\<bar> * ?i \<le> ?d div 1000000"
    using r by (simp add: repeating_def)
  with div_million(1) [of ?d] show ?thesis by linarith
qed

lemma next_alarm_when:
  assumes "repeating a"
    and "in_i64 (ti_whenElapsed a + (1 + skipped now a) * ti_repeatInterval a * 1000000)"
  shows "ti_whenElapsed (next_alarm now a) =
    ti_whenElapsed a + (1 + skipped now a) * ti_repeatInterval a * 1000000"
proof -
  have "word_of_int (ti_whenElapsed a) + trigger_count now a * word_of_int (ti_repeatInterval a) * 1000000 =
      (word_of_int (ti_whenElapsed a + (1 + skipped now a) * ti_repeatInterval a * 1000000) :: u64)"
    using assms(1) by (simp add: trigger_count_def repeating_def skipped_def)
  then show ?thesis
    using assms(2) by (simp only: next_alarm_def Let_def TimerInfo_sel sint_word_of_int_i64)
qed

text \<open>The alarm skips the intervals that have passed: the next time is the first after now.\<close>

lemma next_alarm_fresh:
  assumes "repeating a" "\<not> stale a" "alarm_ok a" "now_ok now" "ti_whenElapsed a \<le> now"
  shows "now < ti_whenElapsed (next_alarm now a)"
    and "ti_whenElapsed (next_alarm now a) \<le> now + ms_to_ns (ti_repeatInterval a)"
    and "\<exists>k \<ge> 1. ti_whenElapsed (next_alarm now a) = ti_whenElapsed a + k * ms_to_ns (ti_repeatInterval a)"
proof -
  let ?d = "now - ti_whenElapsed a" and ?i = "ti_repeatInterval a" and ?k = "skipped now a"
  have i: "0 < ?i" "?i \<le> 31536000000" using assms by (auto simp: repeating_def alarm_ok_def MAX_INTERVAL_def)
  have k: "?k = ?d div 1000000 div ?i"
    using assms i by (simp add: skipped_def stale_def duration_cast_ms_nonneg sdiv_nonneg pos_imp_zdiv_nonneg_iff)
  have "0 \<le> ?k" using assms(5) i by (simp add: k pos_imp_zdiv_nonneg_iff)
  have "?d div 1000000 = ?k * ?i + ?d div 1000000 mod ?i" by (simp add: k)
  moreover have "0 \<le> ?d div 1000000 mod ?i" "?d div 1000000 mod ?i < ?i" using i by simp_all
  ultimately have ki: "?k * ?i \<le> ?d div 1000000" "?d div 1000000 + 1 \<le> ?k * ?i + ?i" by linarith+
  have eq: "(1 + ?k) * ?i * 1000000 = (?k * ?i + ?i) * 1000000" by (simp add: algebra_simps)
  note d = div_million [of ?d]
  have "?d < (?k * ?i + ?i) * 1000000"
    by (rule less_le_trans [OF d(2)], rule mult_right_mono [OF ki(2)]) simp
  then have lo: "now < ti_whenElapsed a + (1 + ?k) * ?i * 1000000" unfolding eq by linarith
  have "?k * ?i * 1000000 \<le> ?d"
    by (rule order_trans [OF _ d(1)], rule mult_right_mono [OF ki(1)]) simp
  then have hi: "ti_whenElapsed a + (1 + ?k) * ?i * 1000000 \<le> now + ?i * 1000000"
    unfolding eq by (simp add: distrib_right)
  have "in_i64 (ti_whenElapsed a + (1 + ?k) * ?i * 1000000)"
    using lo hi i(2) assms(4)
    by (simp add: in_i64_def now_ok_def del: mult_less_cancel_right mult_le_cancel_right) linarith
  then have w: "ti_whenElapsed (next_alarm now a) = ti_whenElapsed a + (1 + ?k) * ?i * 1000000"
    by (rule next_alarm_when [OF assms(1)])
  show "now < ti_whenElapsed (next_alarm now a)"
    and "ti_whenElapsed (next_alarm now a) \<le> now + ms_to_ns ?i"
    using lo hi by (simp_all add: w ms_to_ns_def)
  show "\<exists>k \<ge> 1. ti_whenElapsed (next_alarm now a) = ti_whenElapsed a + k * ms_to_ns ?i"
    using \<open>0 \<le> ?k\<close> by (intro exI [of _ "1 + ?k"]) (simp add: w ms_to_ns_def)
qed

lemma next_alarm_ok:
  assumes "repeating a" "alarm_ok a" "now_ok now" "ti_whenElapsed a \<le> now"
  shows "alarm_ok (next_alarm now a) \<and> \<not> stale (next_alarm now a)"
proof -
  have i: "0 < ti_repeatInterval a" "ti_repeatInterval a \<le> 31536000000"
    using assms by (auto simp: repeating_def alarm_ok_def MAX_INTERVAL_def)
  have "\<bar>ti_whenElapsed (next_alarm now a)\<bar> \<le> 2 ^ 61"
  proof (cases "stale a")
    case False
    from next_alarm_fresh(1,2) [OF assms(1) False assms(2-4)] i assms(3) show ?thesis
      by (simp add: now_ok_def ms_to_ns_def)
  next
    case True
    let ?s = "skipped now a * ti_repeatInterval a * 1000000"
    have s: "\<bar>?s\<bar> \<le> \<bar>now - ti_expectedWhenElapsed a\<bar>"
      using skipped_bound [OF assms(1), of now] i by (simp add: abs_mult)
    have b: "\<bar>ti_whenElapsed a\<bar> \<le> 2 ^ 59" "\<bar>ti_expectedWhenElapsed a\<bar> \<le> 2 ^ 59" "\<bar>now\<bar> \<le> 2 ^ 59"
      using assms True by (auto simp: alarm_ok_def now_ok_def)
    have eq: "(1 + skipped now a) * ti_repeatInterval a * 1000000 = ?s + ti_repeatInterval a * 1000000"
      by (simp add: algebra_simps)
    have "in_i64 (ti_whenElapsed a + (1 + skipped now a) * ti_repeatInterval a * 1000000)"
      unfolding eq using s b i by (simp add: in_i64_def) linarith
    from next_alarm_when [OF assms(1) this] show ?thesis unfolding eq using s b i by simp
  qed
  then show ?thesis using assms(2) by (simp add: alarm_ok_def stale_def)
qed

text \<open>The rounds that are left: batches due, and stale alarms.\<close>

definition rounds_left :: "int \<Rightarrow> timer_manager \<Rightarrow> nat" where
  "rounds_left now m = length (due now (alarmBatches m)) + size (filter_mset stale (scheduled m))"

lemma rounds_left_le: "rounds_left now m \<le> length (alarmBatches m) + size (scheduled m)"
  unfolding rounds_left_def due_def by (intro add_mono) (simp_all add: size_filter_mset_lesseq)

lemma length_due_next:
  assumes "\<forall>a \<in> set as. alarm_ok a \<and> ti_whenElapsed a \<le> now" and "now_ok now"
  shows "length (filter (\<lambda>a. ti_whenElapsed a \<le> now) (map (next_alarm now) (filter repeating as)))
    \<le> size (filter_mset stale (mset as))"
  using assms(1)
proof (induction as)
  case (Cons a as)
  then have "repeating a \<Longrightarrow> ti_whenElapsed (next_alarm now a) \<le> now \<Longrightarrow> stale a"
    using next_alarm_fresh(1) [of a now] assms(2) by fastforce
  with Cons show ?case by auto
qed simp

lemma fold_insert_ok:
  assumes "\<forall>a \<in> set as. alarm_ok a \<and> ti_whenElapsed a \<le> now" and "now_ok now"
    and "\<forall>a \<in># scheduled_in bs. alarm_ok a"
  shows "\<forall>a \<in># scheduled_in (fold insert_and_batch (map (next_alarm now) (filter repeating as)) bs). alarm_ok a"
    and "filter_mset stale (scheduled_in (fold insert_and_batch (map (next_alarm now) (filter repeating as)) bs)) =
      filter_mset stale (scheduled_in bs)"
proof -
  have ok: "alarm_ok (next_alarm now a) \<and> \<not> stale (next_alarm now a)" if "a \<in> set as" "repeating a" for a
    using that assms(1,2) next_alarm_ok [of a now] by blast
  show "\<forall>a \<in># scheduled_in (fold insert_and_batch (map (next_alarm now) (filter repeating as)) bs). alarm_ok a"
    using assms(3) ok by (auto simp: scheduled_in_fold_insert)
  have "filter_mset stale (mset (map (next_alarm now) (filter repeating as))) = {#}"
    using ok by (subst set_mset_eq_empty_iff [symmetric]) auto
  then show "filter_mset stale (scheduled_in (fold insert_and_batch (map (next_alarm now) (filter repeating as)) bs)) =
      filter_mset stale (scheduled_in bs)"
    by (simp only: scheduled_in_fold_insert filter_union_mset) simp
qed

lemma trigger_loop_returns:
  assumes "rounds_left now m < fuel" and "now_ok now"
    and "\<forall>b \<in> set (alarmBatches m). batch_inv b" and "\<forall>a \<in># scheduled m. alarm_ok a"
  shows "\<exists>r. trigger_loop fuel w now (ts, hw, m) = Some r"
  using assms(1,3,4)
proof (induction fuel arbitrary: ts hw m)
  case (Suc fuel)
  show ?case
  proof (cases "alarmBatches m = [] \<or> now < GetStart (hd (alarmBatches m))")
    case True
    then show ?thesis by (auto split: list.splits)
  next
    case False
    then obtain b rest where bs: "alarmBatches m = b # rest" and b: "GetStart b \<le> now"
      by (cases "alarmBatches m") auto
    obtain m1 where m1: "fold (trigger_alarm w now) (b_alarms b) (ts, hw, m\<lparr>alarmBatches := rest\<rparr>) =
        (ts @ map (triggered now) (b_alarms b), (\<exists>a \<in> set (b_alarms b). ti_wakeup a) \<or> hw, m1)"
      "alarmBatches m1 = fold insert_and_batch (map (next_alarm now) (filter repeating (b_alarms b))) rest"
      using fold_trigger [of w now "b_alarms b" ts hw "m\<lparr>alarmBatches := rest\<rparr>"] by auto
    have al: "\<forall>a \<in> set (b_alarms b). alarm_ok a \<and> ti_whenElapsed a \<le> now"
      using Suc.prems(2,3) b by (fastforce simp: bs scheduled_def batch_inv_def GetStart_def)
    have rest: "\<forall>a \<in># scheduled_in rest. alarm_ok a" using Suc.prems(3) by (simp add: bs scheduled_def)
    note ok = fold_insert_ok [OF al assms(2) rest]
    have "length (due now (alarmBatches m1)) \<le> length (due now rest) + size (filter_mset stale (mset (b_alarms b)))"
      unfolding m1(2) using due_fold_insert [of now "map (next_alarm now) (filter repeating (b_alarms b))" rest]
        length_due_next [OF al assms(2)] by linarith
    then have "Suc (rounds_left now m1) \<le> rounds_left now m"
      using b unfolding rounds_left_def scheduled_def m1(2) ok(2) by (simp add: bs)
    then have "\<exists>r. trigger_loop fuel w now
        (ts @ map (triggered now) (b_alarms b), (\<exists>a \<in> set (b_alarms b). ti_wakeup a) \<or> hw, m1) = Some r"
      using Suc.prems ok(1) batch_inv_fold_insert [of rest "map (next_alarm now) (filter repeating (b_alarms b))"]
      by (intro Suc.IH) (auto simp: m1(2) scheduled_def bs)
    then show ?thesis using b by (simp add: bs m1(1))
  qed
qed simp

text \<open>The results of \<open>TriggerTimersLocked\<close>, gathered for the callers.\<close>

lemma Trigger_returns:
  assumes "now_ok now" "\<forall>b \<in> set (alarmBatches m). batch_inv b" "\<forall>a \<in># scheduled m. alarm_ok a"
  shows "\<exists>ts' hw m'. TriggerTimersLocked w ts now m = Some (ts', hw, m')"
proof -
  have "rounds_left now m < trigger_fuel m"
    using rounds_left_le [of now m] by (simp add: trigger_fuel_def)
  from trigger_loop_returns [OF this assms, of w ts False] show ?thesis
    by (auto simp: TriggerTimersLocked_def)
qed

lemma Trigger_run:
  assumes "TriggerTimersLocked w ts now m = Some (ts', hw, m')"
  obtains popped where "ts' = w_sort w (ts @ map (triggered now) popped)"
    "run now (ts, False, m) popped (ts @ map (triggered now) popped, hw, m')"
    "alarmBatches m' = [] \<or> now < GetStart (hd (alarmBatches m'))"
proof -
  from assms obtain ts1 where 1: "trigger_loop (trigger_fuel m) w now (ts, False, m) = Some (ts1, hw, m')"
    and 2: "ts' = w_sort w ts1"
    by (auto simp: TriggerTimersLocked_def split: option.splits prod.splits)
  from trigger_loop_run [OF 1] obtain popped where 3: "run now (ts, False, m) popped (ts1, hw, m')"
    and 4: "alarmBatches m' = [] \<or> now < GetStart (hd (alarmBatches m'))" by blast
  from 3 have "ts1 = ts @ map (triggered now) popped" by (simp add: run_def)
  with 2 3 4 that show ?thesis by blast
qed

lemma Trigger_frame: "TriggerTimersLocked w ts now m = Some (ts', hw, m') \<Longrightarrow> same_registry m m'"
  by (erule Trigger_run) (simp add: run_def)

lemma Trigger_batch_inv:
  "TriggerTimersLocked w ts now m = Some (ts', hw, m') \<Longrightarrow> \<forall>b \<in> set (alarmBatches m). batch_inv b \<Longrightarrow>
    \<forall>b \<in> set (alarmBatches m'). batch_inv b"
  by (erule Trigger_run) (simp add: run_def)

lemma Trigger_inv:
  "TriggerTimersLocked w ts now m = Some (ts', hw, m') \<Longrightarrow> batches_inv (alarmBatches m) \<Longrightarrow>
    batches_inv (alarmBatches m')"
  by (erule Trigger_run) (simp add: run_def)

text \<open>What holds of every scheduled alarm, and of the next of an alarm, holds of all that come up.\<close>

lemma Trigger_kept:
  assumes "TriggerTimersLocked w ts now m = Some (ts', hw, m')"
    and "\<forall>a \<in># scheduled m. P a" and "\<And>a. P a \<Longrightarrow> P (next_alarm now a)"
  shows "\<forall>a \<in># scheduled m'. P a"
proof -
  obtain popped where "run now (ts, False, m) popped (ts @ map (triggered now) popped, hw, m')"
    using assms(1) by (rule Trigger_run)
  then have "kept now m popped m'" unfolding run_def prod.case by blast
  from keptD [OF this assms(2,3)] show ?thesis by blast
qed

text \<open>What is handed over has come due and is in order, and what is left has not come due.\<close>

lemma Trigger_facts:
  assumes "valid_sort ti_whenElapsed (w_sort w)" "\<forall>b \<in> set (alarmBatches m). batch_inv b"
    and "TriggerTimersLocked w [] now m = Some (ts, hw, m')"
  shows "\<forall>a \<in> set ts. ti_whenElapsed a \<le> now" and "sorted (map ti_whenElapsed ts)"
    and "hw \<longleftrightarrow> (\<exists>a \<in> set ts. ti_wakeup a)"
    and "batches_inv (alarmBatches m) \<Longrightarrow> due now (alarmBatches m') = [] \<and> batches_inv (alarmBatches m')"
proof -
  from assms(3) obtain popped where p: "ts = w_sort w ([] @ map (triggered now) popped)"
    "run now ([], False, m) popped ([] @ map (triggered now) popped, hw, m')"
    "alarmBatches m' = [] \<or> now < GetStart (hd (alarmBatches m'))" by (rule Trigger_run)
  show "due now (alarmBatches m') = [] \<and> batches_inv (alarmBatches m')" if "batches_inv (alarmBatches m)"
    using Trigger_inv [OF assms(3) that] p(3) not_due_all [of "hd (alarmBatches m')" "tl (alarmBatches m')" now]
    by (cases "alarmBatches m'") (auto simp: batches_inv_def)
  have "\<forall>a \<in> set popped. ti_whenElapsed a \<le> now" using run_facts(3) [OF p(2)] assms(2) by blast
  moreover have set_ts: "set ts = triggered now ` set popped"
    using assms(1) p(1) by (simp add: valid_sort_set)
  ultimately show "\<forall>a \<in> set ts. ti_whenElapsed a \<le> now" by simp
  show "sorted (map ti_whenElapsed ts)" using assms(1) p(1) by (simp add: valid_sort_def)
  have "ti_wakeup (triggered now a) = ti_wakeup a" for a by (simp add: triggered_def)
  then show "hw \<longleftrightarrow> (\<exists>a \<in> set ts. ti_wakeup a)" using run_facts(2) [OF p(2)] unfolding set_ts by simp
qed

end
