(* ===== verification/Text.thy ===== *)
theory Text
  imports Cpp_Std
begin

text \<open>
  Numbers as text: what \<open>dprintf\<close> prints for \<open>%lu\<close>, \<open>%d\<close> and \<open>%lld\<close>, and what \<open>atoi\<close>
  and \<open>stoul\<close> read. Reading what was printed gives the number back.
\<close>

definition digit :: "nat \<Rightarrow> char" where "digit d = char_of (48 + d)"

definition digit_value :: "char \<Rightarrow> nat option" where
  "digit_value c = (let n = (of_char c :: nat) in if 48 \<le> n \<and> n \<le> 57 then Some (n - 48) else None)"

fun show_nat :: "nat \<Rightarrow> string" where
  "show_nat n = (if n < 10 then [digit n] else show_nat (n div 10) @ [digit (n mod 10)])"

declare show_nat.simps [simp del]

definition show_int :: "int \<Rightarrow> string" where
  "show_int i = (if i < 0 then CHR ''-'' # show_nat (nat (- i)) else show_nat (nat i))"

fun read_digits :: "nat \<Rightarrow> string \<Rightarrow> nat" where
  "read_digits acc [] = acc"
| "read_digits acc (c # cs) =
     (case digit_value c of None \<Rightarrow> acc | Some d \<Rightarrow> read_digits (10 * acc + d) cs)"

definition is_space :: "char \<Rightarrow> bool" where
  "is_space c \<longleftrightarrow> (of_char c :: nat) = 32 \<or> (9 \<le> (of_char c :: nat) \<and> (of_char c :: nat) \<le> 13)"

text \<open>White space, a sign, digits; anything after them is ignored.\<close>

definition atoi :: "string \<Rightarrow> int" where
  "atoi s = (case dropWhile is_space s of
       [] \<Rightarrow> 0
     | c # cs \<Rightarrow> if c = CHR ''-'' then - int (read_digits 0 cs)
                 else if c = CHR ''+'' then int (read_digits 0 cs)
                 else int (read_digits 0 (c # cs)))"

text \<open>\<open>stoul\<close> throws \<open>invalid_argument\<close> when there is no digit, and \<open>out_of_range\<close>.\<close>

definition stoul :: "string \<Rightarrow> u64 option" where
  "stoul s =
     (let t = dropWhile is_space s;
          (neg, u) = (case t of [] \<Rightarrow> (False, [])
            | c # cs \<Rightarrow> if c = CHR ''-'' then (True, cs) else if c = CHR ''+'' then (False, cs) else (False, t))
      in case u of [] \<Rightarrow> None
         | d # _ \<Rightarrow> if digit_value d = None then None
             else let n = read_digits 0 u in
               if n \<ge> 2 ^ 64 then None else Some (if neg then - of_nat n else of_nat n))"

lemma digit_value_digit [simp]: "d < 10 \<Longrightarrow> digit_value (digit d) = Some d"
  by (simp add: digit_value_def digit_def)

lemma digit_not_special [simp]:
  "d < 10 \<Longrightarrow> digit d \<noteq> CHR ''-''" "d < 10 \<Longrightarrow> digit d \<noteq> CHR ''+''" "d < 10 \<Longrightarrow> \<not> is_space (digit d)"
proof -
  assume "d < 10"
  then have "(of_char (digit d) :: nat) = 48 + d" by (simp add: digit_def)
  then show "digit d \<noteq> CHR ''-''" "digit d \<noteq> CHR ''+''" "\<not> is_space (digit d)"
    by (auto simp: is_space_def)
qed

lemma read_digits_append:
  "\<forall>c \<in> set s. digit_value c \<noteq> None \<Longrightarrow> read_digits acc (s @ t) = read_digits (read_digits acc s) t"
  by (induction s arbitrary: acc) auto

lemma show_nat_digits: "c \<in> set (show_nat n) \<Longrightarrow> \<exists>d < 10. c = digit d"
proof (induction n rule: show_nat.induct)
  case (1 n)
  then show ?case by (subst (asm) (2) show_nat.simps) (auto split: if_splits intro: exI [of _ "n mod 10"])
qed

lemma read_show_nat [simp]: "read_digits 0 (show_nat n) = n"
proof (induction n rule: show_nat.induct)
  case (1 n)
  show ?case
  proof (cases "n < 10")
    case False
    have "\<forall>c \<in> set (show_nat (n div 10)). digit_value c \<noteq> None"
      using show_nat_digits by fastforce
    with 1 False show ?thesis by (subst show_nat.simps) (simp add: read_digits_append)
  qed (simp add: show_nat.simps)
qed

lemma show_nat_Cons: obtains d cs where "show_nat n = digit d # cs" "d < 10"
proof -
  have "show_nat n \<noteq> []" by (subst show_nat.simps) simp
  then obtain c cs where c: "show_nat n = c # cs" by (cases "show_nat n") auto
  then obtain d where "d < 10" "c = digit d" using show_nat_digits [of c n] by auto
  with c that show ?thesis by blast
qed

lemma atoi_show_int [simp]: "atoi (show_int i) = i"
proof (cases "i < 0")
  case True
  then show ?thesis by (simp add: atoi_def show_int_def is_space_def)
next
  case False
  obtain d cs where d: "show_nat (nat i) = digit d # cs" "d < 10" by (rule show_nat_Cons)
  have r: "read_digits 0 (digit d # cs) = nat i" by (simp only: d(1) [symmetric] read_show_nat)
  have "atoi (digit d # cs) = int (nat i)" using d by (simp add: atoi_def r del: read_digits.simps)
  with d False show ?thesis by (simp add: show_int_def)
qed

lemma stoul_show_nat: "n < 2 ^ 64 \<Longrightarrow> stoul (show_nat n) = Some (of_nat n)"
proof -
  assume n: "n < 2 ^ 64"
  obtain d cs where d: "show_nat n = digit d # cs" "d < 10" by (rule show_nat_Cons)
  have r: "read_digits 0 (digit d # cs) = n" by (simp only: d(1) [symmetric] read_show_nat)
  show ?thesis
    using d n by (simp add: stoul_def Let_def r del: read_digits.simps)
qed

lemma show_nat_inject: "show_nat m = show_nat n \<longleftrightarrow> m = n"
  by (metis read_show_nat)

end
