(* ===== verification/Timer_Looper.thy ===== *)
theory Timer_Looper
  imports Timer_Trigger Text
begin

text \<open>
  The public operations of \<open>TimerManager\<close> and its thread (\<open>timer_manager.cpp\<close>):
  \<open>CreateTimer\<close>, \<open>StartTimer\<close>, \<open>StopTimer\<close>, \<open>DestroyTimer\<close>, the \<open>Show\<close> functions and
  \<open>TimerLooper\<close>, with the states that any sequence of them reaches and the invariant of
  these states.

  An operation runs to its end before the next one starts, as under the manager's mutexes;
  an iteration of the thread is two such steps, the reaction to a change of the clock and the
  delivery, since it releases the mutex in between.
\<close>

section \<open>Registration\<close>

text \<open>
  The engine is asked until it yields a number that is not 0: the number, and the position in
  the engine's stream after it. An engine that only yields 0 keeps the loop going for ever.
\<close>

partial_function (option) draw :: "(nat \<Rightarrow> u64) \<Rightarrow> nat \<Rightarrow> (u64 \<times> nat) option" where
  "draw random pos =
     (let timerNumber = random pos in
      if timerNumber = 0 then draw random (Suc pos) else Some (timerNumber, Suc pos))"

definition CreateTimer ::
  "world \<Rightarrow> i32 \<Rightarrow> u64 \<Rightarrow> u64 \<Rightarrow> i32 \<Rightarrow> timer_callback option \<Rightarrow> int \<Rightarrow> timer_manager
   \<Rightarrow> (timer_manager \<times> u64) option" where
  "CreateTimer w type windowLength interval flag callback uid m =
     (case draw (w_random w) (randomPos m) of
        None \<Rightarrow> None
      | Some (timerNumber, pos) \<Rightarrow>
          let timerInfo = \<lparr>te_id = timerNumber, te_type = type, te_windowLength = windowLength,
                te_interval = interval, te_flag = flag, te_callback = callback, te_uid = uid\<rparr>
          in Some (m\<lparr>randomPos := pos, timerEntryMap := map_insert timerNumber timerInfo (timerEntryMap m)\<rparr>,
                   timerNumber))"

definition StartTimer :: "world \<Rightarrow> u64 \<Rightarrow> u64 \<Rightarrow> timer_manager \<Rightarrow> timer_manager \<times> bool" where
  "StartTimer w timerNumber triggerTime m =
     (case map_find (timerEntryMap m) timerNumber of
        None \<Rightarrow> (m, False)
      | Some timerInfo \<Rightarrow>
          (SetHandler w (te_id timerInfo) (te_type timerInfo) triggerTime (te_windowLength timerInfo)
             (te_interval timerInfo) (te_flag timerInfo) (te_callback timerInfo) (te_uid timerInfo) m, True))"

definition StopTimerInner :: "world \<Rightarrow> u64 \<Rightarrow> bool \<Rightarrow> timer_manager \<Rightarrow> timer_manager \<times> bool" where
  "StopTimerInner w timerNumber needDestroy m =
     (case map_find (timerEntryMap m) timerNumber of
        None \<Rightarrow> (m, False)
      | Some timerInfo \<Rightarrow>
          let m1 = RemoveHandler w timerNumber m;
              m2 = RemoveProxy timerNumber (te_uid timerInfo) m1;
              m3 = (if needDestroy then m2\<lparr>timerEntryMap := map_erase timerNumber (timerEntryMap m2)\<rparr> else m2)
          in (m3, True))"

definition StopTimer :: "world \<Rightarrow> u64 \<Rightarrow> timer_manager \<Rightarrow> timer_manager \<times> bool" where
  "StopTimer w timerNumber = StopTimerInner w timerNumber False"

definition DestroyTimer :: "world \<Rightarrow> u64 \<Rightarrow> timer_manager \<Rightarrow> timer_manager \<times> bool" where
  "DestroyTimer w timerNumber = StopTimerInner w timerNumber True"

section \<open>The thread\<close>

text \<open>
  The wait: each result with whether \<open>errno\<close> is \<open>EINTR\<close>. The result is unsigned, so
  \<open>result < 0\<close> never holds.
\<close>

fun next_result :: "(u32 \<times> bool) list \<Rightarrow> (u32 \<times> (u32 \<times> bool) list) option" where
  "next_result [] = None"
| "next_result ((result, interrupted) # rs) =
     (if uint result < 0 \<and> interrupted then next_result rs else Some (result, rs))"

definition looper_time_change :: "world \<Rightarrow> u32 \<Rightarrow> int \<Rightarrow> int \<Rightarrow> timer_manager \<Rightarrow> timer_manager" where
  "looper_time_change w result nowRtc nowElapsed m =
     (if result AND TIME_CHANGED_MASK \<noteq> 0
      then let lastTimeChange = lastTimeChangeClockTime m;
               expectedClockTime = lastTimeChange +
                 ms_to_ns (duration_cast_ms nowElapsed - duration_cast_ms (lastTimeChangeRealtime m))
           in if lastTimeChange = i64_min
                 \<or> nowRtc < expectedClockTime - ms_to_ns ONE_THOUSAND
                 \<or> nowRtc > expectedClockTime + ms_to_ns ONE_THOUSAND
              then (ReBatchAllTimers w m)\<lparr>lastTimeChangeClockTime := nowRtc, lastTimeChangeRealtime := nowElapsed\<rparr>
              else m
      else m)"

definition looper_trigger :: "world \<Rightarrow> u32 \<Rightarrow> int \<Rightarrow> timer_manager \<Rightarrow> timer_manager option" where
  "looper_trigger w result nowElapsed m =
     (if result \<noteq> TIME_CHANGED_MASK
      then case TriggerTimersLocked w [] nowElapsed m of
             None \<Rightarrow> None
           | Some (triggerList, hasWakeup, m1) \<Rightarrow>
               Some (RescheduleKernelTimerLocked w (DeliverTimersLocked triggerList m1))
      else Some (RescheduleKernelTimerLocked w m))"

definition looper_iteration :: "world \<Rightarrow> u32 \<Rightarrow> timer_manager \<Rightarrow> timer_manager option" where
  "looper_iteration w result m =
     (let t = ticks m; m1 = m\<lparr>ticks := t + 2\<rparr>;
          nowRtc = w_system_now w t; nowElapsed = GetBootTimeNs w (t + 1)
      in looper_trigger w result nowElapsed (looper_time_change w result nowRtc nowElapsed m1))"

lemma next_result_length: "next_result rs = Some (r, rest) \<Longrightarrow> length rest < length rs"
  by (induction rs rule: next_result.induct) (auto split: if_splits)

text \<open>\<open>runFlag_\<close> stays true: the thread runs as long as results come.\<close>

function TimerLooper :: "world \<Rightarrow> (u32 \<times> bool) list \<Rightarrow> timer_manager \<Rightarrow> timer_manager option" where
  "TimerLooper w results m =
     (case next_result results of
        None \<Rightarrow> Some m
      | Some (result, rest) \<Rightarrow>
          (case looper_iteration w result m of
             None \<Rightarrow> None
           | Some m1 \<Rightarrow> TimerLooper w rest m1))"
  by pat_completeness auto

termination
  by (relation "measure (\<lambda>(w, rs, m). length rs)") (auto dest: next_result_length)

declare TimerLooper.simps [simp del]

lemma next_result_Cons: "next_result (r # rs) = Some (fst r, rs)"
  by (cases r) simp

lemma TimerLooper_simps [simp]:
  "TimerLooper w [] m = Some m"
  "TimerLooper w (r # rs) m =
     (case looper_iteration w (fst r) m of None \<Rightarrow> None | Some m1 \<Rightarrow> TimerLooper w rs m1)"
  by (subst TimerLooper.simps, simp add: next_result_Cons)+

section \<open>Dumps\<close>

definition newline :: string where "newline = [CHR 0x0A]"

text \<open>The text that is written for one entry of the table.\<close>

definition dump_entry :: "u64 \<Rightarrow> timer_entry \<Rightarrow> string" where
  "dump_entry key e =
     '' - dump timer number   = '' @ show_nat (unat key) @ newline @
     '' * timer id            = '' @ show_nat (unat (te_id e)) @ newline @
     '' * timer type          = '' @ show_int (sint (te_type e)) @ newline @
     '' * timer window Length = '' @ show_nat (unat (te_windowLength e)) @ newline @
     '' * timer interval      = '' @ show_nat (unat (te_interval e)) @ newline @
     '' * timer uid           = '' @ show_int (te_uid e) @ newline @ newline"

definition ShowtimerEntryMap :: "timer_manager \<Rightarrow> string \<times> bool" where
  "ShowtimerEntryMap m = (concat (map (\<lambda>(key, e). dump_entry key e) (timerEntryMap m)), True)"

definition ShowTimerEntryById :: "u64 \<Rightarrow> timer_manager \<Rightarrow> string \<times> bool" where
  "ShowTimerEntryById timerId m =
     (case map_find (timerEntryMap m) timerId of
        None \<Rightarrow> ([], False)
      | Some e \<Rightarrow> (dump_entry timerId e, True))"

definition ShowTimerTriggerById :: "u64 \<Rightarrow> timer_manager \<Rightarrow> string \<times> bool" where
  "ShowTimerTriggerById timerId m =
     (concat (map (\<lambda>batch. concat (map (\<lambda>a.
          if ti_id a = timerId
          then '' - dump timer id   = '' @ show_nat (unat (ti_id a)) @ newline @
               '' * timer trigger   = '' @ show_int (ti_origWhen a) @ newline
          else []) (b_alarms batch))) (alarmBatches m)), True)"

end
