(* ===== verification/Timer_Reach.thy ===== *)
theory Timer_Reach
  imports Timer_Looper
begin

text \<open>
  The states the timer manager reaches: \<open>step\<close> has a rule for every public operation and
  two for the thread, \<open>reachable\<close> closes them from the constructor's state, and
  \<open>manager_inv\<close> holds in every reachable state. The order of the batches is not part of it:
  \<open>RemoveLocked\<close> can break it (\<open>Batch::Remove\<close> may move a start back), and it is kept by
  every other operation.
\<close>

section \<open>The number of a new timer\<close>

lemma draw_nonzero: "draw random pos = Some (n, p) \<Longrightarrow> n \<noteq> 0"
proof -
  have "fst y \<noteq> 0" if "draw random pos = Some y" for y
    by (rule draw.raw_induct [where P = "\<lambda>_ _ y. fst y \<noteq> 0", OF _ that])
      (auto simp: Let_def split: if_splits)
  then show "draw random pos = Some (n, p) \<Longrightarrow> n \<noteq> 0" by fastforce
qed

lemma draw_returns: "random k \<noteq> 0 \<Longrightarrow> pos \<le> k \<Longrightarrow> \<exists>n p. draw random pos = Some (n, p) \<and> pos < p \<and> p \<le> Suc k"
proof (induction "k - pos" arbitrary: pos)
  case (Suc d)
  show ?case
  proof (cases "random pos = 0")
    case True
    then obtain n p where "draw random (Suc pos) = Some (n, p)" "Suc pos < p" "p \<le> Suc k"
      using Suc.hyps(1) [of "Suc pos"] Suc.hyps(2) Suc.prems by fastforce
    with True show ?thesis by (subst draw.simps) (simp add: Let_def)
  next
    case False
    with Suc.prems show ?thesis by (subst draw.simps) (simp add: Let_def)
  qed
qed (subst draw.simps, simp add: Let_def)

section \<open>Steps\<close>

inductive step :: "world \<Rightarrow> timer_manager \<Rightarrow> timer_manager \<Rightarrow> bool" for w where
  create: "in_i32 uid \<Longrightarrow> CreateTimer w type wl iv fl cb uid m = Some (m', n) \<Longrightarrow> step w m m'"
| start: "step w m (fst (StartTimer w n t m))"
| stop: "step w m (fst (StopTimer w n m))"
| destroy: "step w m (fst (DestroyTimer w n m))"
| proxy: "step w m (fst (ProxyTimer uid isProxy needRetrigger m))"
| reset: "step w m (fst (ResetAllProxy m))"
| clock: "step w m (looper_time_change w result nowRtc nowElapsed (m\<lparr>ticks := k\<rparr>))"
| trigger: "looper_trigger w result nowElapsed m = Some m' \<Longrightarrow> step w m m'"

inductive reachable :: "world \<Rightarrow> timer_manager \<Rightarrow> bool" for w where
  init: "reachable w TimerManager"
| step: "reachable w m \<Longrightarrow> step w m m' \<Longrightarrow> reachable w m'"

section \<open>The invariant\<close>

text \<open>Every alarm belongs to the registered timer of its id and calls that timer's callback.\<close>

definition belongs :: "(u64, timer_entry) std_map \<Rightarrow> timer_info \<Rightarrow> bool" where
  "belongs es a \<longleftrightarrow>
     (\<exists>e. map_find es (ti_id a) = Some e \<and> ti_callback a = te_callback e \<and> ti_type a = te_type e \<and>
        ti_uid a = te_uid e \<and> ti_flags a = te_flag e)"

definition entries_inv :: "(u64, timer_entry) std_map \<Rightarrow> bool" where
  "entries_inv es \<longleftrightarrow> map_ok es \<and>
     (\<forall>k e. map_find es k = Some e \<longrightarrow> te_id e = k \<and> k \<noteq> 0 \<and> in_i32 (te_uid e))"

definition manager_inv :: "timer_manager \<Rightarrow> bool" where
  "manager_inv m \<longleftrightarrow>
     (\<forall>b \<in> set (alarmBatches m). batch_inv b) \<and> entries_inv (timerEntryMap m) \<and> proxy_inv m \<and>
     (\<forall>a \<in># scheduled m. belongs (timerEntryMap m) a)"

lemma same_registry_inv:
  "same_registry m m' \<Longrightarrow> manager_inv m \<Longrightarrow> \<forall>b \<in> set (alarmBatches m'). batch_inv b \<Longrightarrow>
    \<forall>a \<in># scheduled m'. belongs (timerEntryMap m) a \<Longrightarrow> manager_inv m'"
  by (simp add: manager_inv_def same_registry_def proxy_inv_cong [of m' m])

lemma manager_inv_init: "manager_inv TimerManager"
  by (simp add: manager_inv_def TimerManager_def entries_inv_def proxy_inv_def scheduled_def)

lemma belongs_readded: "readded a a' \<Longrightarrow> belongs es a \<Longrightarrow> belongs es a'"
  by (auto simp: readded_def belongs_def)

lemma belongs_next: "entries_inv es \<Longrightarrow> belongs es a \<Longrightarrow> belongs es (next_alarm now a)"
  by (auto simp: belongs_def entries_inv_def next_alarm_def Let_def uid_narrow)

lemma entries_inv_insert:
  "entries_inv es \<Longrightarrow> te_id e = n \<Longrightarrow> n \<noteq> 0 \<Longrightarrow> in_i32 (te_uid e) \<Longrightarrow> entries_inv (map_insert n e es)"
  by (auto simp: entries_inv_def map_ok_insert map_find_insert)

text \<open>An entry that is there stays: registration never overwrites.\<close>

lemma belongs_insert: "belongs es a \<Longrightarrow> belongs (map_insert n e es) a"
  by (auto simp: belongs_def map_find_insert)

lemma inv_create:
  assumes "manager_inv m" "in_i32 uid" "CreateTimer w type wl iv fl cb uid m = Some (m', n)"
  shows "manager_inv m'"
proof -
  let ?e = "\<lparr>te_id = n, te_type = type, te_windowLength = wl, te_interval = iv, te_flag = fl,
    te_callback = cb, te_uid = uid\<rparr>"
  obtain p where "draw (w_random w) (randomPos m) = Some (n, p)"
    and m': "m' = m\<lparr>randomPos := p, timerEntryMap := map_insert n ?e (timerEntryMap m)\<rparr>"
    using assms(3) by (auto simp: CreateTimer_def Let_def split: option.splits)
  then show ?thesis
    using assms(1,2) draw_nonzero
    by (auto simp: manager_inv_def m' entries_inv_insert belongs_insert scheduled_def proxy_inv_def)
qed

lemma inv_start: "manager_inv m \<Longrightarrow> manager_inv (fst (StartTimer w n t m))"
proof (cases "map_find (timerEntryMap m) n")
  case (Some e)
  assume inv: "manager_inv m"
  then have e: "te_id e = n" "in_i32 (te_uid e)" using Some by (auto simp: manager_inv_def entries_inv_def)
  define m' where "m' = SetHandler w (te_id e) (te_type e) t (te_windowLength e) (te_interval e) (te_flag e)
      (te_callback e) (te_uid e) m"
  have "alarmBatches m' = alarmBatches m \<or>
      (\<exists>a. belongs (timerEntryMap m) a \<and> alarmBatches m' = insert_and_batch a (alarmBatches m))"
    using SetHandler_batches [of w "te_id e" "te_type e" t "te_windowLength e" "te_interval e" "te_flag e"
        "te_callback e" "te_uid e" m, folded m'_def]
  proof (elim disjE exE conjE)
    fix a assume "request_of (te_id e) (te_type e) t (te_flag e) (te_callback e) a"
      "ti_uid a = sint (ucast (word_of_int (te_uid e) :: u64) :: i32)"
      "alarmBatches m' = insert_and_batch a (alarmBatches m)"
    moreover from this e Some have "belongs (timerEntryMap m) a"
      by (auto simp: belongs_def request_of_def uid_narrow)
    ultimately show ?thesis by blast
  qed simp
  then have "(\<forall>b \<in> set (alarmBatches m'). batch_inv b) \<and> (\<forall>a \<in># scheduled m'. belongs (timerEntryMap m) a)"
    using inv batch_inv_insert [of "alarmBatches m"]
    by (auto simp: manager_inv_def scheduled_def scheduled_in_insert)
  with inv have "manager_inv m'"
    using same_registry_inv [of m m'] unfolding m'_def by (blast intro: SetHandler_frame)
  with Some show ?thesis by (simp add: StartTimer_def m'_def)
qed (simp add: StartTimer_def)

lemma inv_remove: "manager_inv m \<Longrightarrow> manager_inv (RemoveHandler w n m)"
  by (rule same_registry_inv [OF Remove_frame])
    (auto simp: manager_inv_def dest!: Remove_scheduled intro: belongs_readded Remove_batch_inv [rule_format])

lemma inv_remove_proxy: "manager_inv m \<Longrightarrow> manager_inv (RemoveProxy n uid m)"
  by (simp add: manager_inv_def proxy_inv_RemoveProxy scheduled_def)

lemma inv_erase:
  "manager_inv m \<Longrightarrow> \<forall>a \<in># scheduled m. ti_id a \<noteq> n \<Longrightarrow> manager_inv (m\<lparr>timerEntryMap := map_erase n (timerEntryMap m)\<rparr>)"
  by (auto simp: manager_inv_def entries_inv_def map_ok_erase belongs_def scheduled_def proxy_inv_def)

lemma inv_stop: "manager_inv m \<Longrightarrow> manager_inv (fst (StopTimerInner w n d m))"
proof (cases "map_find (timerEntryMap m) n")
  case (Some e)
  assume "manager_inv m"
  then have inv: "manager_inv (RemoveProxy n (te_uid e) (RemoveHandler w n m))"
    by (intro inv_remove_proxy inv_remove)
  have none: "\<forall>a \<in># scheduled (RemoveProxy n (te_uid e) (RemoveHandler w n m)). ti_id a \<noteq> n"
    by (auto simp: scheduled_def [of "RemoveProxy _ _ _"] scheduled_def [symmetric] dest: Remove_none)
  show ?thesis using inv inv_erase [OF inv none] Some by (simp add: StopTimerInner_def Let_def)
qed (simp add: StopTimerInner_def)

lemma inv_proxy: "manager_inv m \<Longrightarrow> manager_inv (fst (ProxyTimer uid p r m))"
  by (simp add: manager_inv_def proxy_inv_ProxyTimer scheduled_def)

lemma inv_reset: "manager_inv m \<Longrightarrow> manager_inv (fst (ResetAllProxy m))"
  by (simp add: manager_inv_def proxy_inv_Reset scheduled_def)

lemma inv_rebatch: "manager_inv m \<Longrightarrow> manager_inv (ReBatchAllTimersLocked w d m)"
  using ReBatch_inv [of w d m]
  by (intro same_registry_inv [OF ReBatch_frame])
    (auto simp: manager_inv_def batches_inv_def dest!: ReBatch_scheduled intro: belongs_readded)

lemma inv_field_updates [simp]:
  "manager_inv (m\<lparr>ticks := k\<rparr>) = manager_inv m"
  "manager_inv (m\<lparr>lastTimeChangeClockTime := x, lastTimeChangeRealtime := y\<rparr>) = manager_inv m"
  by (simp_all add: manager_inv_def scheduled_def proxy_inv_def)

lemma inv_clock: "manager_inv m \<Longrightarrow> manager_inv (looper_time_change w r rtc el m)"
  by (simp add: looper_time_change_def Let_def ReBatchAllTimers_def inv_rebatch)

lemma inv_reschedule: "manager_inv m \<Longrightarrow> manager_inv (RescheduleKernelTimerLocked w m)"
  by (rule same_registry_inv [OF same_registry_Reschedule]) (auto simp: manager_inv_def)

lemma inv_deliver: "manager_inv m \<Longrightarrow> manager_inv (DeliverTimersLocked as m)"
  by (simp add: manager_inv_def proxy_inv_Deliver scheduled_def)

lemma inv_trigger:
  assumes "manager_inv m" "looper_trigger w r now m = Some m'"
  shows "manager_inv m'"
proof (cases "r = TIME_CHANGED_MASK")
  case False
  then obtain ts hw m1 where t: "TriggerTimersLocked w [] now m = Some (ts, hw, m1)"
    and m': "m' = RescheduleKernelTimerLocked w (DeliverTimersLocked ts m1)"
    using assms(2) by (auto simp: looper_trigger_def split: option.splits)
  have "manager_inv m1"
    using assms(1) Trigger_batch_inv [OF t]
      Trigger_kept [OF t, of "belongs (timerEntryMap m)"] belongs_next
    by (intro same_registry_inv [OF Trigger_frame [OF t]]) (auto simp: manager_inv_def)
  then show ?thesis by (simp add: m' inv_reschedule inv_deliver)
qed (use assms in \<open>simp add: looper_trigger_def, blast intro: inv_reschedule\<close>)

lemma inv_step: "step w m m' \<Longrightarrow> manager_inv m \<Longrightarrow> manager_inv m'"
  by (induction rule: step.induct)
    (auto simp: StopTimer_def DestroyTimer_def
      intro: inv_create inv_start inv_stop inv_proxy inv_reset inv_clock inv_trigger)

lemma reachable_inv: "reachable w m \<Longrightarrow> manager_inv m"
  by (induction rule: reachable.induct) (auto intro: manager_inv_init inv_step)

inductive_cases reachable_cases: "reachable w m"

inductive_simps step_simps: "step w m m'"

section \<open>Timers that are gone\<close>

text \<open>A timer is gone when it is not registered and no alarm of it waits in a proxy's queue.\<close>

definition gone :: "u64 \<Rightarrow> timer_manager \<Rightarrow> bool" where
  "gone n m \<longleftrightarrow> map_find (timerEntryMap m) n = None \<and> (\<forall>uid. \<forall>a \<in> set (queue_of m uid). ti_id a \<noteq> n)"

definition calls_to :: "u64 \<Rightarrow> timer_manager \<Rightarrow> (timer_callback \<times> u64) list" where
  "calls_to n m = filter (\<lambda>c. snd c = n) (fired m)"

lemma gone_alt:
  "gone n m \<longleftrightarrow> map_find (timerEntryMap m) n = None \<and>
     (\<forall>uid q. map_find (proxyMap m) uid = Some q \<longrightarrow> (\<forall>a \<in> set q. ti_id a \<noteq> n))"
proof -
  have "(\<forall>a \<in> set (queue_of m uid). ti_id a \<noteq> n) \<longleftrightarrow>
      (\<forall>q. map_find (proxyMap m) uid = Some q \<longrightarrow> (\<forall>a \<in> set q. ti_id a \<noteq> n))" for uid
    by (cases "map_find (proxyMap m) uid") (simp_all add: queue_of_def)
  then show ?thesis by (simp add: gone_def)
qed

lemma calls_ids: "c \<in> set (calls as) \<Longrightarrow> \<exists>a \<in> set as. ti_id a = snd c"
  by (auto simp: calls_def call_of_def split: option.splits)

lemma no_calls: "\<forall>a \<in> set as. ti_id a \<noteq> n \<Longrightarrow> filter (\<lambda>c. snd c = n) (calls as) = []"
  by (auto simp: filter_empty_conv dest!: calls_ids)

lemma same_registry_gone:
  "same_registry m m' \<Longrightarrow> gone n m' = gone n m \<and> calls_to n m' = calls_to n m"
  by (simp add: same_registry_def gone_def calls_to_def queue_of_def)

lemma gone_proxy:
  "gone n m \<Longrightarrow> gone n (fst (ProxyTimer uid p r m)) \<and> calls_to n (fst (ProxyTimer uid p r m)) = calls_to n m"
  by (auto simp: gone_alt calls_to_def ProxyTimer_def call_back_all_eq Let_def no_calls
      split: option.splits)

lemma gone_remove_proxy:
  "gone n m \<Longrightarrow> gone n (RemoveProxy k uid m) \<and> calls_to n (RemoveProxy k uid m) = calls_to n m"
  by (auto simp: gone_alt calls_to_def RemoveProxy_def Let_def split: option.splits)

lemma gone_reset:
  assumes "manager_inv m" "gone n m"
  shows "gone n (fst (ResetAllProxy m)) \<and> calls_to n (fst (ResetAllProxy m)) = calls_to n m"
proof -
  have "\<forall>a \<in> set q. ti_id a \<noteq> n" if "(uid, q) \<in> set (proxyMap m)" for uid q
  proof -
    have "distinct (map fst (proxyMap m))"
      using assms(1) strict_sorted_iff by (auto simp: manager_inv_def proxy_inv_def map_ok_def)
    with that have "queue_of m uid = q" by (simp add: queue_of_def map_find_def)
    then show ?thesis using assms(2) by (auto simp: gone_def)
  qed
  then have "filter (\<lambda>c. snd c = n) (concat (map (calls \<circ> snd) (proxyMap m))) = []"
    by (fastforce simp: filter_empty_conv dest!: calls_ids)
  then show ?thesis
    using assms(2) by (simp add: ResetAllProxy_def reset_loop_eq gone_def calls_to_def queue_of_def)
qed

lemma Trigger_ids:
  assumes "TriggerTimersLocked w [] now m = Some (ts, hw, m')" "valid_sort ti_whenElapsed (w_sort w)"
    and "\<forall>a \<in># scheduled m. ti_id a \<noteq> n"
  shows "\<forall>a \<in> set ts. ti_id a \<noteq> n"
proof -
  obtain popped where p: "ts = w_sort w ([] @ map (triggered now) popped)"
    "run now ([], False, m) popped ([] @ map (triggered now) popped, hw, m')" using assms(1) by (rule Trigger_run)
  have "kept now m popped m'" using p(2) unfolding run_def prod.case by blast
  from keptD [OF this, of "\<lambda>a. ti_id a \<noteq> n"] assms(3) have "\<forall>a \<in> set popped. ti_id a \<noteq> n" by simp
  then show ?thesis using p(1) assms(2) by (auto simp: valid_sort_set)
qed

lemma gone_deliver:
  "gone n m \<Longrightarrow> \<forall>a \<in> set as. ti_id a \<noteq> n \<Longrightarrow>
    gone n (DeliverTimersLocked as m) \<and> calls_to n (DeliverTimersLocked as m) = calls_to n m"
  by (auto simp: gone_def calls_to_def Deliver_spec(1,2) no_calls)

lemma gone_unscheduled: "manager_inv m \<Longrightarrow> gone n m \<Longrightarrow> a \<in># scheduled m \<Longrightarrow> ti_id a \<noteq> n"
  by (auto simp: manager_inv_def gone_def belongs_def)

lemma gone_trigger:
  assumes "manager_inv m" "gone n m" "valid_sort ti_whenElapsed (w_sort w)" "looper_trigger w r now m = Some m'"
  shows "gone n m' \<and> calls_to n m' = calls_to n m"
proof (cases "r = TIME_CHANGED_MASK")
  case False
  then obtain ts hw m1 where t: "TriggerTimersLocked w [] now m = Some (ts, hw, m1)"
    and m': "m' = RescheduleKernelTimerLocked w (DeliverTimersLocked ts m1)"
    using assms(4) by (auto simp: looper_trigger_def split: option.splits)
  have "\<forall>a \<in> set ts. ti_id a \<noteq> n"
    using Trigger_ids [OF t assms(3)] gone_unscheduled [OF assms(1,2)] by blast
  moreover have "gone n m1" "calls_to n m1 = calls_to n m"
    using same_registry_gone [OF Trigger_frame [OF t]] assms(2) by auto
  ultimately show ?thesis
    using gone_deliver [of n m1 ts] same_registry_gone [OF same_registry_Reschedule] by (simp add: m')
qed (use assms in \<open>auto simp: looper_trigger_def same_registry_gone [OF same_registry_Reschedule]\<close>)

lemma gone_clock:
  "gone n m \<Longrightarrow> gone n (looper_time_change w r rtc el (m\<lparr>ticks := k\<rparr>)) \<and>
    calls_to n (looper_time_change w r rtc el (m\<lparr>ticks := k\<rparr>)) = calls_to n m"
  using same_registry_gone [OF ReBatch_frame, of n w True "m\<lparr>ticks := k\<rparr>"]
  by (auto simp: looper_time_change_def Let_def ReBatchAllTimers_def gone_def calls_to_def queue_of_def)

lemma gone_stop:
  "gone n m \<Longrightarrow> gone n (fst (StopTimerInner w k d m)) \<and> calls_to n (fst (StopTimerInner w k d m)) = calls_to n m"
proof (cases "map_find (timerEntryMap m) k")
  case (Some e)
  assume g: "gone n m"
  let ?m = "RemoveProxy k (te_uid e) (RemoveHandler w k m)"
  have "gone n ?m" "calls_to n ?m = calls_to n m"
    using g gone_remove_proxy same_registry_gone [OF Remove_frame] by auto
  moreover have "gone n (?m\<lparr>timerEntryMap := map_erase k (timerEntryMap ?m)\<rparr>)"
    "calls_to n (?m\<lparr>timerEntryMap := map_erase k (timerEntryMap ?m)\<rparr>) = calls_to n ?m"
    using \<open>gone n ?m\<close> by (auto simp: gone_def calls_to_def queue_of_def)
  ultimately show ?thesis using Some by (simp add: StopTimerInner_def Let_def)
qed (simp add: StopTimerInner_def)

lemma gone_start:
  "gone n m \<Longrightarrow> gone n (fst (StartTimer w k t m)) \<and> calls_to n (fst (StartTimer w k t m)) = calls_to n m"
  by (auto simp: StartTimer_def same_registry_gone [OF SetHandler_frame] split: option.splits)

lemma gone_step:
  assumes "step w m m'" "manager_inv m" "gone n m" "valid_sort ti_whenElapsed (w_sort w)"
    and "map_find (timerEntryMap m') n = None"
  shows "gone n m' \<and> calls_to n m' = calls_to n m"
  using assms
proof cases
  case (create uid type wl iv fl cb k)
  then show ?thesis
    using assms(3,5)
    by (auto simp: CreateTimer_def gone_alt calls_to_def Let_def split: option.splits) blast
qed (use assms in \<open>simp_all add: StopTimer_def DestroyTimer_def gone_start gone_stop gone_proxy gone_reset
      gone_clock gone_trigger\<close>)

inductive path_without :: "world \<Rightarrow> u64 \<Rightarrow> timer_manager \<Rightarrow> timer_manager \<Rightarrow> bool" for w n where
  here: "path_without w n m m"
| there: "path_without w n m m' \<Longrightarrow> step w m' m'' \<Longrightarrow> map_find (timerEntryMap m'') n = None \<Longrightarrow>
    path_without w n m m''"

lemma gone_path:
  assumes "path_without w n m m'" "manager_inv m" "gone n m" "valid_sort ti_whenElapsed (w_sort w)"
  shows "gone n m' \<and> manager_inv m' \<and> calls_to n m' = calls_to n m"
  using assms by (induction rule: path_without.induct) (auto dest: gone_step inv_step)

lemma Destroy_unregisters: "map_find (timerEntryMap (fst (DestroyTimer w n m))) n = None"
  by (auto simp: DestroyTimer_def StopTimerInner_def Let_def split: option.splits)

lemma Destroy_succeeds: "snd (DestroyTimer w n m) \<longleftrightarrow> map_find (timerEntryMap m) n \<noteq> None"
  by (auto simp: DestroyTimer_def StopTimerInner_def Let_def split: option.splits)

lemma Start_registry: "same_registry m (fst (StartTimer w n t m))"
  by (auto simp: StartTimer_def SetHandler_frame split: option.splits)

lemma RemoveProxy_none: "proxyMap m = [] \<Longrightarrow> proxyMap (RemoveProxy n uid m) = []"
  by (simp add: RemoveProxy_def)

lemma Destroy_no_queue: "proxyMap m = [] \<Longrightarrow> proxyMap (fst (DestroyTimer w n m)) = []"
  using Remove_frame [of m w n]
  by (auto simp: DestroyTimer_def StopTimerInner_def Let_def same_registry_def RemoveProxy_none split: option.splits)

end
