(* ===== verification/Batch_Bounds.thy ===== *)
theory Batch_Bounds
  imports Timer_Reach
begin

text \<open>
  What holds of every batch in every state the manager reaches: a property that \<open>Batch(seed)\<close> gives, and that
  \<open>Add\<close> and \<open>Remove\<close> keep, since the manager makes and changes batches in no other way. Such a property is
  that the start of a batch is the latest due time of its alarms and its end their earliest deadline.
\<close>

section \<open>Properties of single batches\<close>

locale batch_law =
  fixes P :: "batch \<Rightarrow> bool"
  assumes seed: "P (Batch_seed a)"
    and add: "P b \<Longrightarrow> P (fst (Add a b))"
    and remove: "P b \<Longrightarrow> b_alarms (fst (Remove_if p b)) \<noteq> [] \<Longrightarrow> P (fst (Remove_if p b))"
begin

lemma law_insert: "\<forall>b \<in> set bs. P b \<Longrightarrow> \<forall>b \<in> set (insert_and_batch a bs). P b"
  by (cases bs) (auto simp: insert_and_batch_cases seed add)

lemma law_fold_insert: "\<forall>b \<in> set bs. P b \<Longrightarrow> \<forall>b \<in> set (fold insert_and_batch as bs). P b"
  by (induction as arbitrary: bs) (auto dest: law_insert)

lemma law_readd: "\<forall>b \<in> set (alarmBatches m). P b \<Longrightarrow> \<forall>b \<in> set (alarmBatches (ReAddTimerLocked w now dv a m)). P b"
proof (cases "ConvertToElapsed w (ticks m) (ti_origWhen a) (ti_type a) < now")
  case False
  assume all: "\<forall>b \<in> set (alarmBatches m). P b"
  from False show ?thesis unfolding not_less by (rule ReAdd_keeps [of now w m a dv]) (simp add: law_insert [OF all])
qed (simp add: ReAdd_drops)

lemma law_fold_readd:
  "\<forall>b \<in> set (alarmBatches m). P b \<Longrightarrow> \<forall>b \<in> set (alarmBatches (fold (ReAddTimerLocked w now dv) as m)). P b"
  by (induction as arbitrary: m) (auto dest: law_readd)

lemma law_rebatch: "\<forall>b \<in> set (alarmBatches (ReBatchAllTimersLocked w dv m)). P b"
  unfolding ReBatch_eq by (simp, rule law_fold_readd) simp

lemma law_removed: "\<forall>b \<in> set (alarmBatches m). P b \<Longrightarrow> \<forall>b \<in> set (alarmBatches (RemoveHandler w n m)). P b"
  by (auto simp: RemoveHandler_def RemoveLocked_eq law_rebatch without_def remove_batches_fst intro!: remove)

lemma law_start: "\<forall>b \<in> set (alarmBatches m). P b \<Longrightarrow> \<forall>b \<in> set (alarmBatches (fst (StartTimer w n t m))). P b"
proof (cases "map_find (timerEntryMap m) n")
  case (Some e)
  assume "\<forall>b \<in> set (alarmBatches m). P b"
  with Some SetHandler_batches [of w "te_id e" "te_type e" t "te_windowLength e" "te_interval e" "te_flag e"
      "te_callback e" "te_uid e" m] show ?thesis
    by (elim disjE exE conjE) (simp_all add: StartTimer_def law_insert)
qed (simp add: StartTimer_def)

lemma law_stop: "\<forall>b \<in> set (alarmBatches m). P b \<Longrightarrow> \<forall>b \<in> set (alarmBatches (fst (StopTimerInner w n d m))). P b"
  using law_removed [of m w n] by (auto simp: StopTimerInner_def RemoveProxy_def Let_def split: option.splits)

lemma law_trigger_loop:
  "trigger_loop fuel w now (ts, hw, m) = Some (ts', hw', m') \<Longrightarrow> \<forall>b \<in> set (alarmBatches m). P b \<Longrightarrow>
    \<forall>b \<in> set (alarmBatches m'). P b"
proof (induction fuel arbitrary: ts hw m)
  case (Suc fuel)
  show ?case
  proof (cases "alarmBatches m = [] \<or> now < GetStart (hd (alarmBatches m))")
    case True
    with Suc.prems show ?thesis by (auto split: list.splits)
  next
    case False
    then obtain b rest where bs: "alarmBatches m = b # rest" "GetStart b \<le> now" by (cases "alarmBatches m") auto
    obtain ts1 hw1 m1 where st: "fold (trigger_alarm w now) (b_alarms b) (ts, hw, m\<lparr>alarmBatches := rest\<rparr>) = (ts1, hw1, m1)"
      by (metis prod_cases3)
    then have "alarmBatches m1 = fold insert_and_batch (map (next_alarm now) (filter repeating (b_alarms b))) rest"
      using fold_trigger [of w now "b_alarms b" ts hw "m\<lparr>alarmBatches := rest\<rparr>"] by auto
    then have "\<forall>b \<in> set (alarmBatches m1). P b" using Suc.prems(2) law_fold_insert [of rest] by (simp add: bs)
    moreover have "trigger_loop fuel w now (ts1, hw1, m1) = Some (ts', hw', m')"
      using Suc.prems(1) bs by (simp add: st)
    ultimately show ?thesis using Suc.IH by blast
  qed
qed simp

lemma law_trigger:
  "looper_trigger w r now m = Some m' \<Longrightarrow> \<forall>b \<in> set (alarmBatches m). P b \<Longrightarrow> \<forall>b \<in> set (alarmBatches m'). P b"
  by (auto simp: looper_trigger_def TriggerTimersLocked_def split: option.splits prod.splits if_splits dest!: law_trigger_loop)

lemma law_step: "step w m m' \<Longrightarrow> \<forall>b \<in> set (alarmBatches m). P b \<Longrightarrow> \<forall>b \<in> set (alarmBatches m'). P b"
proof (induction rule: step.induct)
  case (clock m result nowRtc nowElapsed k)
  then show ?case using law_rebatch by (simp add: looper_time_change_def ReBatchAllTimers_def Let_def)
qed (auto simp: CreateTimer_def StopTimer_def DestroyTimer_def ProxyTimer_def ResetAllProxy_def call_back_all_eq
    reset_loop_eq Let_def split: option.splits dest: law_start law_stop law_trigger)

lemma law_reachable: "reachable w m \<Longrightarrow> b \<in> set (alarmBatches m) \<Longrightarrow> P b"
proof (induction arbitrary: b rule: reachable.induct)
  case (step m m')
  then show ?case using law_step by blast
qed (simp add: TimerManager_def)

end

section \<open>The start and the end of a batch\<close>

text \<open>
  Exactly the latest due time and the earliest deadline, each as long as the times are values of a 64-bit
  \<open>time_point\<close>, as all of them are in the code: the loop of \<open>Remove\<close> begins with the least and the greatest.
\<close>

definition batch_bounds :: "batch \<Rightarrow> bool" where
  "batch_bounds b \<longleftrightarrow> b_alarms b \<noteq> [] \<and>
     ((\<forall>a \<in> set (b_alarms b). i64_min \<le> ti_whenElapsed a) \<longrightarrow>
        GetStart b = Max (ti_whenElapsed ` set (b_alarms b))) \<and>
     ((\<forall>a \<in> set (b_alarms b). ti_maxWhenElapsed a \<le> i64_max) \<longrightarrow>
        GetEnd b = Min (ti_maxWhenElapsed ` set (b_alarms b)))"

lemma fold_max_Max: "xs \<noteq> [] \<Longrightarrow> \<forall>x \<in> set xs. s \<le> x \<Longrightarrow> fold max xs s = Max (set xs)" for s :: int
  using fold_max_in [of xs s] by (intro Max_eqI [symmetric]) (auto simp: fold_max_eq)

lemma fold_min_Min: "xs \<noteq> [] \<Longrightarrow> \<forall>x \<in> set xs. x \<le> s \<Longrightarrow> fold min xs s = Min (set xs)" for s :: int
  using fold_min_in [of xs s] by (intro Min_eqI [symmetric]) (auto simp: fold_min_eq)

interpretation bounds: batch_law batch_bounds
proof
  show "batch_bounds (Batch_seed a)" for a by (simp add: batch_bounds_def GetStart_def GetEnd_def)
  show "batch_bounds (fst (Add a b))" if "batch_bounds b" for a b
    using that by (auto simp: batch_bounds_def GetStart_def GetEnd_def alarm_order.set_ins max.commute min.commute)
  show "batch_bounds (fst (Remove_if p b))" if "batch_bounds b" "b_alarms (fst (Remove_if p b)) \<noteq> []" for p b
  proof (cases "list_ex p (b_alarms b)")
    case True
    let ?as = "filter (\<lambda>a. \<not> p a) (b_alarms b)"
    from that(2) have ne: "?as \<noteq> []" by simp
    have "b_start (fst (Remove_if p b)) = Max (ti_whenElapsed ` set ?as)" if "\<forall>a \<in> set ?as. i64_min \<le> ti_whenElapsed a"
      using that ne fold_max_Max [of "map ti_whenElapsed ?as" i64_min] by (simp add: Remove_if_some [OF True])
    moreover have "b_end (fst (Remove_if p b)) = Min (ti_maxWhenElapsed ` set ?as)" if "\<forall>a \<in> set ?as. ti_maxWhenElapsed a \<le> i64_max"
      using that ne fold_min_Min [of "map ti_maxWhenElapsed ?as" i64_max] by (simp add: Remove_if_some [OF True])
    ultimately show ?thesis using ne unfolding batch_bounds_def GetStart_def GetEnd_def Remove_if_sel by blast
  next
    case False
    then show ?thesis using that(1) by (simp add: Remove_if_none)
  qed
qed

end
