(* ===== verification/Timer_Properties.thy ===== *)
theory Timer_Properties
  imports Batch_Bounds
begin

text \<open>
  What the timer manager guarantees, over the lemmas of its parts: the invariant of the
  reachable states, the run of \<open>TriggerTimersLocked\<close> (it ends, nothing early, nothing left
  due, nothing lost), delivery with and without a proxy, stopping and destroying, the
  correction of a request, re-batching, and the kernel timers; and two runs that show where
  the code departs from what its callers expect.
\<close>

section \<open>Concrete states for the witnesses\<close>

definition sample_alarm :: "u64 \<Rightarrow> int \<Rightarrow> int \<Rightarrow> int \<Rightarrow> timer_info" where
  "sample_alarm i ms window interval =
     TimerInfo i ELAPSED_REALTIME_WAKEUP ms (ms_to_ns ms) window (ms_to_ns (ms + window)) interval
       (Some (Notify_Remote (unat i))) 0 100"

definition sample_state :: "batch list \<Rightarrow> timer_manager" where
  "sample_state bs = TimerManager\<lparr>alarmBatches := bs\<rparr>"

lemma sample_state_sel [simp]:
  "alarmBatches (sample_state bs) = bs" "proxyUids (sample_state bs) = {}" "fired (sample_state bs) = []"
  "scheduled (sample_state bs) = scheduled_in bs" "timerEntryMap (sample_state bs) = []" "ticks (sample_state bs) = 0"
  by (simp_all add: sample_state_def TimerManager_def scheduled_def)

lemma sample_alarm_sel [simp]:
  "ti_id (sample_alarm i ms wn iv) = i" "ti_whenElapsed (sample_alarm i ms wn iv) = ms_to_ns ms"
  "ti_expectedWhenElapsed (sample_alarm i ms wn iv) = ms_to_ns ms" "ti_repeatInterval (sample_alarm i ms wn iv) = iv"
  "ti_maxWhenElapsed (sample_alarm i ms wn iv) = ms_to_ns (ms + wn)" "ti_flags (sample_alarm i ms wn iv) = 0"
  "ti_type (sample_alarm i ms wn iv) = ELAPSED_REALTIME_WAKEUP" "ti_origWhen (sample_alarm i ms wn iv) = ms"
  by (simp_all add: sample_alarm_def)

section \<open>Reachable states\<close>

text \<open>C2. Every state that operations and iterations of the thread reach is consistent: each batch is not empty,
  ordered by due time, with its start exactly the latest due time and its end exactly the earliest deadline of its
  alarms, and every alarm belongs to a registered timer. In detail, a batch also has the union of its
  alarms' flags, and its start and end are attained for times that fit 64 bits (and are bounds whatever they
  are); entries are keyed by their
  own id, which is not 0; only proxied uids have a queue, with their own alarms in it; and every
  scheduled alarm belongs to the registered timer of its id and has that timer's callback, type,
  flags and uid.\<close>

theorem reachable_states_ok:
  "reachable w m \<Longrightarrow> manager_inv m \<and> (\<forall>b \<in> set (alarmBatches m). batch_bounds b)"
  by (blast intro: reachable_inv bounds.law_reachable)

text \<open>
  A run for the example: three timers, two of which share a batch, and the second of them is stopped. Its
  batch goes back to the window of the alarm that is left.
\<close>

definition sample_entry :: "u64 \<Rightarrow> u64 \<Rightarrow> timer_entry" where
  "sample_entry n windowLength = \<lparr>te_id = n, te_type = ELAPSED_REALTIME_WAKEUP, te_windowLength = windowLength,
     te_interval = 0, te_flag = 0, te_callback = Some (Notify_Remote (unat n)), te_uid = 100\<rparr>"

definition three_created :: timer_manager where
  "three_created = TimerManager\<lparr>randomPos := 4,
     timerEntryMap := [(1, sample_entry 1 20000), (2, sample_entry 2 0), (3, sample_entry 3 0)]\<rparr>"

definition two_left :: timer_manager where
  "two_left = fst (StopTimer sample_world 2 (fst (StartTimer sample_world 3 900000
     (fst (StartTimer sample_world 2 210000 (fst (StartTimer sample_world 1 200000 three_created)))))))"

lemma sample_creates:
  assumes "draw of_nat (randomPos m) = Some (n, p)" "reachable sample_world m"
  shows "reachable sample_world (m\<lparr>randomPos := p, timerEntryMap := map_insert n (sample_entry n wl) (timerEntryMap m)\<rparr>)"
  by (rule reachable.step [OF assms(2) step.create [of 100 _ ELAPSED_REALTIME_WAKEUP wl 0 0 "Some (Notify_Remote (unat n))"]])
    (use assms(1) in \<open>simp_all add: in_i32_def CreateTimer_def sample_entry_def Let_def\<close>)

lemma three_created_reachable: "reachable sample_world three_created"
proof -
  have d: "draw of_nat 0 = Some (1, 2)" "draw of_nat 2 = Some (2, 3)" "draw of_nat 3 = Some (3, 4)"
    by (subst draw.simps, simp, subst draw.simps, simp) (subst draw.simps, simp)+
  have "reachable sample_world (TimerManager\<lparr>randomPos := 2, timerEntryMap := [(1, sample_entry 1 20000)]\<rparr>)"
    using sample_creates [of TimerManager 1 2 20000] d(1) reachable.init by (simp add: TimerManager_def map_insert_def)
  from sample_creates [OF _ this, of 2 3 0] d(2)
  have "reachable sample_world (TimerManager\<lparr>randomPos := 3, timerEntryMap := [(1, sample_entry 1 20000), (2, sample_entry 2 0)]\<rparr>)"
    by (simp add: map_insert_def map_find_def)
  from sample_creates [OF _ this, of 3 4 0] d(3) show ?thesis by (simp add: three_created_def map_insert_def map_find_def)
qed

lemma sample_start:
  assumes "map_find (timerEntryMap m) n = Some (sample_entry n wl)" "105000 \<le> sint t" "0 \<le> sint wl" "sint wl \<le> 43200000"
  obtains a where "alarmBatches (fst (StartTimer sample_world n t m)) = insert_and_batch a (alarmBatches m)"
    "ti_id a = n" "ti_flags a = 0" "ti_whenElapsed a = ms_to_ns (sint t)" "ti_maxWhenElapsed a = ms_to_ns (sint t + sint wl)"
proof -
  have "GetBootTimeNs sample_world (ticks m + 1) \<le> ConvertToElapsed sample_world (ticks m + 2) (sint t) ELAPSED_REALTIME_WAKEUP"
    using assms(2) by (simp add: ConvertToElapsed_def timer_type_defs ms_to_ns_def)
  then show thesis
    by (rule SetHandler_accepts [of _ _ _ _ n wl 0 0 "Some (Notify_Remote (unat n))" 100], intro that)
      (use assms in \<open>simp_all add: StartTimer_def sample_entry_def request_of_def ConvertToElapsed_def timer_type_defs
        ms_to_ns_def window_duration_def timer_constants\<close>)
qed

lemma two_left_batches:
  obtains b c a where "reachable sample_world two_left" "alarmBatches two_left = [b, c]" "b_alarms b = [a]" "ti_id a = 1"
    "ti_whenElapsed a = ms_to_ns 200000" "ti_maxWhenElapsed a = ms_to_ns 220000"
proof -
  define m1 where "m1 = fst (StartTimer sample_world 1 200000 three_created)"
  define m2 where "m2 = fst (StartTimer sample_world 2 210000 m1)"
  define m3 where "m3 = fst (StartTimer sample_world 3 900000 m2)"
  have reg: "timerEntryMap m3 = timerEntryMap three_created" "timerEntryMap m2 = timerEntryMap three_created"
    "timerEntryMap m1 = timerEntryMap three_created"
    using Start_registry [of three_created sample_world 1 200000] Start_registry [of m1 sample_world 2 210000]
      Start_registry [of m2 sample_world 3 900000] by (simp_all add: m1_def m2_def m3_def same_registry_def)
  have e: "map_find (timerEntryMap three_created) 1 = Some (sample_entry 1 20000)"
    "map_find (timerEntryMap three_created) 2 = Some (sample_entry 2 0)"
    "map_find (timerEntryMap three_created) 3 = Some (sample_entry 3 0)" "alarmBatches three_created = []"
    by (simp_all add: three_created_def map_find_def TimerManager_def)
  obtain a1 where a1: "alarmBatches m1 = insert_and_batch a1 []" "ti_id a1 = 1" "ti_flags a1 = 0"
      "ti_whenElapsed a1 = ms_to_ns 200000" "ti_maxWhenElapsed a1 = ms_to_ns 220000"
    by (rule sample_start [of three_created 1 20000 200000]) (simp_all add: e m1_def)
  obtain a2 where a2: "alarmBatches m2 = insert_and_batch a2 (alarmBatches m1)" "ti_id a2 = 2" "ti_flags a2 = 0"
      "ti_whenElapsed a2 = ms_to_ns 210000" "ti_maxWhenElapsed a2 = ms_to_ns 210000"
    by (rule sample_start [of m1 2 0 210000]) (simp_all add: e reg m2_def)
  obtain a3 where a3: "alarmBatches m3 = insert_and_batch a3 (alarmBatches m2)" "ti_id a3 = 3" "ti_flags a3 = 0"
      "ti_whenElapsed a3 = ms_to_ns 900000" "ti_maxWhenElapsed a3 = ms_to_ns 900000"
    by (rule sample_start [of m2 3 0 900000]) (simp_all add: e reg m3_def)
  note batching = insert_and_batch_cases AddBatchLocked_def upper_bound_def ub_search.simps list_insert_def GetStart_def
    GetFlags_def CanHold_def STANDALONE_def ms_to_ns_def
  define b where "b = fst (Add a2 (Batch_seed a1))"
  have b: "b_alarms b = [a1, a2]" "b_start b = ms_to_ns 210000" "b_end b = ms_to_ns 210000"
    by (simp_all add: b_def a1 a2 insert_alarm_def upper_bound_def ub_search.simps list_insert_def ms_to_ns_def)
  have "alarmBatches m1 = [Batch_seed a1]" by (simp add: a1 batching)
  then have "alarmBatches m2 = [b]" by (simp add: a1 a2 b_def batching)
  then have bs: "alarmBatches m3 = [b, Batch_seed a3]" using b by (simp add: a3 batching)
  have "alarmBatches two_left = without 2 (alarmBatches m3)"
    by (simp add: two_left_def m1_def [symmetric] m2_def [symmetric] m3_def [symmetric] StopTimer_def StopTimerInner_def
        reg e RemoveHandler_def RemoveLocked_eq bs a3(2) RemoveProxy_def Let_def split: option.split)
  also have "\<dots> = [fst (Remove_if (\<lambda>a. ti_id a = 2) b), Batch_seed a3]"
    unfolding without_def remove_batches_fst bs
    using Remove_if_none [of "\<lambda>a. ti_id a = 2" "Batch_seed a3"] b(1) by (simp add: a1(2) a3(2))
  finally have "alarmBatches two_left = [fst (Remove_if (\<lambda>a. ti_id a = 2) b), Batch_seed a3]" .
  moreover have "reachable sample_world two_left"
    unfolding two_left_def by (intro three_created_reachable reachable.step [OF _ step.start] reachable.step [OF _ step.stop])
  moreover have "b_alarms (fst (Remove_if (\<lambda>a. ti_id a = 2) b)) = [a1]" by (simp add: a1(2) a2(2) b(1))
  ultimately show thesis using that a1(2,4,5) by blast
qed

theorem reachable_states_ok_witness:
  "\<exists>b c. alarmBatches two_left = [b, c] \<and> map ti_id (b_alarms b) = [1] \<and>
    GetStart b = ms_to_ns 200000 \<and> GetEnd b = ms_to_ns 220000 \<and> manager_inv two_left"
proof -
  obtain b c a where b: "reachable sample_world two_left" "alarmBatches two_left = [b, c]" "b_alarms b = [a]" "ti_id a = 1"
    "ti_whenElapsed a = ms_to_ns 200000" "ti_maxWhenElapsed a = ms_to_ns 220000" by (rule two_left_batches)
  from reachable_states_ok [OF b(1)] b(2-) show ?thesis
    by (simp add: batch_bounds_def i64_min_def i64_max_def ms_to_ns_def)
qed

section \<open>The run of the trigger loop\<close>

text \<open>C17. \<open>TriggerTimersLocked\<close> returns: with times within 18 years of boot (36 for next times)
  and intervals of at most a year, the fuel of the model, one round per batch and per alarm, is
  enough, whatever order the batches are in and however far re-batching moved the alarms.\<close>

theorem Trigger_terminates:
  assumes "now_ok now" "\<forall>b \<in> set (alarmBatches m). batch_inv b" "\<forall>a \<in># scheduled m. alarm_ok a"
  shows "\<exists>triggerList hasWakeup m'. TriggerTimersLocked w ts now m = Some (triggerList, hasWakeup, m')"
  by (rule Trigger_returns [OF assms])

theorem Trigger_terminates_witness:
  "\<exists>triggerList hasWakeup m'. TriggerTimersLocked sample_world [] (ms_to_ns 9000)
     (sample_state [Batch_seed (sample_alarm 1 5000 0 1000)]) = Some (triggerList, hasWakeup, m')"
  by (rule Trigger_terminates)
    (simp_all add: now_ok_def alarm_ok_def stale_def MAX_INTERVAL_def ms_to_ns_def)

text \<open>C5. Nothing fires early and nothing stays due: every alarm that \<open>TriggerTimersLocked\<close> hands
  over has come due, they are handed over in order of their due times, \<open>hasWakeup\<close> says whether one
  of them wakes the device; and when the batches were in order, they are in order again and none that is left
  has come due.\<close>

theorem Trigger_exactly_due:
  assumes "valid_sort ti_whenElapsed (w_sort w)" "\<forall>b \<in> set (alarmBatches m). batch_inv b"
    and "TriggerTimersLocked w [] now m = Some (ts, hw, m')"
  shows "(\<forall>a \<in> set ts. ti_whenElapsed a \<le> now) \<and> sorted (map ti_whenElapsed ts) \<and>
    (hw \<longleftrightarrow> (\<exists>a \<in> set ts. ti_wakeup a)) \<and>
    (batches_inv (alarmBatches m) \<longrightarrow> due now (alarmBatches m') = [] \<and> batches_inv (alarmBatches m'))"
  using Trigger_facts [OF assms] by blast

lemma trigger_loop_numeral [simp]:
  "trigger_loop (numeral k) w now (ts, hw, m) =
     (case alarmBatches m of
        [] \<Rightarrow> Some (ts, hw, m)
      | batch # rest \<Rightarrow>
          if GetStart batch > now then Some (ts, hw, m)
          else trigger_loop (pred_numeral k) w now
                 (fold (trigger_alarm w now) (b_alarms batch) (ts, hw, m\<lparr>alarmBatches := rest\<rparr>)))"
  by (simp add: numeral_eq_Suc)

lemma sample_trigger_eq:
  "TriggerTimersLocked sample_world [] (ms_to_ns 9000)
     (sample_state [Batch_seed (sample_alarm 1 5000 0 0), Batch_seed (sample_alarm 2 9500 0 0)]) =
   Some ([triggered (ms_to_ns 9000) (sample_alarm 1 5000 0 0)], True,
         sample_state [Batch_seed (sample_alarm 2 9500 0 0)])"
  by (simp add: TriggerTimersLocked_def trigger_fuel_def trigger_alarm_eq repeating_def GetStart_def
      ms_to_ns_def sample_state_def sample_alarm_def TimerManager_def scheduled_def)

theorem Trigger_exactly_due_witness:
  "sorted (map ti_whenElapsed [triggered (ms_to_ns 9000) (sample_alarm 1 5000 0 0)])"
  using Trigger_exactly_due [OF _ _ sample_trigger_eq]
  by (simp add: valid_sort_sort_key)

text \<open>What the run takes off the list, and what it puts back.\<close>

lemma Trigger_popped:
  assumes "valid_sort ti_whenElapsed (w_sort w)"
    and "TriggerTimersLocked w ts now m = Some (ts', hw, m')"
  shows "\<exists>popped. mset ts' = mset ts + image_mset (triggered now) popped \<and>
    scheduled m' + popped = scheduled m + image_mset (next_alarm now) (filter_mset repeating popped)"
proof -
  from assms(2) obtain popped where p: "ts' = w_sort w (ts @ map (triggered now) popped)"
    "run now (ts, False, m) popped (ts @ map (triggered now) popped, hw, m')" by (rule Trigger_run)
  have "mset ts' = mset ts + image_mset (triggered now) (mset popped)"
    using assms(1) p(1) by (simp add: valid_sort_def)
  moreover have "scheduled m' + mset popped =
      scheduled m + image_mset (next_alarm now) (filter_mset repeating (mset popped))"
    using run_facts(1) [OF p(2)] by simp
  ultimately show ?thesis by blast
qed

text \<open>C18. Nothing is lost and nothing is invented: the alarms handed over are the ones taken off
  the list, each with its count, and what is scheduled afterwards is exactly what was scheduled
  before, less these, plus the next alarm of each that repeats.\<close>

theorem Trigger_conserves:
  assumes "valid_sort ti_whenElapsed (w_sort w)"
    and "TriggerTimersLocked w ts now m = Some (ts', hw, m')"
  shows "\<exists>popped. mset ts' = mset ts + image_mset (triggered now) popped \<and>
    scheduled m' + popped = scheduled m + image_mset (next_alarm now) (filter_mset repeating popped)"
  by (rule Trigger_popped [OF assms])

theorem Trigger_conserves_witness:
  "\<exists>popped. mset [triggered (ms_to_ns 9000) (sample_alarm 1 5000 0 0)] = image_mset (triggered (ms_to_ns 9000)) popped"
  using Trigger_conserves [OF _ sample_trigger_eq] by (auto simp: valid_sort_sort_key)

text \<open>C32. A repeating alarm does not drift: its next time is a whole number of intervals, at least
  one, after the time it was due, it is the first such time after now, and it is again free of the
  difference that would make the loop take it twice.\<close>

theorem next_alarm_no_drift:
  assumes "repeating a" "\<not> stale a" "alarm_ok a" "now_ok now" "ti_whenElapsed a \<le> now"
  shows "(\<exists>k \<ge> 1. ti_whenElapsed (next_alarm now a) = ti_whenElapsed a + k * ms_to_ns (ti_repeatInterval a)) \<and>
    now < ti_whenElapsed (next_alarm now a) \<and>
    ti_whenElapsed (next_alarm now a) \<le> now + ms_to_ns (ti_repeatInterval a) \<and>
    \<not> stale (next_alarm now a)"
  using next_alarm_fresh [OF assms] next_alarm_ok [OF assms(1,3-5)] by blast

theorem next_alarm_no_drift_witness:
  "ms_to_ns 9000 < ti_whenElapsed (next_alarm (ms_to_ns 9000) (sample_alarm 1 5000 0 1500))"
  using next_alarm_no_drift [of "sample_alarm 1 5000 0 1500" "ms_to_ns 9000"]
  by (simp add: repeating_def stale_def alarm_ok_def now_ok_def ms_to_ns_def MAX_INTERVAL_def)

text \<open>A run in which nothing that is due repeats.\<close>

lemma fold_trigger_oneshot:
  "\<forall>a \<in> set as. \<not> repeating a \<Longrightarrow>
    fold (trigger_alarm w now) as (ts, hw, m) =
      (ts @ map (triggered now) as, (\<exists>a \<in> set as. ti_wakeup a) \<or> hw, m)"
  by (induction as arbitrary: ts hw) (auto simp: trigger_alarm_eq)

lemma trigger_loop_oneshot:
  assumes "length bs < fuel" "\<forall>b \<in> set (takeWhile (\<lambda>b. GetStart b \<le> now) bs). \<forall>a \<in> set (b_alarms b). \<not> repeating a"
    and "alarmBatches m = bs"
  shows "\<exists>hw'. trigger_loop fuel w now (ts, hw, m) =
    Some (ts @ map (triggered now) (concat (map b_alarms (takeWhile (\<lambda>b. GetStart b \<le> now) bs))), hw',
          m\<lparr>alarmBatches := dropWhile (\<lambda>b. GetStart b \<le> now) bs\<rparr>)"
  using assms
proof (induction bs arbitrary: fuel ts hw m)
  case (Cons b bs)
  then obtain k where k: "fuel = Suc k" by (cases fuel) auto
  show ?case
  proof (cases "GetStart b \<le> now")
    case True
    have "length bs < k" "\<forall>b \<in> set (takeWhile (\<lambda>b. GetStart b \<le> now) bs). \<forall>a \<in> set (b_alarms b). \<not> repeating a"
      and one: "\<forall>a \<in> set (b_alarms b). \<not> repeating a"
      using Cons.prems True k by auto
    from Cons.IH [OF this(1,2), of "m\<lparr>alarmBatches := bs\<rparr>"
        "ts @ map (triggered now) (b_alarms b)" "(\<exists>a \<in> set (b_alarms b). ti_wakeup a) \<or> hw"]
    show ?thesis using Cons.prems(3) True by (simp add: k fold_trigger_oneshot [OF one])
  qed (use Cons.prems k in auto)
qed (auto elim: less_natE)

section \<open>An iteration of the thread\<close>

text \<open>The alarms that are handed over belong to registered timers.\<close>

lemma Trigger_belongs:
  assumes "manager_inv m" "valid_sort ti_whenElapsed (w_sort w)" "TriggerTimersLocked w [] now m = Some (ts, hw, m')"
  shows "\<forall>a \<in> set ts. belongs (timerEntryMap m) a"
proof -
  obtain popped where p: "ts = w_sort w ([] @ map (triggered now) popped)"
    "run now ([], False, m) popped ([] @ map (triggered now) popped, hw, m')" using assms(3) by (rule Trigger_run)
  have "kept now m popped m'" using p(2) unfolding run_def prod.case by blast
  then have "(\<forall>a \<in> set popped. belongs (timerEntryMap m) a) \<and> (\<forall>a \<in># scheduled m'. belongs (timerEntryMap m) a)"
    by (rule keptD) (use assms(1) in \<open>simp_all add: manager_inv_def belongs_next\<close>)
  moreover have "belongs es (triggered now a) = belongs es a" for es a by (simp add: belongs_def triggered_def)
  ultimately show ?thesis using p(1) assms(2) by (simp add: valid_sort_set)
qed

text \<open>C6. When the thread delivers, every alarm that \<open>TriggerTimersLocked\<close> hands over, and nothing else, is
  called back in order or, when its uid is proxied, appended to the uid's queue. In any state that satisfies the
  invariant these are the alarms that were taken off the
  list, where only the next occurrences of those that repeat are added; each is of
  a registered timer with this timer's callback, and due, and they are in order of their due times.
  The callbacks of those whose uid is not proxied are called in that order, and those of each proxied
  uid are appended to its queue in that order; and if the batches were in order, no batch that has come due
  is left.\<close>

theorem looper_delivers:
  assumes "valid_sort ti_whenElapsed (w_sort w)" "manager_inv m"
    and "result \<noteq> TIME_CHANGED_MASK" "looper_trigger w result now m = Some m'"
  shows "\<exists>ts hw m1. TriggerTimersLocked w [] now m = Some (ts, hw, m1) \<and>
    (\<exists>taken. mset ts = image_mset (triggered now) taken \<and>
      scheduled m' + taken = scheduled m + image_mset (next_alarm now) (filter_mset repeating taken)) \<and>
    (\<forall>a \<in> set ts. ti_whenElapsed a \<le> now \<and> belongs (timerEntryMap m) a) \<and> sorted (map ti_whenElapsed ts) \<and>
    fired m' = fired m @ calls (filter (\<lambda>a. ti_uid a \<notin> proxyUids m) ts) \<and>
    (\<forall>uid. queue_of m' uid = queue_of m uid @
      (if uid \<in> proxyUids m then filter (\<lambda>a. ti_uid a = uid \<and> ti_callback a \<noteq> None) ts else [])) \<and>
    (batches_inv (alarmBatches m) \<longrightarrow> due now (alarmBatches m') = [] \<and> batches_inv (alarmBatches m'))"
proof -
  from assms(3,4) obtain ts hw m1 where t: "TriggerTimersLocked w [] now m = Some (ts, hw, m1)"
    and m': "m' = RescheduleKernelTimerLocked w (DeliverTimersLocked ts m1)"
    by (auto simp: looper_trigger_def split: option.splits)
  have "\<forall>b \<in> set (alarmBatches m). batch_inv b" using assms(2) by (simp add: manager_inv_def)
  note Trigger_facts [OF assms(1) this t] Trigger_belongs [OF assms(2,1) t]
  moreover have "proxyUids m1 = proxyUids m" "fired m1 = fired m" "queue_of m1 uid = queue_of m uid" for uid
    using Trigger_frame [OF t] by (simp_all add: same_registry_def queue_of_def)
  moreover have "queue_of m' uid = queue_of (DeliverTimersLocked ts m1) uid" for uid
    by (simp add: m' queue_of_def)
  moreover have "\<exists>taken. mset ts = image_mset (triggered now) taken \<and>
      scheduled m' + taken = scheduled m + image_mset (next_alarm now) (filter_mset repeating taken)"
    using Trigger_popped [OF assms(1) t] by (simp add: m' scheduled_def)
  ultimately show ?thesis
    by (intro exI [of _ ts] exI [of _ hw] exI [of _ m1]) (simp add: m' t Deliver_spec)
qed

text \<open>A one-shot timer is delivered once and then forgotten: when nothing that is due repeats,
  exactly the alarms of the leading due batches are handed over, in the order of the sort, the other
  batches stay as they are, and nothing else of the state changes.\<close>

theorem Trigger_oneshot:
  assumes "\<forall>b \<in> set (takeWhile (\<lambda>b. GetStart b \<le> now) (alarmBatches m)). \<forall>a \<in> set (b_alarms b). \<not> repeating a"
  shows "\<exists>hw. TriggerTimersLocked w ts now m = Some
    (w_sort w (ts @ map (triggered now) (concat (map b_alarms (takeWhile (\<lambda>b. GetStart b \<le> now) (alarmBatches m))))),
     hw, m\<lparr>alarmBatches := dropWhile (\<lambda>b. GetStart b \<le> now) (alarmBatches m)\<rparr>)"
proof -
  have "length (alarmBatches m) < trigger_fuel m" by (simp add: trigger_fuel_def)
  from trigger_loop_oneshot [OF this assms refl, of w ts False] show ?thesis
    by (auto simp: TriggerTimersLocked_def)
qed

theorem Trigger_oneshot_witness:
  "\<exists>hw. TriggerTimersLocked sample_world [] (ms_to_ns 9000)
      (sample_state [Batch_seed (sample_alarm 1 5000 0 0), Batch_seed (sample_alarm 2 9500 0 0)]) =
    Some (w_sort sample_world [triggered (ms_to_ns 9000) (sample_alarm 1 5000 0 0)], hw,
      (sample_state [Batch_seed (sample_alarm 1 5000 0 0), Batch_seed (sample_alarm 2 9500 0 0)])
        \<lparr>alarmBatches := [Batch_seed (sample_alarm 2 9500 0 0)]\<rparr>)"
  using Trigger_oneshot [of "ms_to_ns 9000"
      "sample_state [Batch_seed (sample_alarm 1 5000 0 0), Batch_seed (sample_alarm 2 9500 0 0)]" sample_world "[]"]
  by (simp add: GetStart_def repeating_def)

section \<open>Requests\<close>

text \<open>C33. \<open>SetHandler\<close> drops a request whose time has passed, where the declaration of the JavaScript module
  promises five seconds from now, and schedules any other as one alarm with its due time, interval and deadline
  exactly corrected. A dropped request changes nothing but the clock readings. An alarm carries the request. It is
  due at the requested time but not sooner than 5 seconds from now (at once for a system application). It repeats
  exactly when the interval, as a signed number, is positive, and then with that interval, raised to
  5 seconds (1 second) and cut to a year. Its deadline is the window after the due time, an hour when more than 12
  were asked for, and what \<open>MaxTriggerTime\<close> gives when the window is negative; it is not before the due time.\<close>

theorem SetHandler_schedules:
  "let now = GetBootTimeNs w (ticks m + 1);
      nominal = ConvertToElapsed w (ticks m + 2) (sint triggerAtTime) type;
      least = (if IsSystemUid w (ticks m) uid then 1000 else 5000);
      m' = SetHandler w timerId type triggerAtTime windowLength interval flag callback uid m
    in if nominal < now then m' = m\<lparr>ticks := ticks m + 5\<rparr>
       else \<exists>a. alarmBatches m' = insert_and_batch a (alarmBatches m) \<and>
          request_of timerId type triggerAtTime flag callback a \<and>
          ti_uid a = sint (ucast (word_of_int uid :: u64) :: i32) \<and>
          ti_whenElapsed a = max nominal (now + (if IsSystemUid w (ticks m + 4) uid then 0 else ms_to_ns 5000)) \<and>
          ti_expectedWhenElapsed a = ti_whenElapsed a \<and>
          ti_repeatInterval a = (if sint interval \<le> 0 then sint interval else max least (min (sint interval) 31536000000)) \<and>
          ti_maxWhenElapsed a =
            (if sint windowLength < 0 then MaxTriggerTime nominal (ti_whenElapsed a) (ti_repeatInterval a)
             else ti_whenElapsed a + ms_to_ns (if sint windowLength \<le> 43200000 then sint windowLength else 3600000)) \<and>
          ti_whenElapsed a \<le> ti_maxWhenElapsed a"
proof (cases "ConvertToElapsed w (ticks m + 2) (sint triggerAtTime) type < GetBootTimeNs w (ticks m + 1)")
  case True
  then show ?thesis by (simp add: SetHandler_rejects Let_def)
next
  case False
  then have "GetBootTimeNs w (ticks m + 1) \<le> ConvertToElapsed w (ticks m + 2) (sint triggerAtTime) type"
    by simp
  from SetHandler_deadline [OF this, of timerId windowLength interval flag callback uid] obtain a where a:
    "alarmBatches (SetHandler w timerId type triggerAtTime windowLength interval flag callback uid m) =
      insert_and_batch a (alarmBatches m)" "request_of timerId type triggerAtTime flag callback a"
    "ti_uid a = sint (ucast (word_of_int uid :: u64) :: i32)"
    "ti_whenElapsed a = max (ConvertToElapsed w (ticks m + 2) (sint triggerAtTime) type)
       (GetBootTimeNs w (ticks m + 1) + (if IsSystemUid w (ticks m + 4) uid then 0 else 5000000000))"
    "ti_whenElapsed a \<le> ti_maxWhenElapsed a" "ti_expectedWhenElapsed a = ti_whenElapsed a"
    "ti_repeatInterval a = interval_duration (IsSystemUid w (ticks m) uid) interval"
    "ti_maxWhenElapsed a = (if window_duration windowLength < 0
       then MaxTriggerTime (ConvertToElapsed w (ticks m + 2) (sint triggerAtTime) type) (ti_whenElapsed a) (ti_repeatInterval a)
       else ti_whenElapsed a + ms_to_ns (window_duration windowLength))"
    by metis
  have iv: "interval_duration s interval =
      (if sint interval \<le> 0 then sint interval else max (if s then 1000 else 5000) (min (sint interval) 31536000000))" for s
    by (auto simp: interval_duration_def Let_def timer_constants)
  have wd: "window_duration windowLength < 0 \<longleftrightarrow> sint windowLength < 0"
    "\<not> sint windowLength < 0 \<Longrightarrow>
      window_duration windowLength = (if sint windowLength \<le> 43200000 then sint windowLength else 3600000)"
    by (auto simp: window_duration_def Let_def timer_constants)
  show ?thesis
    unfolding Let_def if_not_P [OF False]
    using a(1-7) a(8) [unfolded wd(1)] wd(2) by (intro exI [of _ a]) (simp add: iv ms_to_ns_def)
qed

text \<open>Starting for a time that has passed succeeds, and nothing is scheduled.\<close>

lemma late_start_succeeds:
  assumes "map_find (timerEntryMap m) n = Some e"
    and "ConvertToElapsed w (ticks m + 2) (sint t) (te_type e) < GetBootTimeNs w (ticks m + 1)"
  shows "StartTimer w n t m = (m\<lparr>ticks := ticks m + 5\<rparr>, True)"
  using assms by (simp add: StartTimer_def SetHandler_rejects)

text \<open>The window of an inexact timer: \<open>MaxTriggerTime\<close> is never before the trigger time,
  adds nothing for an interval below 10 seconds, at most the interval otherwise, and exactly three
  quarters of it, rounded down, for intervals up to an hour and a half, in spite of the single
  precision arithmetic.\<close>

theorem MaxTriggerTime_window:
  assumes "0 < interval"
  shows "triggerAtTime \<le> MaxTriggerTime now triggerAtTime interval \<and>
    MaxTriggerTime now triggerAtTime interval \<le> triggerAtTime + ms_to_ns interval \<and>
    (10000 \<le> interval \<or> MaxTriggerTime now triggerAtTime interval = triggerAtTime) \<and>
    (interval < 10000 \<or> 5400000 < interval \<or>
     MaxTriggerTime now triggerAtTime interval = triggerAtTime + ms_to_ns (3 * interval div 4))"
proof (intro conjI)
  show "10000 \<le> interval \<or> MaxTriggerTime now triggerAtTime interval = triggerAtTime"
    using MaxTriggerTime_exact_small [OF assms] by (cases "interval < 10000") (auto simp: MIN_FUZZABLE_INTERVAL_def)
  show "interval < 10000 \<or> 5400000 < interval \<or>
      MaxTriggerTime now triggerAtTime interval = triggerAtTime + ms_to_ns (3 * interval div 4)"
    using assms batch_window_exact [of interval]
    by (cases "5400000 < interval") (auto simp: MaxTriggerTime_def Let_def MIN_FUZZABLE_INTERVAL_def)
qed (simp_all add: MaxTriggerTime_ge MaxTriggerTime_le assms)

theorem MaxTriggerTime_window_witness:
  "MaxTriggerTime 0 (ms_to_ns 1000) 60000 = ms_to_ns 1000 + ms_to_ns 45000"
  using MaxTriggerTime_window [of 60000 "ms_to_ns 1000" 0] by simp

section \<open>Stopping and destroying\<close>

text \<open>C9. \<open>StopTimer\<close> and \<open>DestroyTimer\<close> succeed exactly on registered timers; afterwards no
  alarm of the timer is scheduled, and a destroyed one is no longer registered while every other
  registration is as before.\<close>

theorem Stop_unschedules:
  "let (m', ok) = StopTimerInner w n needDestroy m
   in (ok \<longleftrightarrow> map_find (timerEntryMap m) n \<noteq> None) \<and>
      (ok \<longrightarrow> (\<forall>a \<in># scheduled m'. ti_id a \<noteq> n)) \<and>
      map_find (timerEntryMap m') = (if needDestroy then (map_find (timerEntryMap m))(n := None)
                                     else map_find (timerEntryMap m))"
proof (cases "map_find (timerEntryMap m) n")
  case None
  then show ?thesis by (auto simp: StopTimerInner_def fun_upd_idem)
next
  case (Some e)
  have "scheduled (RemoveProxy n (te_uid e) (RemoveHandler w n m)) = scheduled (RemoveHandler w n m)"
    by (simp add: scheduled_def)
  moreover have "scheduled (k\<lparr>timerEntryMap := es\<rparr>) = scheduled k" for k es by (simp add: scheduled_def)
  moreover have "timerEntryMap (RemoveHandler w n m) = timerEntryMap m"
    using Remove_frame [of m w n] by (simp add: same_registry_def)
  ultimately show ?thesis
    using Some Remove_none [of _ w n m] by (auto simp: StopTimerInner_def Let_def)
qed

definition registered_state :: timer_manager where
  "registered_state = (sample_state [Batch_seed (sample_alarm 1 150000 0 0)])
     \<lparr>timerEntryMap := [(1, \<lparr>te_id = 1, te_type = ELAPSED_REALTIME_WAKEUP, te_windowLength = 0,
        te_interval = 0, te_flag = 0, te_callback = Some (Notify_Remote 1), te_uid = 100\<rparr>)]\<rparr>"

theorem Stop_unschedules_witness:
  "snd (StopTimerInner sample_world 1 True registered_state) \<and>
   map_find (timerEntryMap (fst (StopTimerInner sample_world 1 True registered_state))) 1 = None"
  using Stop_unschedules [of sample_world 1 True registered_state]
  by (simp add: registered_state_def map_find_def split: prod.splits)

text \<open>A destroyed timer stays silent: once a timer has been destroyed and no proxy's queue holds
  an alarm of it, no sequence of operations and iterations of the thread calls its callback again,
  as long as its number is not given to a new timer.\<close>

theorem destroyed_stays_silent:
  assumes "reachable w m" "valid_sort ti_whenElapsed (w_sort w)"
    and "DestroyTimer w n m = (m1, True)" "\<forall>uid. \<forall>a \<in> set (queue_of m1 uid). ti_id a \<noteq> n"
    and "path_without w n m1 m2"
  shows "calls_to n m2 = calls_to n m1 \<and> (\<forall>a \<in># scheduled m2. ti_id a \<noteq> n)"
proof -
  have m1: "m1 = fst (StopTimerInner w n True m)" "snd (StopTimerInner w n True m)"
    using assms(3) by (auto simp: DestroyTimer_def)
  have inv: "manager_inv m1" unfolding m1(1) using assms(1) by (intro inv_stop reachable_inv)
  have "map_find (timerEntryMap (fst (StopTimerInner w n True m))) n = None"
    using Destroy_unregisters [of w n m] by (simp add: DestroyTimer_def)
  then have "gone n m1" using assms(4) by (simp add: gone_def m1(1))
  from gone_path [OF assms(5) inv this assms(2)] show ?thesis by (auto dest: gone_unscheduled)
qed

definition created_state :: timer_manager where
  "created_state = TimerManager\<lparr>randomPos := 2,
     timerEntryMap := [(1, \<lparr>te_id = 1, te_type = ELAPSED_REALTIME_WAKEUP, te_windowLength = 0,
        te_interval = 0, te_flag = 0, te_callback = Some (Notify_Remote 1), te_uid = 100\<rparr>)]\<rparr>"

lemma CreateTimer_sample:
  "CreateTimer sample_world ELAPSED_REALTIME_WAKEUP 0 0 0 (Some (Notify_Remote 1)) 100 TimerManager =
    Some (created_state, 1)"
proof -
  have "draw of_nat 0 = Some (1, 2)"
    by (subst draw.simps, simp, subst draw.simps, simp)
  then show ?thesis by (simp add: CreateTimer_def created_state_def TimerManager_def map_insert_def)
qed

definition destroyed_state :: timer_manager where
  "destroyed_state = fst (DestroyTimer sample_world 1 (fst (StartTimer sample_world 1 200000 created_state)))"

theorem destroyed_stays_silent_witness:
  "calls_to 1 (fst (ProxyTimer 100 True False destroyed_state)) = calls_to 1 destroyed_state"
proof -
  let ?m = "fst (StartTimer sample_world 1 200000 created_state)"
  have "reachable sample_world created_state"
    by (rule reachable.step [OF reachable.init step.create [OF _ CreateTimer_sample]]) (simp add: in_i32_def)
  then have r: "reachable sample_world ?m" by (rule reachable.step [OF _ step.start])
  have reg: "same_registry created_state ?m" by (rule Start_registry)
  have d: "DestroyTimer sample_world 1 ?m = (destroyed_state, True)"
    using Destroy_succeeds [of sample_world 1 ?m] reg
    by (simp add: destroyed_state_def same_registry_def created_state_def map_find_def prod_eq_iff)
  have "proxyMap destroyed_state = []"
    unfolding destroyed_state_def using reg
    by (intro Destroy_no_queue) (simp add: same_registry_def created_state_def TimerManager_def)
  then have q: "\<forall>uid. \<forall>a \<in> set (queue_of destroyed_state uid). ti_id a \<noteq> 1" by (simp add: queue_of_def)
  have p: "path_without sample_world 1 destroyed_state (fst (ProxyTimer 100 True False destroyed_state))"
    by (rule path_without.there [OF path_without.here step.proxy])
      (simp add: destroyed_state_def Destroy_unregisters)
  show ?thesis using destroyed_stays_silent [OF r _ d q p] by (simp add: valid_sort_sort_key)
qed

definition queued_state :: timer_manager where
  "queued_state = TimerManager\<lparr>proxyUids := {100},
     timerEntryMap := [(1, \<lparr>te_id = 1, te_type = ELAPSED_REALTIME_WAKEUP, te_windowLength = 0,
        te_interval = 0, te_flag = 0, te_callback = Some (Notify_Remote 1), te_uid = 100\<rparr>)],
     proxyMap := [(100, [sample_alarm 1 5000 0 0, sample_alarm 2 6000 0 0])]\<rparr>"

lemma Proxy_retrigger:
  assumes "uid \<in> proxyUids m"
  shows "fired (fst (ProxyTimer uid False True m)) = fired m @ calls (queue_of m uid)"
    and "snd (ProxyTimer uid False True m)"
  using assms by (auto simp: ProxyTimer_def call_back_all_eq queue_of_def Let_def split: option.splits)

text \<open>C39. What \<open>RemoveProxy\<close> misses: it edits a copy of the queue. When a timer of a proxied uid is
  destroyed and the proxy then ends with a retrigger, the timer is no longer registered, yet the whole
  queue is called, its own alarms included, as soon as one alarm of another timer waits in the queue;
  only a queue that holds nothing else is dropped.\<close>

theorem destroyed_fires_from_queue:
  assumes "map_find (timerEntryMap m) n = Some t" "te_uid t \<in> proxyUids m"
  shows "let (m1, ok) = DestroyTimer w n m; (m2, ended) = ProxyTimer (te_uid t) False True m1;
      queue = queue_of m (te_uid t)
    in ok \<and> ended \<and> map_find (timerEntryMap m1) n = None \<and>
       fired m2 = fired m @ (if \<exists>a \<in> set queue. ti_id a \<noteq> n then calls queue else [])"
proof -
  let ?k = "RemoveHandler w n m" and ?uid = "te_uid t"
  let ?m1 = "(RemoveProxy n ?uid ?k)\<lparr>timerEntryMap := map_erase n (timerEntryMap ?k)\<rparr>"
  have k: "timerEntryMap ?k = timerEntryMap m" "proxyMap ?k = proxyMap m" "proxyUids ?k = proxyUids m" "fired ?k = fired m"
    using Remove_frame [of m w n] by (simp_all add: same_registry_def)
  have d: "DestroyTimer w n m = (?m1, True)"
    using assms(1) by (simp add: DestroyTimer_def StopTimerInner_def Let_def k RemoveProxy_def split: option.splits)
  have "fired ?m1 = fired m" "proxyUids ?m1 = proxyUids m"
    "queue_of ?m1 ?uid = (if \<exists>a \<in> set (queue_of m ?uid). ti_id a \<noteq> n then queue_of m ?uid else [])"
    by (auto simp: RemoveProxy_def k queue_of_def filter_empty_conv Let_def split: option.splits)
  then show ?thesis
    using assms(2) by (simp add: d Proxy_retrigger k case_prod_beta Let_def)
qed

theorem destroyed_fires_from_queue_witness:
  "let (m1, ok) = DestroyTimer sample_world 1 queued_state; (m2, ended) = ProxyTimer 100 False True m1
   in map_find (timerEntryMap m1) 1 = None \<and> (Notify_Remote 1, 1) \<in> set (fired m2)"
  using destroyed_fires_from_queue [of queued_state 1 "the (map_find (timerEntryMap queued_state) 1)" sample_world]
  by (auto simp: queued_state_def map_find_def queue_of_def call_of_def sample_alarm_def split: prod.splits)

text \<open>What removing one timer does to the others, for boot-time alarms: nothing, when the last batch
  holds no alarm of it; otherwise the others are re-batched from their nominal times, and those whose
  nominal time has passed are dropped, although their windows may still be open and they were never
  delivered.\<close>

theorem stop_drops_another:
  assumes "\<forall>a \<in># scheduled m. ti_type a \<noteq> RTC \<and> ti_type a \<noteq> RTC_WAKEUP"
  shows "let m' = RemoveHandler w n m; others = {#a \<in># scheduled m. ti_id a \<noteq> n#}; now = GetBootTimeNs w (ticks m)
    in if alarmBatches m \<noteq> [] \<and> (\<exists>a \<in> set (b_alarms (last (alarmBatches m))). ti_id a = n)
       then image_mset ti_id (scheduled m') = image_mset ti_id {#a \<in># others. now \<le> ms_to_ns (ti_origWhen a)#}
       else scheduled m' = others"
proof -
  let ?k = "m\<lparr>alarmBatches := without n (alarmBatches m)\<rparr>"
  have k: "scheduled ?k = {#a \<in># scheduled m. ti_id a \<noteq> n#}"
    by (simp add: scheduled_def scheduled_without)
  have "\<forall>a \<in># scheduled ?k. ti_type a \<noteq> RTC \<and> ti_type a \<noteq> RTC_WAKEUP" using assms unfolding k by simp
  note rebatch = ReBatch_elapsed [OF this, of w True, unfolded k]
  show ?thesis
    unfolding RemoveHandler_def RemoveLocked_eq Let_def by (auto simp only: k rebatch timer_manager.simps split: if_split) simp
qed

theorem stop_drops_another_witness:
  "let bs = insert_and_batch (sample_alarm 2 105000 0 0) [Batch_seed (sample_alarm 1 90000 20000 0)];
       now = GetBootTimeNs sample_world 0
   in (\<exists>a \<in># scheduled_in bs. ti_id a = 1 \<and> now < ti_maxWhenElapsed a) \<and> due now bs = [] \<and>
      scheduled (RemoveHandler sample_world 2 (sample_state bs)) = {#}"
proof -
  let ?bs = "insert_and_batch (sample_alarm 2 105000 0 0) [Batch_seed (sample_alarm 1 90000 20000 0)]"
  have bs: "?bs = [fst (Add (sample_alarm 2 105000 0 0) (Batch_seed (sample_alarm 1 90000 20000 0)))]"
    by (simp add: insert_and_batch_cases GetFlags_def CanHold_def STANDALONE_def ms_to_ns_def
        AddBatchLocked_def upper_bound_def ub_search.simps list_insert_def)
  have "\<forall>a \<in># scheduled_in ?bs. ti_type a = ELAPSED_REALTIME_WAKEUP"
    by (simp add: scheduled_in_insert)
  then show ?thesis
    using stop_drops_another [of "sample_state ?bs" sample_world 2]
    by (simp add: bs alarm_order.set_ins alarm_order.mset_ins timer_type_defs GetStart_def ms_to_ns_def Let_def)
qed

section \<open>Batches and windows\<close>

text \<open>C34. Coalescing respects windows when no batch but the first can hold the alarm: after the
  insertion every batch still has a common window, so that each alarm, delivered when its batch
  starts, is delivered between its due time and its deadline.\<close>

theorem insert_keeps_windows:
  assumes "batches_inv bs" "\<forall>b \<in> set bs. feasible b" "coalesce_first a bs"
    and "ti_whenElapsed a \<le> ti_maxWhenElapsed a"
  shows "\<forall>b \<in> set (insert_and_batch a bs). \<forall>x \<in> set (b_alarms b).
    ti_whenElapsed x \<le> GetStart b \<and> GetStart b \<le> ti_maxWhenElapsed x"
  using feasible_insert [OF assms(2-4)] batches_inv_insert [OF assms(1), of a]
  by (auto simp: batches_inv_def dest: feasible_window)

theorem insert_keeps_windows_witness:
  "GetStart (hd (insert_and_batch (sample_alarm 2 105000 5000 0) [Batch_seed (sample_alarm 1 90000 20000 0)])) \<le>
     ms_to_ns 110000"
proof -
  have "insert_and_batch (sample_alarm 2 105000 5000 0) [Batch_seed (sample_alarm 1 90000 20000 0)] =
      [fst (Add (sample_alarm 2 105000 5000 0) (Batch_seed (sample_alarm 1 90000 20000 0)))]"
    by (simp add: insert_and_batch_cases GetFlags_def CanHold_def STANDALONE_def ms_to_ns_def
        AddBatchLocked_def upper_bound_def ub_search.simps list_insert_def)
  then show ?thesis
    using insert_keeps_windows [of "[Batch_seed (sample_alarm 1 90000 20000 0)]" "sample_alarm 2 105000 5000 0"]
    by (simp add: batches_inv_def feasible_def coalesce_first_def ms_to_ns_def)
qed

section \<open>From the request to the call\<close>

text \<open>The rounds for batches that are due and have no repeating alarm leave the rest of the list as it is.\<close>

lemma trigger_loop_prefix:
  assumes "\<forall>b \<in> set pre. GetStart b \<le> now \<and> (\<forall>a \<in> set (b_alarms b). \<not> repeating a)" "alarmBatches m = pre @ rest"
  shows "\<exists>hw'. trigger_loop (length pre + fuel) w now (ts, hw, m) =
    trigger_loop fuel w now (ts @ map (triggered now) (concat (map b_alarms pre)), hw', m\<lparr>alarmBatches := rest\<rparr>)"
  using assms
proof (induction pre arbitrary: ts hw m)
  case Nil
  then have "m\<lparr>alarmBatches := rest\<rparr> = m" by simp
  then show ?case by (intro exI [of _ hw]) simp
next
  case (Cons b pre)
  then have one: "\<forall>a \<in> set (b_alarms b). \<not> repeating a" by simp
  from Cons.IH [of "m\<lparr>alarmBatches := pre @ rest\<rparr>" "ts @ map (triggered now) (b_alarms b)"
      "(\<exists>a \<in> set (b_alarms b). ti_wakeup a) \<or> hw"] Cons.prems
  show ?case by (simp add: fold_trigger_oneshot [OF one])
qed

text \<open>A batch that is due is handed over when those before it are due and have no repeating alarm.\<close>

lemma due_batch_triggered:
  assumes "valid_sort ti_whenElapsed (w_sort w)" "manager_inv m"
    and "now_ok now" "\<forall>a \<in># scheduled m. alarm_ok a" "alarmBatches m = pre @ b # post" "GetStart b \<le> now"
    and pre: "\<forall>b \<in> set pre. GetStart b \<le> now \<and> (\<forall>a \<in> set (b_alarms b). \<not> repeating a)"
  obtains ts hw m1 where "TriggerTimersLocked w [] now m = Some (ts, hw, m1)" "triggered now ` set (b_alarms b) \<subseteq> set ts"
proof -
  obtain ts hw m1 where t: "TriggerTimersLocked w [] now m = Some (ts, hw, m1)"
    using Trigger_returns [OF assms(3) _ assms(4), of w "[]"] assms(2) by (auto simp: manager_inv_def)
  define fuel where "fuel = length post + size (scheduled m)"
  have fuel: "trigger_fuel m = length pre + Suc (Suc fuel)" by (simp add: trigger_fuel_def assms(5) fuel_def)
  define ts1 where "ts1 = map (triggered now) (concat (map b_alarms pre))"
  obtain hw1 where "trigger_loop (trigger_fuel m) w now ([], False, m) =
      trigger_loop (Suc (Suc fuel)) w now (ts1, hw1, m\<lparr>alarmBatches := b # post\<rparr>)"
    unfolding fuel ts1_def using trigger_loop_prefix [OF pre assms(5), of "Suc (Suc fuel)" w "[]" False] by auto
  moreover obtain hw2 m2 where "fold (trigger_alarm w now) (b_alarms b) (ts1, hw1, m\<lparr>alarmBatches := post\<rparr>) =
      (ts1 @ map (triggered now) (b_alarms b), hw2, m2)"
    using fold_trigger [of w now "b_alarms b" ts1 hw1 "m\<lparr>alarmBatches := post\<rparr>"] by auto
  ultimately have loop: "trigger_loop (trigger_fuel m) w now ([], False, m) =
      trigger_loop (Suc fuel) w now (ts1 @ map (triggered now) (b_alarms b), hw2, m2)"
    using assms(6) by (simp del: trigger_loop.simps add: trigger_loop.simps(2) [of "Suc fuel"])
  obtain ts' where ts': "trigger_loop (trigger_fuel m) w now ([], False, m) = Some (ts', hw, m1)" "ts = w_sort w ts'"
    using t by (auto simp: TriggerTimersLocked_def split: option.splits prod.splits)
  then obtain popped where "run now (ts1 @ map (triggered now) (b_alarms b), hw2, m2) popped (ts', hw, m1)"
    using trigger_loop_run [OF loop [symmetric, unfolded ts'(1)]] by blast
  from run_facts(4) [OF this] have "triggered now ` set (b_alarms b) \<subseteq> set ts'" by auto
  then have "triggered now ` set (b_alarms b) \<subseteq> set ts" using assms(1) ts'(2) by (simp add: valid_sort_set)
  with t show thesis by (rule that)
qed

lemma due_batch_delivered:
  assumes "valid_sort ti_whenElapsed (w_sort w)" "manager_inv m" "result \<noteq> TIME_CHANGED_MASK"
    and "now_ok now" "\<forall>a \<in># scheduled m. alarm_ok a" "alarmBatches m = pre @ b # post" "GetStart b \<le> now"
    and pre: "\<forall>b \<in> set pre. GetStart b \<le> now \<and> (\<forall>a \<in> set (b_alarms b). \<not> repeating a)"
  obtains ts m' where "looper_trigger w result now m = Some m'" "triggered now ` set (b_alarms b) \<subseteq> set ts"
    "fired m' = fired m @ calls (filter (\<lambda>a. ti_uid a \<notin> proxyUids m) ts)"
proof -
  obtain ts hw m1 where t: "TriggerTimersLocked w [] now m = Some (ts, hw, m1)" "triggered now ` set (b_alarms b) \<subseteq> set ts"
    by (rule due_batch_triggered [OF assms(1,2,4-8)])
  moreover have "fired (DeliverTimersLocked ts m1) = fired m @ calls (filter (\<lambda>a. ti_uid a \<notin> proxyUids m) ts)"
    using Trigger_frame [OF t(1)] by (simp add: Deliver_spec same_registry_def)
  ultimately show ?thesis
    using assms(3) by (intro that [of "RescheduleKernelTimerLocked w (DeliverTimersLocked ts m1)" ts])
      (simp_all add: looper_trigger_def)
qed

text \<open>
  From the request to the call: in a reachable state, start a registered timer of a uid that is not proxied
  for a time that has not passed. The next delivery, when the batch that the alarm went into has come
  due, and those before it in the list have come due and have no repeating alarm, calls the timer's callback
  with its number. (The next occurrence of a repeating alarm in a batch before it can be put into its batch
  and put it off, even past its deadline: \<open>coalesce_delays_exact_alarm\<close>.)
\<close>

definition before :: "u64 \<Rightarrow> timer_manager \<Rightarrow> batch list" where
  "before n m = takeWhile (\<lambda>b. \<forall>a \<in> set (b_alarms b). ti_id a \<noteq> n) (alarmBatches m)"

lemma takeWhile_split: "\<exists>x \<in> set xs. \<not> P x \<Longrightarrow> \<exists>x ys. xs = takeWhile P xs @ x # ys \<and> \<not> P x"
  by (induction xs) auto

lemma started_timer_is_called:
  assumes "reachable w m" "valid_sort ti_whenElapsed (w_sort w)"
    and "map_find (timerEntryMap m) n = Some e" "te_callback e = Some cb" "te_uid e \<notin> proxyUids m"
    and "GetBootTimeNs w (ticks m + 1) \<le> ConvertToElapsed w (ticks m + 2) (sint t) (te_type e)"
    and "StartTimer w n t m = (m1, True)" "result \<noteq> TIME_CHANGED_MASK"
    and "\<forall>b \<in> set (alarmBatches m1). (\<exists>a \<in> set (b_alarms b). ti_id a = n) \<longrightarrow> GetStart b \<le> now"
    and "\<forall>b \<in> set (before n m1). GetStart b \<le> now \<and> (\<forall>a \<in> set (b_alarms b). \<not> repeating a)"
    and "now_ok now" "\<forall>a \<in># scheduled m1. alarm_ok a"
  shows "\<exists>m2 new. looper_trigger w result now m1 = Some m2 \<and> fired m2 = fired m1 @ new \<and> (cb, n) \<in> set new"
proof -
  have e: "te_id e = n" using reachable_inv [OF assms(1)] assms(3) by (auto simp: manager_inv_def entries_inv_def)
  have m1: "m1 = SetHandler w n (te_type e) t (te_windowLength e) (te_interval e) (te_flag e) (te_callback e) (te_uid e) m"
    using assms(3,7) by (simp add: StartTimer_def e)
  from SetHandler_accepts [OF assms(6), of n "te_windowLength e" "te_interval e" "te_flag e" "te_callback e" "te_uid e"]
  obtain a0 where a0: "alarmBatches m1 = insert_and_batch a0 (alarmBatches m)"
    "request_of n (te_type e) t (te_flag e) (te_callback e) a0"
    unfolding m1 by metis
  then have "a0 \<in># scheduled_in (alarmBatches m1)" "ti_id a0 = n" by (simp_all add: scheduled_in_insert request_of_def)
  then have "\<exists>b \<in> set (alarmBatches m1). \<not> (\<forall>a \<in> set (b_alarms b). ti_id a \<noteq> n)"
    by (auto simp: set_scheduled_in)
  from takeWhile_split [OF this] obtain b post where split: "alarmBatches m1 = before n m1 @ b # post"
    and "\<not> (\<forall>a \<in> set (b_alarms b). ti_id a \<noteq> n)" unfolding before_def by blast
  then obtain a where a: "a \<in> set (b_alarms b)" "ti_id a = n" by blast
  have inv: "manager_inv m1"
    using reachable_inv [OF reachable.step [OF assms(1) step.start [of w m n t]]] assms(7) by simp
  have "b \<in> set (alarmBatches m1)" by (subst split) simp
  then have b: "GetStart b \<le> now" using assms(9) a by blast
  obtain ts m2 where m2: "looper_trigger w result now m1 = Some m2" "triggered now ` set (b_alarms b) \<subseteq> set ts"
    "fired m2 = fired m1 @ calls (filter (\<lambda>a. ti_uid a \<notin> proxyUids m1) ts)"
    by (rule due_batch_delivered [OF assms(2) inv assms(8,11,12) split b assms(10)])
  have reg: "timerEntryMap m1 = timerEntryMap m" "proxyUids m1 = proxyUids m"
    using Start_registry [of m w n t] assms(7) by (simp_all add: same_registry_def)
  have "a \<in># scheduled m1" unfolding scheduled_def by (subst split) (simp add: a(1))
  then have "belongs (timerEntryMap m) a" using inv by (simp add: manager_inv_def reg)
  then have "ti_callback a = Some cb" "ti_uid a \<notin> proxyUids m"
    using a(2) assms(3-5) by (auto simp: belongs_def)
  moreover from m2(2) a(1) have "triggered now a \<in> set ts" by blast
  ultimately have "(cb, n) \<in> set (calls (filter (\<lambda>a. ti_uid a \<notin> proxyUids m1) ts))"
    using a(2) reg(2) by (auto simp: calls_def call_of_def intro!: bexI [of _ "triggered now a"])
  with m2 show ?thesis by blast
qed

lemma created_state_sel:
  "alarmBatches created_state = []" "proxyUids created_state = {}" "ticks created_state = 0"
  "map_find (timerEntryMap created_state) 1 = Some \<lparr>te_id = 1, te_type = ELAPSED_REALTIME_WAKEUP,
     te_windowLength = 0, te_interval = 0, te_flag = 0, te_callback = Some (Notify_Remote 1), te_uid = 100\<rparr>"
  by (simp_all add: created_state_def TimerManager_def map_find_def)

text \<open>The timer of the example, started for a time 100 seconds ahead.\<close>

lemma sample_started_alarm:
  obtains a where "alarmBatches (fst (StartTimer sample_world 1 200000 created_state)) = [Batch_seed a]" "ti_id a = 1"
    "ti_whenElapsed a = ms_to_ns 200000" "ti_repeatInterval a = 0" "ti_expectedWhenElapsed a = ti_whenElapsed a"
proof -
  have later: "GetBootTimeNs sample_world (ticks created_state + 1) \<le>
      ConvertToElapsed sample_world (ticks created_state + 2) (sint (200000 :: u64)) ELAPSED_REALTIME_WAKEUP"
    by (simp add: ConvertToElapsed_def timer_type_defs ms_to_ns_def)
  obtain a where "alarmBatches (fst (StartTimer sample_world 1 200000 created_state)) = insert_and_batch a []"
    and a: "ti_whenElapsed a = ms_to_ns 200000" "ti_repeatInterval a = 0" "ti_expectedWhenElapsed a = ti_whenElapsed a"
      "ti_id a = 1"
    by (rule SetHandler_accepts [OF later, of 1 0 0 0 "Some (Notify_Remote 1)" 100])
      (simp add: StartTimer_def created_state_sel interval_duration_def timer_constants
        ConvertToElapsed_def timer_type_defs ms_to_ns_def request_of_def)
  then have "alarmBatches (fst (StartTimer sample_world 1 200000 created_state)) = [Batch_seed a]"
    by (simp add: insert_and_batch_cases AddBatchLocked_def upper_bound_def ub_search.simps list_insert_def)
  with a show thesis using that by blast
qed

lemma sample_started:
  defines "m1 \<equiv> fst (StartTimer sample_world 1 200000 created_state)"
  shows "reachable sample_world created_state" "StartTimer sample_world 1 200000 created_state = (m1, True)"
    and "GetBootTimeNs sample_world (ticks created_state + 1) \<le>
      ConvertToElapsed sample_world (ticks created_state + 2) (sint (200000 :: u64)) ELAPSED_REALTIME_WAKEUP"
    and "\<forall>b \<in> set (alarmBatches m1). (\<exists>x \<in> set (b_alarms b). ti_id x = 1) \<longrightarrow> GetStart b \<le> ms_to_ns 200000"
    and "\<forall>b \<in> set (before 1 m1). GetStart b \<le> ms_to_ns 200000 \<and> (\<forall>x \<in> set (b_alarms b). \<not> repeating x)"
    and "now_ok (ms_to_ns 200000)" "\<forall>x \<in># scheduled m1. alarm_ok x"
proof -
  show "reachable sample_world created_state"
    by (rule reachable.step [OF reachable.init step.create [OF _ CreateTimer_sample]]) (simp add: in_i32_def)
  show "StartTimer sample_world 1 200000 created_state = (m1, True)"
    by (simp add: m1_def StartTimer_def created_state_sel)
  show "GetBootTimeNs sample_world (ticks created_state + 1) \<le>
      ConvertToElapsed sample_world (ticks created_state + 2) (sint (200000 :: u64)) ELAPSED_REALTIME_WAKEUP"
    by (simp add: ConvertToElapsed_def timer_type_defs ms_to_ns_def)
  obtain a where m1: "alarmBatches m1 = [Batch_seed a]"
    and a: "ti_id a = 1" "ti_whenElapsed a = ms_to_ns 200000" "ti_repeatInterval a = 0" "ti_expectedWhenElapsed a = ti_whenElapsed a"
    unfolding m1_def by (rule sample_started_alarm)
  show "\<forall>b \<in> set (alarmBatches m1). (\<exists>x \<in> set (b_alarms b). ti_id x = 1) \<longrightarrow> GetStart b \<le> ms_to_ns 200000"
    "\<forall>b \<in> set (before 1 m1). GetStart b \<le> ms_to_ns 200000 \<and> (\<forall>x \<in> set (b_alarms b). \<not> repeating x)"
    "\<forall>x \<in># scheduled m1. alarm_ok x" "now_ok (ms_to_ns 200000)"
    by (simp_all add: m1 a GetStart_def before_def scheduled_def alarm_ok_def stale_def now_ok_def MAX_INTERVAL_def ms_to_ns_def)
qed

lemma started_timer_is_called_run:
  "\<exists>m2 new. looper_trigger sample_world 4 (ms_to_ns 200000) (fst (StartTimer sample_world 1 200000 created_state)) = Some m2 \<and>
    fired m2 = fired (fst (StartTimer sample_world 1 200000 created_state)) @ new \<and> (Notify_Remote 1, 1) \<in> set new"
  by (rule started_timer_is_called [OF sample_started(1) _ created_state_sel(4) _ _ _ sample_started(2) _ sample_started(4-7)])
    (use sample_started(3) in \<open>simp_all add: created_state_sel valid_sort_sort_key TIME_CHANGED_MASK_def\<close>)

theorem looper_delivers_witness:
  "let m1 = fst (StartTimer sample_world 1 200000 created_state)
   in \<exists>m2. looper_trigger sample_world 4 (ms_to_ns 200000) m1 = Some m2 \<and>
     image_mset ti_id (scheduled m1) = {#1#} \<and> scheduled m2 = {#} \<and> fired m2 = fired m1 @ [(Notify_Remote 1, 1)]"
proof -
  let ?now = "ms_to_ns 200000"
  define m1 where "m1 = fst (StartTimer sample_world 1 200000 created_state)"
  have inv: "manager_inv m1" unfolding m1_def
    by (rule reachable_inv [OF reachable.step [OF sample_started(1) step.start]])
  obtain a where a: "alarmBatches m1 = [Batch_seed a]" "ti_id a = 1" "ti_whenElapsed a = ?now" "ti_repeatInterval a = 0"
    unfolding m1_def by (rule sample_started_alarm)
  obtain m2 where m2: "looper_trigger sample_world 4 ?now m1 = Some m2"
    using started_timer_is_called_run unfolding m1_def by blast
  have reg: "proxyUids m1 = {}" "timerEntryMap m1 = timerEntryMap created_state"
    using Start_registry [of created_state sample_world 1 200000] by (simp_all add: same_registry_def created_state_sel m1_def)
  have "a \<in># scheduled m1" by (simp add: scheduled_def a(1))
  with inv have "belongs (timerEntryMap m1) a" by (simp add: manager_inv_def)
  then have cb: "ti_callback a = Some (Notify_Remote 1)"
    using created_state_sel(4) by (auto simp: belongs_def reg a(2))
  obtain hw where t: "TriggerTimersLocked sample_world [] ?now m1 = Some ([triggered ?now a], hw, m1\<lparr>alarmBatches := []\<rparr>)"
    using Trigger_oneshot [of ?now m1 sample_world "[]"] a by (auto simp: GetStart_def repeating_def)
  obtain taken where taken: "mset [triggered ?now a] = image_mset (triggered ?now) taken"
    "scheduled m2 + taken = scheduled m1 + image_mset (next_alarm ?now) (filter_mset repeating taken)"
    and f: "fired m2 = fired m1 @ calls (filter (\<lambda>a. ti_uid a \<notin> proxyUids m1) [triggered ?now a])"
    using looper_delivers [OF _ inv _ m2] t by (auto simp: valid_sort_sort_key TIME_CHANGED_MASK_def)
  obtain x where "taken = {#x#}" "triggered ?now x = triggered ?now a"
    using taken(1) [symmetric] by (cases taken) auto
  moreover from this have "\<not> repeating x"
    using triggered_next(2) a(4) by (metis repeating_def less_irrefl)
  ultimately have "scheduled m2 = {#}" using taken(2) a(1) by (auto simp: scheduled_def)
  then show ?thesis
    using m2 f cb a by (simp add: m1_def [symmetric] reg call_of_def scheduled_def)
qed

text \<open>What \<open>AttemptCoalesceLocked\<close> gets wrong: it returns index 0 for whichever batch can hold
  the alarm. So whenever an alarm fits a later batch and the first batch has an alarm whose deadline is
  before the new alarm's time, the new alarm is put beside that one, in a batch that starts after its
  deadline.\<close>

theorem coalesce_delays_exact_alarm:
  assumes "ti_flags a AND STANDALONE = 0"
    and "\<exists>b' \<in> set bs. GetFlags b' AND STANDALONE = 0 \<and> CanHold b' (ti_whenElapsed a) (ti_maxWhenElapsed a)"
    and "x \<in> set (b_alarms b)" "ti_maxWhenElapsed x < ti_whenElapsed a"
  shows "\<exists>b' \<in> set (insert_and_batch a (b # bs)).
    {x, a} \<subseteq> set (b_alarms b') \<and> ti_maxWhenElapsed x < GetStart b'"
  using assms by (auto simp: insert_and_batch_cases GetStart_def alarm_order.set_ins batch_order.set_ins)

theorem coalesce_delays_exact_alarm_witness:
  "let bs = [Batch_seed (sample_alarm 1 10000 0 0), Batch_seed (sample_alarm 2 20000 20000 0)]
   in list_all feasible bs \<and>
      (\<exists>b' \<in> set (insert_and_batch (sample_alarm 3 30000 20000 0) bs).
        sample_alarm 1 10000 0 0 \<in> set (b_alarms b') \<and> ms_to_ns 10000 < GetStart b')"
  using coalesce_delays_exact_alarm [of "sample_alarm 3 30000 20000 0" "[Batch_seed (sample_alarm 2 20000 20000 0)]"
      "sample_alarm 1 10000 0 0" "Batch_seed (sample_alarm 1 10000 0 0)"]
  by (auto simp: feasible_def GetFlags_def CanHold_def STANDALONE_def ms_to_ns_def)

text \<open>
  Re-batching, alarm by alarm: the clocks are read anew for each, twice, and an alarm is kept when its nominal
  time, converted with this reading, has not passed.
\<close>

definition retimed :: "world \<Rightarrow> int \<Rightarrow> nat \<Rightarrow> timer_info \<Rightarrow> timer_info" where
  "retimed w now t a =
     (let x = ConvertToElapsed w t (ti_origWhen a) (ti_type a)
      in a\<lparr>ti_when := ti_origWhen a, ti_whenElapsed := x,
           ti_maxWhenElapsed := (if ti_windowLength a = 0 then x
             else if ti_windowLength a > 0 then x + ms_to_ns (ti_windowLength a)
             else MaxTriggerTime now x (ti_repeatInterval a))\<rparr>)"

fun rebatched :: "world \<Rightarrow> int \<Rightarrow> nat \<Rightarrow> timer_info list \<Rightarrow> timer_info list" where
  "rebatched w now t [] = []"
| "rebatched w now t (a # as) =
     (if ConvertToElapsed w t (ti_origWhen a) (ti_type a) < now then [] else [retimed w now t a]) @
     rebatched w now (t + 2) as"

lemma retimed_readded:
  "readded a (retimed w now t a)" "ti_whenElapsed (retimed w now t a) = ConvertToElapsed w t (ti_origWhen a) (ti_type a)"
proof -
  let ?x = "ConvertToElapsed w t (ti_origWhen a) (ti_type a)"
  define y where "y = (if ti_windowLength a = 0 then ?x else if ti_windowLength a > 0 then ?x + ms_to_ns (ti_windowLength a)
    else MaxTriggerTime now ?x (ti_repeatInterval a))"
  have "?x \<le> y" by (simp add: y_def MaxTriggerTime_ge)
  then show "readded a (retimed w now t a)"
    unfolding readded_def retimed_def Let_def y_def [symmetric]
    by (intro exI [of _ ?x] exI [of _ y]) (simp add: ConvertToElapsed_elapsed)
  show "ti_whenElapsed (retimed w now t a) = ?x" by (simp add: retimed_def Let_def)
qed

lemma scheduled_ReAdd_retimed:
  "scheduled (ReAddTimerLocked w now dv a m) = scheduled m +
     (if ConvertToElapsed w (ticks m) (ti_origWhen a) (ti_type a) < now then {#} else {#retimed w now (ticks m) a#})"
  by (simp add: ReAddTimerLocked_def SetHandlerLocked_alarm_def scheduled_def scheduled_in_insert retimed_def Let_def)

lemma scheduled_fold_rebatched:
  "scheduled (fold (ReAddTimerLocked w now dv) as m) = scheduled m + mset (rebatched w now (ticks m) as)"
proof (induction as arbitrary: m)
  case (Cons a as)
  have "ticks (ReAddTimerLocked w now dv a m) = ticks m + 2"
    by (simp add: ReAddTimerLocked_def SetHandlerLocked_alarm_def Let_def)
  then show ?case
    using Cons.IH [of "ReAddTimerLocked w now dv a m"] by (simp add: scheduled_ReAdd_retimed)
qed simp

lemma ReBatch_rebatched:
  "scheduled (ReBatchAllTimersLocked w dv m) =
    mset (rebatched w (GetBootTimeNs w (ticks m)) (Suc (ticks m)) (concat (map b_alarms (alarmBatches m))))"
  by (simp add: ReBatch_eq scheduled_fold_rebatched del: set_concat)

lemma rebatched_member:
  "a' \<in> set (rebatched w now t as) \<Longrightarrow>
    \<exists>a \<in> set as. \<exists>t. readded a a' \<and> ti_whenElapsed a' = ConvertToElapsed w t (ti_origWhen a) (ti_type a) \<and> now \<le> ti_whenElapsed a'"
proof (induction as arbitrary: t)
  case (Cons a as)
  then consider "a' \<in> set (rebatched w now (t + 2) as)"
    | "a' = retimed w now t a" "now \<le> ConvertToElapsed w t (ti_origWhen a) (ti_type a)"
    by (auto split: if_splits)
  then show ?case
  proof cases
    case 1
    from Cons.IH [OF this] show ?thesis by auto
  next
    case 2
    then show ?thesis using retimed_readded [where a = a] by auto
  qed
qed simp

text \<open>C35. Re-batching restores the order whatever the list was. What is scheduled afterwards is, alarm by alarm, what was
  scheduled, less those whose nominal time has passed at the moment their clocks are read: each alarm kept
  is an alarm that was scheduled, at its nominal time as converted by that reading, so that alarms of the
  wall clock follow it, and none is overdue; and none is lost when the nominal time of none has passed.\<close>

theorem ReBatch_restores:
  "let m' = ReBatchAllTimers w m; now = GetBootTimeNs w (ticks m)
   in batches_inv (alarmBatches m') \<and>
      scheduled m' = mset (rebatched w now (Suc (ticks m)) (concat (map b_alarms (alarmBatches m)))) \<and>
      (\<forall>a' \<in># scheduled m'. \<exists>a \<in># scheduled m. \<exists>t. readded a a' \<and>
        ti_whenElapsed a' = ConvertToElapsed w t (ti_origWhen a) (ti_type a) \<and> now \<le> ti_whenElapsed a') \<and>
      ((\<forall>a \<in># scheduled m. \<forall>t. now \<le> ConvertToElapsed w t (ti_origWhen a) (ti_type a)) \<longrightarrow>
        image_mset ti_id (scheduled m') = image_mset ti_id (scheduled m))"
proof -
  let ?now = "GetBootTimeNs w (ticks m)"
  have "\<exists>a \<in># scheduled m. \<exists>t. readded a a' \<and>
      ti_whenElapsed a' = ConvertToElapsed w t (ti_origWhen a) (ti_type a) \<and> ?now \<le> ti_whenElapsed a'"
    if "a' \<in># scheduled (ReBatchAllTimersLocked w True m)" for a'
  proof -
    from that have "a' \<in> set (rebatched w ?now (Suc (ticks m)) (concat (map b_alarms (alarmBatches m))))"
      by (simp only: ReBatch_rebatched set_mset_mset)
    from rebatched_member [OF this] show ?thesis
      unfolding scheduled_def set_scheduled_in by (simp only: set_concat set_map) blast
  qed
  then show ?thesis
    using ReBatch_inv [of w True m] ReBatch_rebatched [of w True m] ReBatch_ids [of m w True]
    by (simp add: ReBatchAllTimers_def Let_def del: set_concat)
qed

theorem ReBatch_restores_witness:
  "image_mset ti_id (scheduled (ReBatchAllTimers sample_world
     (sample_state [Batch_seed (sample_alarm 2 300000 0 0), Batch_seed (sample_alarm 1 200000 0 0)]))) = {#1, 2#}"
  using ReBatch_restores [of sample_world
      "sample_state [Batch_seed (sample_alarm 2 300000 0 0), Batch_seed (sample_alarm 1 200000 0 0)]"]
  by (simp add: ConvertToElapsed_def sample_alarm_def timer_type_defs ms_to_ns_def Let_def add_mset_commute
      readded_id [OF retimed_readded(1)])

section \<open>Kernel timers, proxies, registration\<close>

text \<open>C36. Rescheduling arms the kernel's wake-up timer for the start of the first batch that wakes the
  device and, when that is not the first batch, the other timer for the first batch, both on the boot clock, in
  which the starts are counted; no other kernel timer changes, provided the kernel accepts normalised times.\<close>

theorem Reschedule_arms_first:
  assumes "settime_documented (w_settime w)" "\<forall>b \<in> set (alarmBatches m). 0 < GetStart b"
    and "alarmBatches m = b # bs"
  shows "let k = kernelTimers (RescheduleKernelTimerLocked w m); wakeups = filter HasWakeups (b # bs)
    in k 2 = (if wakeups = [] then kernelTimers m 2 else Some (timespec_of (GetStart (hd wakeups)))) \<and>
       k 3 = (if HasWakeups b then kernelTimers m 3 else Some (timespec_of (GetStart b))) \<and>
       (\<forall>i. i = 2 \<or> i = 3 \<or> k i = kernelTimers m i) \<and>
       alarm_to_clock_id ! 2 = CLOCK_BOOTTIME_ALARM \<and> alarm_to_clock_id ! 3 = CLOCK_BOOTTIME"
proof (cases "FindFirstWakeupBatchLocked (b # bs)")
  case None
  then have "filter HasWakeups (b # bs) = []" by (simp only: FindFirstWakeup_None filter_empty_conv not_False_eq_True)
  moreover have "\<not> HasWakeups b" using None by (simp add: FindFirstWakeup_None)
  ultimately show ?thesis
    using Reschedule_kernel [OF assms] None by (simp add: assms(3) alarm_to_clock_id_def Let_def)
next
  case (Some i)
  then have i: "i < length (b # bs)" "HasWakeups ((b # bs) ! i)" "\<forall>j < i. \<not> HasWakeups ((b # bs) ! j)"
    using FindFirstWakeup_Some by blast+
  have "filter HasWakeups (take i (b # bs)) = []"
    using i(1,3) by (auto simp: filter_empty_conv in_set_conv_nth simp del: take_Suc_Cons)
  then have f: "filter HasWakeups (b # bs) = (b # bs) ! i # filter HasWakeups (drop (Suc i) (b # bs))"
    using i(2) by (subst id_take_nth_drop [OF i(1)]) (simp only: filter_append filter.simps append_Nil if_True)
  show ?thesis
    using Reschedule_kernel [OF assms] Some unfolding f by (simp add: assms(3) alarm_to_clock_id_def Let_def)
qed

theorem Reschedule_arms_first_witness:
  "kernelTimers (RescheduleKernelTimerLocked sample_world (sample_state [Batch_seed (sample_alarm 1 90500 0 0)])) 2 =
     Some (90, 500000000)"
  using Reschedule_arms_first [of sample_world "sample_state [Batch_seed (sample_alarm 1 90500 0 0)]"
      "Batch_seed (sample_alarm 1 90500 0 0)" "[]"]
  by (simp add: settime_documented_def GetStart_def ms_to_ns_def HasWakeups_def sample_alarm_def
      timer_type_defs TYPE_NONWAKEUP_MASK_def timespec_of_def Let_def)

text \<open>Ending a proxy with \<open>needRetrigger\<close> calls back the uid's whole queue in order; without it
  the queue is dropped; either way the uid has no queue and is no longer proxied, other queues are
  untouched, and ending a proxy that was never started is refused.\<close>

theorem ProxyTimer_ends:
  "let (m', ok) = ProxyTimer uid False retrigger m
   in (ok \<longleftrightarrow> uid \<in> proxyUids m) \<and>
      (if uid \<in> proxyUids m
       then proxyUids m' = proxyUids m - {uid} \<and> queue_of m' uid = [] \<and>
         (\<forall>u. u = uid \<or> queue_of m' u = queue_of m u) \<and>
         fired m' = fired m @ (if retrigger then calls (queue_of m uid) else [])
       else m' = m)"
  by (auto simp: ProxyTimer_def call_back_all_eq queue_of_def Let_def split: option.splits)

text \<open>\<open>CreateTimer\<close> returns a number that is not 0, whenever the random engine yields one; the
  number is registered, and an entry that has the number already is left as it is.\<close>

theorem CreateTimer_registers:
  assumes "w_random w k \<noteq> 0" "randomPos m \<le> k"
  shows "\<exists>m' n. CreateTimer w type wl iv fl cb uid m = Some (m', n) \<and> n \<noteq> 0 \<and>
    map_find (timerEntryMap m') n =
      (case map_find (timerEntryMap m) n of
         None \<Rightarrow> Some \<lparr>te_id = n, te_type = type, te_windowLength = wl, te_interval = iv,
                        te_flag = fl, te_callback = cb, te_uid = uid\<rparr>
       | Some e \<Rightarrow> Some e) \<and>
    (\<forall>k. k = n \<or> map_find (timerEntryMap m') k = map_find (timerEntryMap m) k)"
proof -
  from draw_returns [of "w_random w", OF assms] obtain n p where d: "draw (w_random w) (randomPos m) = Some (n, p)" by blast
  show ?thesis
    using draw_nonzero [OF d]
    by (simp add: CreateTimer_def d Let_def std_map_registry.lookup_register split: option.splits)
qed

theorem CreateTimer_registers_witness:
  "\<exists>m' n. CreateTimer sample_world RTC 0 0 0 None 0 TimerManager = Some (m', n) \<and> n \<noteq> 0"
  using CreateTimer_registers [of sample_world 1 TimerManager RTC 0 0 0 None 0] by (auto simp: TimerManager_def)

end
