(* ===== verification/File_Utils.thy ===== *)
theory File_Utils
  imports Cpp_Std "HOL-Library.Sublist"
begin

text \<open>
  \<open>TimeFileUtils\<close> (\<open>time_file_utils.cpp\<close>). The file system is outside the program: its
  state is a type parameter, and the system calls are the fields of \<open>file_system\<close>. What
  \<open>mkdir\<close> and \<open>remove\<close> document is stated as \<open>mkdir_documented\<close> and \<open>remove_documented\<close>.
  A path is \<open>None\<close> for a null pointer.
\<close>

datatype file_kind = Regular | Directory | Other_kind

text \<open>
  \<open>fs_write\<close> opens, truncates and writes; \<open>None\<close> when the file cannot be opened, and
  otherwise the number of bytes that \<open>write\<close> reports. \<open>fs_readdir\<close> is \<open>None\<close> when the
  directory cannot be opened.
\<close>

record 'fs file_system =
  fs_stat :: "'fs \<Rightarrow> string \<Rightarrow> file_kind option"
  fs_mkdir :: "string \<Rightarrow> nat \<Rightarrow> 'fs \<Rightarrow> 'fs option"
  fs_remove :: "string \<Rightarrow> 'fs \<Rightarrow> 'fs option"
  fs_readdir :: "string \<Rightarrow> 'fs \<Rightarrow> string list option"
  fs_rename :: "string \<Rightarrow> string \<Rightarrow> 'fs \<Rightarrow> 'fs option"
  fs_chown :: "string \<Rightarrow> int \<Rightarrow> int \<Rightarrow> 'fs \<Rightarrow> 'fs option"
  fs_write :: "string \<Rightarrow> string \<Rightarrow> 'fs \<Rightarrow> ('fs \<times> int) option"

definition PATH_MAX :: nat where "PATH_MAX = 4096"
definition PATH_SEPARATOR :: char where "PATH_SEPARATOR = CHR ''/''"

definition IsExistDir :: "'fs file_system \<Rightarrow> string option \<Rightarrow> 'fs \<Rightarrow> bool" where
  "IsExistDir os path s = (case path of None \<Rightarrow> False | Some p \<Rightarrow> fs_stat os s p = Some Directory)"

definition IsExistFile :: "'fs file_system \<Rightarrow> string option \<Rightarrow> 'fs \<Rightarrow> bool" where
  "IsExistFile os path s = (case path of None \<Rightarrow> False | Some p \<Rightarrow> fs_stat os s p = Some Regular)"

section \<open>Creating directories\<close>

text \<open>0771, and 0775 when others may read.\<close>

definition dir_mode :: "bool \<Rightarrow> nat" where
  "dir_mode isReadOthers = 448 + 56 + 1 + (if isReadOthers then 4 else 0)"

text \<open>The loop: \<open>rootDir\<close> is what has been copied so far, the second list what is left of \<open>dir\<close>.\<close>

fun make_levels :: "'fs file_system \<Rightarrow> nat \<Rightarrow> string \<Rightarrow> string \<Rightarrow> 'fs \<Rightarrow> 'fs \<times> bool" where
  "make_levels os mode rootDir [] s = (s, True)"
| "make_levels os mode rootDir (c # rest) s =
     (let rootDir' = rootDir @ [c] in
      if (c = PATH_SEPARATOR \<or> rest = []) \<and> \<not> IsExistDir os (Some rootDir') s
      then case fs_mkdir os rootDir' mode s of
             None \<Rightarrow> (s, False)
           | Some s' \<Rightarrow> make_levels os mode rootDir' rest s'
      else make_levels os mode rootDir' rest s)"

definition MkRecursiveDir :: "'fs file_system \<Rightarrow> string option \<Rightarrow> bool \<Rightarrow> 'fs \<Rightarrow> 'fs \<times> bool" where
  "MkRecursiveDir os dir isReadOthers s =
     (case dir of
        None \<Rightarrow> (s, False)
      | Some d \<Rightarrow>
          if IsExistDir os dir s then (s, True)
          else if length d = 0 \<or> length d > PATH_MAX then (s, False)
          else make_levels os (dir_mode isReadOthers) [] d s)"

section \<open>Files\<close>

text \<open>
  \<open>RemoveFile\<close> empties a directory by calling itself on a longer path, and refuses a path of
  \<open>PATH_MAX\<close> characters: so it ends, whatever the file system answers.
\<close>

function RemoveFile :: "'fs file_system \<Rightarrow> string \<Rightarrow> 'fs \<Rightarrow> 'fs \<times> bool"
  and remove_entries :: "'fs file_system \<Rightarrow> string \<Rightarrow> string list \<Rightarrow> 'fs \<Rightarrow> 'fs \<times> bool" where
  "RemoveFile os path s =
     (if IsExistFile os (Some path) s
      then (case fs_remove os path s of None \<Rightarrow> (s, False) | Some s' \<Rightarrow> (s', True))
      else if IsExistDir os (Some path) s
      then case fs_readdir os path s of
             None \<Rightarrow> (s, False)
           | Some names \<Rightarrow>
               (case remove_entries os path names s of (s', ok) \<Rightarrow>
                  if \<not> ok then (s', False)
                  else case fs_remove os path s' of None \<Rightarrow> (s', False) | Some s'' \<Rightarrow> (s'', True))
      else (s, True))"
| "remove_entries os path [] s = (s, True)"
| "remove_entries os path (d_name # names) s =
     (if d_name = ''.'' \<or> d_name = ''..'' then remove_entries os path names s
      else if PATH_MAX \<le> length (path @ ''/'' @ d_name) then (s, False)
      else case RemoveFile os (path @ ''/'' @ d_name) s of (s', ok) \<Rightarrow>
        if \<not> ok then (s', False) else remove_entries os path names s')"
  by pat_completeness auto

termination
  by (relation "measures
      [\<lambda>x. case x of Inl (os, path, s) \<Rightarrow> 2 * (PATH_MAX - length path) + 1
        | Inr (os, path, names, s) \<Rightarrow> 2 * (PATH_MAX - length path),
       \<lambda>x. case x of Inl (os, path, s) \<Rightarrow> 0 | Inr (os, path, names, s) \<Rightarrow> length names]") auto

declare RemoveFile.simps [simp del]

definition RenameFile :: "'fs file_system \<Rightarrow> string option \<Rightarrow> string option \<Rightarrow> 'fs \<Rightarrow> 'fs \<times> bool" where
  "RenameFile os oldFile newFile s =
     (case (oldFile, newFile) of
        (Some old, Some new) \<Rightarrow>
          (case RemoveFile os new s of (s', ok) \<Rightarrow>
             if \<not> ok then (s', False)
             else case fs_rename os old new s' of None \<Rightarrow> (s', False) | Some s'' \<Rightarrow> (s'', True))
      | _ \<Rightarrow> (s, False))"

definition ChownFile :: "'fs file_system \<Rightarrow> string option \<Rightarrow> int \<Rightarrow> int \<Rightarrow> 'fs \<Rightarrow> 'fs \<times> bool" where
  "ChownFile os path uid gid s =
     (case path of
        None \<Rightarrow> (s, False)
      | Some p \<Rightarrow> (case fs_chown os p uid gid s of None \<Rightarrow> (s, False) | Some s' \<Rightarrow> (s', True)))"

definition WriteFile :: "'fs file_system \<Rightarrow> string option \<Rightarrow> string option \<Rightarrow> u32 \<Rightarrow> 'fs \<Rightarrow> 'fs \<times> bool" where
  "WriteFile os path buffer bufSize s =
     (case (path, buffer) of
        (Some p, Some buf) \<Rightarrow>
          if bufSize = 0 then (s, False)
          else (case fs_write os p (take (unat bufSize) buf) s of
                  None \<Rightarrow> (s, False)
                | Some (s', written) \<Rightarrow> (s', written = sint bufSize))
      | _ \<Rightarrow> (s, False))"

section \<open>Paths\<close>

text \<open>\<open>string::find\<close> and \<open>rfind\<close> of a character, and \<open>find\<close> of a string; \<open>None\<close> is \<open>npos\<close>.\<close>

fun find_char :: "char \<Rightarrow> string \<Rightarrow> nat option" where
  "find_char c [] = None"
| "find_char c (x # xs) = (if x = c then Some 0 else map_option Suc (find_char c xs))"

definition rfind_char :: "char \<Rightarrow> string \<Rightarrow> nat option" where
  "rfind_char c s = map_option (\<lambda>i. length s - 1 - i) (find_char c (rev s))"

fun find_string :: "string \<Rightarrow> string \<Rightarrow> nat option" where
  "find_string pat [] = (if pat = [] then Some 0 else None)"
| "find_string pat (x # xs) =
     (if take (length pat) (x # xs) = pat then Some 0 else map_option Suc (find_string pat xs))"

definition IsValidPath :: "string \<Rightarrow> string \<Rightarrow> bool" where
  "IsValidPath rootDir path =
     (if find_char PATH_SEPARATOR rootDir \<noteq> Some 0 \<or>
         rfind_char PATH_SEPARATOR rootDir \<noteq> Some (length rootDir - 1) \<or>
         find_string ''..'' rootDir \<noteq> None then False
      else if find_string ''..'' path \<noteq> None then False
      else take (length rootDir) path = rootDir)"

definition GetPathDir :: "string \<Rightarrow> string" where
  "GetPathDir path =
     (case rfind_char PATH_SEPARATOR path of None \<Rightarrow> [] | Some pos \<Rightarrow> take (pos + 1) path)"

section \<open>Laws\<close>

lemma find_char_None: "find_char c s = None \<longleftrightarrow> c \<notin> set s"
  by (induction s) auto

lemma find_char_Some: "find_char c s = Some i \<Longrightarrow> i < length s \<and> s ! i = c \<and> c \<notin> set (take i s)"
proof (induction s arbitrary: i)
  case (Cons x xs)
  then show ?case by (cases i) (auto split: if_splits)
qed simp

lemma find_string_None: "find_string pat s = None \<longleftrightarrow> \<not> sublist pat s"
proof (induction s)
  case (Cons x xs)
  have "prefix pat (x # xs) \<longleftrightarrow> take (length pat) (x # xs) = pat"
    by (metis append_eq_conv_conj prefix_def take_is_prefix)
  with Cons show ?case by (auto simp: sublist_Cons_right)
qed auto

lemma rfind_char_Some:
  "rfind_char c s = Some i \<Longrightarrow> i < length s \<and> s ! i = c \<and> c \<notin> set (drop (Suc i) s)"
proof -
  assume "rfind_char c s = Some i"
  then obtain j where j: "find_char c (rev s) = Some j" "i = length s - 1 - j"
    by (auto simp: rfind_char_def)
  note f = find_char_Some [OF j(1)]
  then have "j < length s" by simp
  then have "take j (rev s) = rev (drop (Suc i) s)"
    using j(2) by (simp add: take_rev Suc_diff_Suc)
  with f j(2) \<open>j < length s\<close> show ?thesis by (auto simp: rev_nth)
qed

lemma rfind_char_None: "rfind_char c s = None \<longleftrightarrow> c \<notin> set s"
  by (simp add: rfind_char_def find_char_None)

text \<open>What \<open>mkdir\<close> documents: on success the path is a directory, and what was one still is.\<close>

definition mkdir_documented :: "'fs file_system \<Rightarrow> bool" where
  "mkdir_documented os \<longleftrightarrow>
     (\<forall>p mode s s'. fs_mkdir os p mode s = Some s' \<longrightarrow>
        fs_stat os s' p = Some Directory \<and>
        (\<forall>q. fs_stat os s q = Some Directory \<longrightarrow> fs_stat os s' q = Some Directory))"

lemma mkdirD:
  assumes "mkdir_documented os" "fs_mkdir os p mode s = Some s'"
  shows "fs_stat os s' p = Some Directory"
    and "fs_stat os s q = Some Directory \<Longrightarrow> fs_stat os s' q = Some Directory"
  using assms unfolding mkdir_documented_def by blast+

lemma make_levels_keeps:
  assumes "mkdir_documented os"
  shows "make_levels os mode root rest s = (s', ok) \<Longrightarrow> fs_stat os s q = Some Directory \<Longrightarrow>
    fs_stat os s' q = Some Directory"
proof (induction rest arbitrary: root s)
  case (Cons c rest)
  then show ?case
    by (auto simp: Let_def split: if_splits option.splits dest: mkdirD(2) [OF assms, of _ _ _ _ q])
qed simp

lemma make_levels_creates:
  assumes "mkdir_documented os"
  shows "make_levels os mode root rest s = (s', True) \<Longrightarrow> rest \<noteq> [] \<Longrightarrow>
    fs_stat os s' (root @ rest) = Some Directory"
proof (induction rest arbitrary: root s)
  case (Cons c rest)
  show ?case
  proof (cases "rest = []")
    case True
    with Cons.prems(1) show ?thesis
      by (auto simp: Let_def IsExistDir_def split: if_splits option.splits dest: mkdirD(1) [OF assms])
  next
    case False
    obtain s1 where "make_levels os mode (root @ [c]) rest s1 = (s', True)"
      using Cons.prems(1) by (auto simp: Let_def split: if_splits option.splits)
    from Cons.IH [OF this False] show ?thesis by simp
  qed
qed simp

section \<open>Guarantees\<close>

text \<open>\<open>MkRecursiveDir\<close> says that it succeeded only when the directory is there, and it removes
  no directory, whether it succeeds or not, as long as \<open>mkdir\<close> keeps its documented behaviour.\<close>

theorem MkRecursiveDir_creates:
  assumes "mkdir_documented os" "MkRecursiveDir os (Some d) isReadOthers s = (s', ok)"
  shows "(fs_stat os s q = Some Directory \<longrightarrow> fs_stat os s' q = Some Directory) \<and>
    (ok \<longrightarrow> fs_stat os s' d = Some Directory)"
proof (cases "IsExistDir os (Some d) s \<or> length d = 0 \<or> PATH_MAX < length d")
  case True
  then show ?thesis using assms(2) by (auto simp: MkRecursiveDir_def IsExistDir_def split: if_splits)
next
  case False
  then have "make_levels os (dir_mode isReadOthers) [] d s = (s', ok)"
    using assms(2) by (auto simp: MkRecursiveDir_def)
  then show ?thesis
    using False make_levels_keeps [OF assms(1)] make_levels_creates [OF assms(1), of _ "[]" d s s']
    by (cases ok) auto
qed

text \<open>The file system of the witness: the directories that exist, without their final slash.\<close>

definition tree_fs :: "string list file_system" where
  "tree_fs =
     \<lparr>fs_stat = (\<lambda>s p. if (if p \<noteq> [] \<and> last p = PATH_SEPARATOR then butlast p else p) \<in> set s then Some Directory else None),
      fs_mkdir = (\<lambda>p mode s. Some ((if p \<noteq> [] \<and> last p = PATH_SEPARATOR then butlast p else p) # s)),
      fs_remove = (\<lambda>p s. None), fs_readdir = (\<lambda>p s. None), fs_rename = (\<lambda>p q s. None),
      fs_chown = (\<lambda>p u g s. None), fs_write = (\<lambda>p b s. None)\<rparr>"

theorem MkRecursiveDir_creates_witness:
  "fs_stat tree_fs (fst (MkRecursiveDir tree_fs (Some ''/a/bc/'') True [[]])) ''/a/bc/'' = Some Directory"
  using MkRecursiveDir_creates [of tree_fs "''/a/bc/''" True "[[]]"
      "fst (MkRecursiveDir tree_fs (Some ''/a/bc/'') True [[]])" True "[]"]
  by (simp add: mkdir_documented_def tree_fs_def MkRecursiveDir_def IsExistDir_def PATH_SEPARATOR_def PATH_MAX_def)

text \<open>
  What \<open>remove\<close> documents, for a file system without links: on success the path is gone, and no
  other path is touched.
\<close>

definition remove_documented :: "'fs file_system \<Rightarrow> bool" where
  "remove_documented os \<longleftrightarrow>
     (\<forall>p s s'. fs_remove os p s = Some s' \<longrightarrow>
        fs_stat os s' p = None \<and> (\<forall>q. q \<noteq> p \<longrightarrow> fs_stat os s' q = fs_stat os s q))"

lemma removeD:
  assumes "remove_documented os" "fs_remove os p s = Some s'"
  shows "fs_stat os s' p = None" and "q \<noteq> p \<Longrightarrow> fs_stat os s' q = fs_stat os s q"
  using assms unfolding remove_documented_def by blast+

text \<open>Whatever is not the path or below it stays, whether the removal succeeds or not.\<close>

lemma RemoveFile_frame:
  "remove_documented os \<Longrightarrow> \<not> prefix path q \<Longrightarrow> fs_stat os (fst (RemoveFile os path s)) q = fs_stat os s q"
  "remove_documented os \<Longrightarrow> \<not> prefix path q \<Longrightarrow> fs_stat os (fst (remove_entries os path names s)) q = fs_stat os s q"
proof (induction os path s and os path names s rule: RemoveFile_remove_entries.induct)
  case (1 os path s)
  have "fs_stat os t' q = fs_stat os t q" if "fs_remove os path t = Some t'" for t t'
    using removeD(2) [OF 1(2) that, of q] 1(3) by auto
  with 1 show ?case
    by (subst RemoveFile.simps) (auto split: option.splits prod.splits)
next
  case (3 os path d_name names s)
  then have "\<not> prefix (path @ ''/'' @ d_name) q" by (metis append_prefixD)
  with 3 show ?case by (auto split: prod.splits)
qed simp

text \<open>A removal that succeeds leaves no file and no directory at the path, and nothing outside it is
  touched.\<close>

theorem RemoveFile_removes:
  assumes "remove_documented os" "RemoveFile os path s = (s', ok)"
  shows "(ok \<longrightarrow> \<not> IsExistFile os (Some path) s' \<and> \<not> IsExistDir os (Some path) s') \<and>
    (\<forall>q. \<not> prefix path q \<longrightarrow> fs_stat os s' q = fs_stat os s q)"
proof (intro conjI impI allI)
  show "fs_stat os s' q = fs_stat os s q" if "\<not> prefix path q" for q
    using RemoveFile_frame(1) [OF assms(1) that, of s] assms(2) by simp
  assume ok
  then show "\<not> IsExistFile os (Some path) s'" "\<not> IsExistDir os (Some path) s'"
    using assms(2)
    by (auto simp: RemoveFile.simps [of os path s] IsExistFile_def IsExistDir_def
        split: if_splits option.splits prod.splits dest: removeD(1) [OF assms(1)])
qed

text \<open>The file system of the witness: the entries that exist, as paths.\<close>

definition flat_fs :: "(string \<times> file_kind) list file_system" where
  "flat_fs =
     \<lparr>fs_stat = map_of, fs_mkdir = (\<lambda>p mode s. None),
      fs_remove = (\<lambda>p s. if p \<in> fst ` set s then Some (filter (\<lambda>e. fst e \<noteq> p) s) else None),
      fs_readdir = (\<lambda>p s. Some (map (\<lambda>e. drop (length p + 1) (fst e))
        (filter (\<lambda>e. length p < length (fst e) \<and> take (length p) (fst e) = p) s))),
      fs_rename = (\<lambda>p q s. None), fs_chown = (\<lambda>p u g s. None), fs_write = (\<lambda>p b s. None)\<rparr>"

lemma map_of_filter_neq: "map_of (filter (\<lambda>e. fst e \<noteq> p) s) q = (if q = p then None else map_of s q)"
  by (induction s) auto

lemma flat_fs_remove: "remove_documented flat_fs"
  by (simp add: remove_documented_def flat_fs_def map_of_filter_neq split: if_splits)

theorem RemoveFile_removes_witness:
  "let s = [(''/a'', Directory), (''/a/b'', Regular), (''/c'', Regular)]
   in snd (RemoveFile flat_fs ''/a'' s) \<and> map_of (fst (RemoveFile flat_fs ''/a'' s)) ''/c'' = Some Regular"
proof -
  let ?s = "[(''/a'', Directory), (''/a/b'', Regular), (''/c'', Regular)]"
  have "snd (RemoveFile flat_fs ''/a'' ?s)"
    by (simp add: RemoveFile.simps IsExistFile_def IsExistDir_def flat_fs_def PATH_MAX_def)
  then show ?thesis
    using RemoveFile_removes [OF flat_fs_remove, of "''/a''" ?s "fst (RemoveFile flat_fs ''/a'' ?s)" True]
    by (simp add: prod_eq_iff flat_fs_def)
qed

text \<open>\<open>IsValidPath\<close> accepts exactly the paths below the root: the root begins and ends with
  a slash, the path begins with the root, and neither of them contains two dots in a row.\<close>

theorem IsValidPath_iff:
  "IsValidPath rootDir path \<longleftrightarrow>
    rootDir \<noteq> [] \<and> hd rootDir = PATH_SEPARATOR \<and> last rootDir = PATH_SEPARATOR \<and>
    \<not> sublist ''..'' rootDir \<and> \<not> sublist ''..'' path \<and> prefix rootDir path"
proof -
  have first: "find_char PATH_SEPARATOR rootDir = Some 0 \<longleftrightarrow> rootDir \<noteq> [] \<and> hd rootDir = PATH_SEPARATOR"
    by (cases rootDir) auto
  have last: "rfind_char PATH_SEPARATOR rootDir = Some (length rootDir - 1) \<longleftrightarrow> last rootDir = PATH_SEPARATOR"
    if "rootDir \<noteq> []"
    using that by (cases rootDir rule: rev_cases) (auto simp: rfind_char_def dest: find_char_Some)
  have "prefix rootDir path \<longleftrightarrow> take (length rootDir) path = rootDir"
    by (metis append_eq_conv_conj prefix_def take_is_prefix)
  then show ?thesis
    using first last by (auto simp: IsValidPath_def find_string_None simp del: find_string.simps)
qed

text \<open>\<open>GetPathDir\<close> splits a path at its last slash: what it returns, with a rest that has no slash,
  is the path; it is empty exactly when the path has no slash, and otherwise ends in one.\<close>

theorem GetPathDir_splits:
  "(\<exists>rest. path = GetPathDir path @ rest \<and> PATH_SEPARATOR \<notin> set rest) \<and>
    (GetPathDir path = [] \<longleftrightarrow> PATH_SEPARATOR \<notin> set path) \<and>
    (GetPathDir path = [] \<or> last (GetPathDir path) = PATH_SEPARATOR)"
proof (cases "rfind_char PATH_SEPARATOR path")
  case None
  then have "PATH_SEPARATOR \<notin> set path" by (simp add: rfind_char_None)
  then show ?thesis by (simp add: GetPathDir_def None)
next
  case (Some i)
  note r = rfind_char_Some [OF Some]
  have d: "GetPathDir path = take (Suc i) path" by (simp add: GetPathDir_def Some)
  have "path = take (Suc i) path @ drop (Suc i) path" by simp
  moreover have "take (Suc i) path = take i path @ [PATH_SEPARATOR]"
    using r by (simp add: take_Suc_conv_app_nth)
  moreover have "PATH_SEPARATOR \<in> set path" using r by (metis nth_mem)
  ultimately show ?thesis using r unfolding d by (intro conjI exI [of _ "drop (Suc i) path"]) auto
qed

end
