(* ===== verification/Time_Zone.thy ===== *)
theory Time_Zone
  imports File_Utils Text "HOL-Library.List_Lexorder" "HOL-Library.Char_ord"
begin

text \<open>
  \<open>TimeZoneInfo\<close> (\<open>time_zone_info.cpp\<close>): the table of time zones, the current zone, the
  \<open>TZ\<close> variable of the process and the JSON file the zone is kept in. The JSON library and
  \<open>setenv\<close> are outside the program: \<open>zone_os\<close> has their results. The file is its text,
  \<open>None\<close> when there is none; opening it for writing may fail, which the code does not see.
\<close>

definition TIMEZONE_FILE_PATH :: string where
  "TIMEZONE_FILE_PATH = ''/data/misc/zoneinfo/timezone.json''"
definition HOUR_TO_MILLISECONDS :: int where "HOUR_TO_MILLISECONDS = 3600000"

record zoneInfoEntry =
  zi_ID :: string
  zi_alias :: string
  zi_utcOffsetHours :: int

definition zone :: "string \<Rightarrow> string \<Rightarrow> int \<Rightarrow> zoneInfoEntry" where
  "zone i a h = \<lparr>zi_ID = i, zi_alias = a, zi_utcOffsetHours = h\<rparr>"

definition timezoneList :: "zoneInfoEntry list" where
  "timezoneList =
    [zone ''Antarctica/McMurdo'' ''AQ'' 12,
     zone ''America/Argentina/Buenos_Aires'' ''AR'' (-3),
     zone ''Australia/Sydney'' ''AU'' 10,
     zone ''America/Noronha'' ''BR'' (-2),
     zone ''America/St_Johns'' ''CA'' (-3),
     zone ''Africa/Kinshasa'' ''CD'' 1,
     zone ''America/Santiago'' ''CL'' (-3),
     zone ''Asia/Shanghai'' ''CN'' 8,
     zone ''Asia/Nicosia'' ''CY'' 3,
     zone ''Europe/Berlin'' ''DE'' 2,
     zone ''America/Guayaquil'' ''CEST'' (-5),
     zone ''Europe/Madrid'' ''ES'' 2,
     zone ''Pacific/Pohnpei'' ''FM'' 11,
     zone ''America/Godthab'' ''GL'' (-2),
     zone ''Asia/Jakarta'' ''ID'' 7,
     zone ''Pacific/Tarawa'' ''KI'' 12,
     zone ''Asia/Almaty'' ''KZ'' 6,
     zone ''Pacific/Majuro'' ''MH'' 12,
     zone ''Asia/Ulaanbaatar'' ''MN'' 8,
     zone ''America/Mexico_City'' ''MX'' (-5),
     zone ''Asia/Kuala_Lumpur'' ''MY'' 8,
     zone ''Pacific/Auckland'' ''NZ'' 12,
     zone ''Pacific/Tahiti'' ''PF'' (-10),
     zone ''Pacific/Port_Moresby'' ''PG'' 10,
     zone ''Asia/Gaza'' ''PS'' 3,
     zone ''Europe/Lisbon'' ''PT'' 1,
     zone ''Europe/Moscow'' ''RU'' 3,
     zone ''Europe/Kiev'' ''UA'' 3,
     zone ''Pacific/Wake'' ''UM'' 12,
     zone ''America/New_York'' ''US'' (-4),
     zone ''Asia/Tashkent'' ''UZ'' 5]"

definition timezoneInfoMap :: "(string, zoneInfoEntry) std_map" where
  "timezoneInfoMap = fold (\<lambda>tz m. map_assign (zi_ID tz) tz m) timezoneList []"

record time_zone =
  curTimezoneId :: string
  tz_variable :: "string option"
  tz_file :: "string option"

record zone_os =
  os_setenv_ok :: "string \<Rightarrow> bool"
  os_render :: "string \<Rightarrow> string"
  os_parse :: "string \<Rightarrow> string option"
  os_writable :: bool

definition TimeZoneInfo :: "string option \<Rightarrow> string option \<Rightarrow> time_zone" where
  "TimeZoneInfo var file = \<lparr>curTimezoneId = [], tz_variable = var, tz_file = file\<rparr>"

definition GetOffsetById :: "string \<Rightarrow> int option" where
  "GetOffsetById timezoneId = map_option zi_utcOffsetHours (map_find timezoneInfoMap timezoneId)"

definition SetOffsetToKernel :: "zone_os \<Rightarrow> int \<Rightarrow> time_zone \<Rightarrow> time_zone \<times> bool" where
  "SetOffsetToKernel os offsetHour z =
     (let TZstrs = ''UTC-'' @ show_int offsetHour in
      if os_setenv_ok os TZstrs then (z\<lparr>tz_variable := Some TZstrs\<rparr>, True) else (z, False))"

definition GetTimezoneFromFile :: "zone_os \<Rightarrow> time_zone \<Rightarrow> string option" where
  "GetTimezoneFromFile os z = os_parse os (case tz_file z of None \<Rightarrow> [] | Some content \<Rightarrow> content)"

definition SaveTimezoneToFile :: "zone_os \<Rightarrow> string \<Rightarrow> time_zone \<Rightarrow> time_zone \<times> bool" where
  "SaveTimezoneToFile os timezoneId z =
     ((if os_writable os then z\<lparr>tz_file := Some (os_render os timezoneId)\<rparr> else z), True)"

definition SetTimezone :: "zone_os \<Rightarrow> string \<Rightarrow> time_zone \<Rightarrow> time_zone \<times> bool" where
  "SetTimezone os timezoneId z =
     (case GetOffsetById timezoneId of
        None \<Rightarrow> (z, False)
      | Some gmtOffset \<Rightarrow>
          let (z1, set) = SetOffsetToKernel os gmtOffset z in
          if \<not> set then (z1, False)
          else let (z2, saved) = SaveTimezoneToFile os timezoneId z1 in
            if \<not> saved then (z2, False) else (z2\<lparr>curTimezoneId := timezoneId\<rparr>, True))"

definition GetTimezone :: "time_zone \<Rightarrow> string \<times> bool" where
  "GetTimezone z = (curTimezoneId z, True)"

text \<open>When the zone is not in the table the offset keeps its initial 0.\<close>

definition GetCurrentOffsetMs :: "time_zone \<Rightarrow> int" where
  "GetCurrentOffsetMs z =
     (let offsetHours = (case GetOffsetById (curTimezoneId z) of None \<Rightarrow> 0 | Some h \<Rightarrow> h)
      in offsetHours * HOUR_TO_MILLISECONDS)"

definition InitStorage :: "'fs file_system \<Rightarrow> 'fs \<Rightarrow> 'fs \<times> bool" where
  "InitStorage fsys s =
     (if \<not> IsExistFile fsys (Some TIMEZONE_FILE_PATH) s
      then let dir = GetPathDir TIMEZONE_FILE_PATH in
        if dir = [] then (s, False)
        else if \<not> IsExistDir fsys (Some dir) s
        then let (s', made) = MkRecursiveDir fsys (Some dir) True s in if \<not> made then (s', False) else (s', True)
        else (s, True)
      else (s, True))"

definition TimeZone_Init :: "'fs file_system \<Rightarrow> zone_os \<Rightarrow> 'fs \<Rightarrow> time_zone \<Rightarrow> 'fs \<times> time_zone" where
  "TimeZone_Init fsys os s z =
     (let (s', stored) = InitStorage fsys s in
      if \<not> stored then (s', z)
      else let timezoneId = (case GetTimezoneFromFile os z of None \<Rightarrow> ''Asia/Shanghai'' | Some tz \<Rightarrow> tz) in
        case GetOffsetById timezoneId of
          None \<Rightarrow> (s', z)
        | Some gmtOffset \<Rightarrow>
            let (z1, set) = SetOffsetToKernel os gmtOffset z in
            if \<not> set then (s', z1) else (s', z1\<lparr>curTimezoneId := timezoneId\<rparr>))"

section \<open>The table\<close>

lemma map_find_fold_assign:
  "distinct (map key xs) \<Longrightarrow>
    map_find (fold (\<lambda>x m. map_assign (key x) x m) xs m) =
      map_find m ++ map_of (map (\<lambda>x. (key x, x)) xs)"
proof (induction xs arbitrary: m)
  case (Cons x xs)
  from Cons.prems have "map_of (map (\<lambda>x. (key x, x)) xs) (key x) = None"
    by (auto simp: map_of_eq_None_iff)
  with Cons show ?case by (auto simp: fun_eq_iff map_add_def split: option.splits)
qed simp

lemma distinct_zones: "distinct (map zi_ID timezoneList)"
  by (simp add: timezoneList_def zone_def)

lemma find_zone: "map_find timezoneInfoMap = map_of (map (\<lambda>x. (zi_ID x, x)) timezoneList)"
  by (simp add: timezoneInfoMap_def map_find_fold_assign [OF distinct_zones])

lemma GetOffsetById_iff:
  "GetOffsetById tz = Some h \<longleftrightarrow> (\<exists>e \<in> set timezoneList. zi_ID e = tz \<and> zi_utcOffsetHours e = h)"
proof -
  have "map_of (map (\<lambda>x. (zi_ID x, x)) timezoneList) tz = Some e \<longleftrightarrow> e \<in> set timezoneList \<and> zi_ID e = tz" for e
    using distinct_zones by (subst map_of_eq_Some_iff) (auto simp: o_def)
  then show ?thesis by (auto simp: GetOffsetById_def find_zone)
qed

lemma offset_range: "GetOffsetById tz = Some h \<Longrightarrow> -10 \<le> h \<and> h \<le> 12"
  unfolding GetOffsetById_iff by (auto simp: timezoneList_def zone_def)

lemma SetTimezone_success:
  assumes "SetTimezone os tz z = (z', True)" "os_writable os"
  shows "\<exists>h. GetOffsetById tz = Some h \<and> os_setenv_ok os (''UTC-'' @ show_int h) \<and>
    z' = \<lparr>curTimezoneId = tz, tz_variable = Some (''UTC-'' @ show_int h), tz_file = Some (os_render os tz)\<rparr>"
proof (cases "GetOffsetById tz")
  case (Some h)
  with assms show ?thesis
    by (cases "os_setenv_ok os (''UTC-'' @ show_int h)")
      (auto simp: SetTimezone_def SetOffsetToKernel_def SaveTimezoneToFile_def Let_def)
qed (use assms in \<open>simp add: SetTimezone_def\<close>)

section \<open>Guarantees\<close>

text \<open>C29. \<open>SetTimezone\<close> is all or nothing: it fails exactly when the zone is not in the table or the
  variable cannot be set, and then neither the current zone nor the file nor the variable changes;
  otherwise the zone is current, its offset is the one in force, the variable carries the offset of
  the table, and the zone is in the file when that can be written.\<close>

theorem SetTimezone_outcome:
  "let (z', ok) = SetTimezone os tz z
   in case GetOffsetById tz of
        None \<Rightarrow> \<not> ok \<and> z' = z
      | Some h \<Rightarrow>
          if os_setenv_ok os (''UTC-'' @ show_int h)
          then ok \<and> GetTimezone z' = (tz, True) \<and> GetCurrentOffsetMs z' = h * 3600000 \<and>
            tz_variable z' = Some (''UTC-'' @ show_int h) \<and>
            tz_file z' = (if os_writable os then Some (os_render os tz) else tz_file z)
          else \<not> ok \<and> z' = z"
  by (simp add: SetTimezone_def SetOffsetToKernel_def SaveTimezoneToFile_def GetTimezone_def
      GetCurrentOffsetMs_def HOUR_TO_MILLISECONDS_def Let_def split: option.splits)

text \<open>C31. The zone survives a restart: after a successful \<open>SetTimezone\<close> with a file that can be
  written, a new \<open>TimeZoneInfo\<close> that initialises itself from that file has the same current zone, the
  same offset and the same variable, if the JSON library reads back what it wrote and the storage is
  there.\<close>

theorem SetTimezone_restart:
  assumes "\<And>v. os_parse os (os_render os v) = Some v" and "os_writable os"
    and "SetTimezone os tz z = (z', True)" and "snd (InitStorage fsys s)"
  shows "let z'' = snd (TimeZone_Init fsys os s (TimeZoneInfo var (tz_file z')))
    in curTimezoneId z'' = tz \<and> GetCurrentOffsetMs z'' = GetCurrentOffsetMs z' \<and> tz_variable z'' = tz_variable z'"
proof -
  obtain h where h: "GetOffsetById tz = Some h" "os_setenv_ok os (''UTC-'' @ show_int h)"
    and z': "z' = \<lparr>curTimezoneId = tz, tz_variable = Some (''UTC-'' @ show_int h), tz_file = Some (os_render os tz)\<rparr>"
    using SetTimezone_success [OF assms(3,2)] by blast
  obtain s' where "InitStorage fsys s = (s', True)" using assms(4) by (metis prod.collapse)
  then show ?thesis
    using h by (simp add: TimeZone_Init_def GetTimezoneFromFile_def TimeZoneInfo_def z' assms(1)
        SetOffsetToKernel_def GetCurrentOffsetMs_def)
qed

definition sample_zone_os :: zone_os where
  "sample_zone_os = \<lparr>os_setenv_ok = (\<lambda>_. True), os_render = (\<lambda>s. CHR ''q'' # s),
     os_parse = (\<lambda>s. case s of [] \<Rightarrow> None | c # cs \<Rightarrow> Some cs), os_writable = True\<rparr>"

theorem SetTimezone_restart_witness:
  "curTimezoneId (snd (TimeZone_Init tree_fs sample_zone_os [''/data/misc/zoneinfo'']
     (TimeZoneInfo None (Some ''qAsia/Gaza'')))) = ''Asia/Gaza''"
proof -
  have g: "GetOffsetById ''Asia/Gaza'' = Some 3"
    unfolding GetOffsetById_iff by (simp add: timezoneList_def zone_def)
  have s: "SetTimezone sample_zone_os ''Asia/Gaza'' (TimeZoneInfo None None) =
      (\<lparr>curTimezoneId = ''Asia/Gaza'', tz_variable = Some (''UTC-'' @ show_int 3), tz_file = Some ''qAsia/Gaza''\<rparr>, True)"
    by (simp add: SetTimezone_def g SetOffsetToKernel_def SaveTimezoneToFile_def sample_zone_os_def TimeZoneInfo_def)
  have "GetPathDir TIMEZONE_FILE_PATH = ''/data/misc/zoneinfo/''"
    by (simp add: GetPathDir_def rfind_char_def TIMEZONE_FILE_PATH_def PATH_SEPARATOR_def)
  then have i: "snd (InitStorage tree_fs [''/data/misc/zoneinfo''])"
    by (simp add: InitStorage_def IsExistFile_def IsExistDir_def tree_fs_def PATH_SEPARATOR_def)
  show ?thesis
    using SetTimezone_restart [OF _ _ s i, of None] by (simp add: sample_zone_os_def Let_def)
qed

text \<open>The variable for a zone west of Greenwich: \<open>SetOffsetToKernel\<close> puts a minus sign before an
  offset that has one already, so the text after \<open>UTC-\<close> begins with a second minus.\<close>

theorem negative_offset_two_signs:
  "let z = fst (SetTimezone sample_zone_os ''America/New_York'' (TimeZoneInfo None None))
   in curTimezoneId z = ''America/New_York'' \<and> tz_variable z = Some ''UTC--4''"
proof -
  have g: "GetOffsetById ''America/New_York'' = Some (-4)"
    unfolding GetOffsetById_iff by (simp add: timezoneList_def zone_def)
  have "show_int (-4) = ''-4''" by code_simp
  then show ?thesis
    by (simp add: SetTimezone_def g SetOffsetToKernel_def SaveTimezoneToFile_def sample_zone_os_def TimeZoneInfo_def)
qed

end
