(* ===== verification/Sntp_Client.thy ===== *)
theory Sntp_Client
  imports Timer_Handler
begin

text \<open>
  \<open>SNTPClient\<close> (\<open>sntp_client.cpp\<close>): the 48-byte message, the conversions between Unix and
  NTP time, and the exchange with the server. Two choices of the platform are parameters:
  whether \<open>char\<close> is signed (\<open>sc\<close>), and what converting a \<open>double\<close> that does not fit to
  \<open>uint32_t\<close> gives (\<open>oor\<close>), which C++ leaves undefined. The host is little-endian with
  64-bit \<open>long\<close>. Arithmetic in \<open>double\<close> is exact here: \<open>round_bits 53\<close> where it rounds.
\<close>

definition SECONDS_SINCE_FIRST_EPOCH :: u64 where "SECONDS_SINCE_FIRST_EPOCH = 2208988800"
definition MILLISECOND_TO_SECOND :: u64 where "MILLISECOND_TO_SECOND = 1000"
definition FRACTION_TO_SECOND :: u64 where "FRACTION_TO_SECOND = 0x100000000"
definition UINT32_MASK :: u64 where "UINT32_MASK = 0xFFFFFFFF"
definition NTP_PACKAGE_SIZE :: nat where "NTP_PACKAGE_SIZE = 48"
definition NTP_MSG_OFFSET_ROOT_DELAY :: nat where "NTP_MSG_OFFSET_ROOT_DELAY = 4"
definition NTP_MSG_OFFSET_ROOT_DISPERSION :: nat where "NTP_MSG_OFFSET_ROOT_DISPERSION = 8"
definition NTP_MSG_OFFSET_REFERENCE_IDENTIFIER :: nat where "NTP_MSG_OFFSET_REFERENCE_IDENTIFIER = 12"
definition REFERENCE_TIMESTAMP_OFFSET :: nat where "REFERENCE_TIMESTAMP_OFFSET = 16"
definition ORIGINATE_TIMESTAMP_OFFSET :: nat where "ORIGINATE_TIMESTAMP_OFFSET = 24"
definition RECEIVE_TIMESTAMP_OFFSET :: nat where "RECEIVE_TIMESTAMP_OFFSET = 32"
definition TRANSMIT_TIMESTAMP_OFFSET :: nat where "TRANSMIT_TIMESTAMP_OFFSET = 40"

lemmas sntp_constants =
  SECONDS_SINCE_FIRST_EPOCH_def MILLISECOND_TO_SECOND_def FRACTION_TO_SECOND_def UINT32_MASK_def
  NTP_PACKAGE_SIZE_def NTP_MSG_OFFSET_ROOT_DELAY_def NTP_MSG_OFFSET_ROOT_DISPERSION_def
  NTP_MSG_OFFSET_REFERENCE_IDENTIFIER_def REFERENCE_TIMESTAMP_OFFSET_def ORIGINATE_TIMESTAMP_OFFSET_def
  RECEIVE_TIMESTAMP_OFFSET_def TRANSMIT_TIMESTAMP_OFFSET_def

record ntp_timestamp =
  ntp_second :: u32
  ntp_fraction :: u32

record timeval =
  tv_sec :: int
  tv_usec :: int

record sntp_message =
  leapIndicator :: u8
  versionNumber :: u8
  msg_mode :: u8
  stratum :: u8
  pollInterval :: u8
  msg_precision :: u8
  rootDelay :: u32
  rootDispersion :: u32
  referenceIdentifier :: "u32 list"
  referenceTimestamp :: u64
  originateTimestamp :: u64
  receiveTimestamp :: u64
  transmitTimestamp :: u64

record sntp_client =
  m_clockOffset :: int
  m_originateTimestamp :: u64
  mNtpTime :: int
  mNtpTimeReference :: int
  mRoundTripTime :: int

section \<open>Memory of integers\<close>

text \<open>The bytes of an integer in a little-endian memory, least significant first.\<close>

definition memory_of :: "nat \<Rightarrow> 'a::len word \<Rightarrow> u8 list" where
  "memory_of n w = map (\<lambda>i. ucast (drop_bit (8 * i) w)) [0..<n]"

fun integer_of :: "u8 list \<Rightarrow> 'a::len word" where
  "integer_of [] = 0"
| "integer_of (b # bs) = ucast b OR push_bit 8 (integer_of bs)"

text \<open>
  The loops that reverse: \<open>valueRx[numOfBit--] = buffer[loop++]\<close>. \<open>char\<close> values are copied
  as they are.
\<close>

definition read_reversed :: "nat \<Rightarrow> nat \<Rightarrow> u8 list \<Rightarrow> u8 list" where
  "read_reversed offset len buffer = rev (take len (drop offset buffer))"

definition write_reversed :: "nat \<Rightarrow> u8 list \<Rightarrow> u8 list \<Rightarrow> u8 list" where
  "write_reversed offset bytes buffer =
     fold (\<lambda>i buf. buf[offset + i := rev bytes ! i]) [0..<length bytes] buffer"

definition GetNtpTimestamp64 :: "nat \<Rightarrow> u8 list \<Rightarrow> u64" where
  "GetNtpTimestamp64 offset buffer = integer_of (read_reversed offset 8 buffer)"

definition GetNtpField32 :: "nat \<Rightarrow> u8 list \<Rightarrow> u32" where
  "GetNtpField32 offset buffer = integer_of (read_reversed offset 4 buffer)"

text \<open>The value of a \<open>char\<close> after integral promotion.\<close>

definition char_value :: "bool \<Rightarrow> u8 \<Rightarrow> int" where
  "char_value sc b = (if sc then sint b else uint b)"

definition GetReferenceId :: "bool \<Rightarrow> nat \<Rightarrow> u8 list \<Rightarrow> int list" where
  "GetReferenceId sc offset buffer = map (\<lambda>i. char_value sc (buffer ! i)) [offset..<offset + 4]"

section \<open>Conversions\<close>

text \<open>
  \<open>1.0e-6\<close> is the \<open>double\<close> $4722366482869645 \cdot 2^{-72}$; the multiplications by powers
  of two are exact, so one rounding is left, and $2^{40}$ to divide by.
\<close>

definition TEN_TO_MINUS_SIX_MANTISSA :: nat where "TEN_TO_MINUS_SIX_MANTISSA = 4722366482869645"

definition to_uint32 :: "u32 \<Rightarrow> nat \<Rightarrow> u32" where
  "to_uint32 oor n = (if n < 2 ^ 32 then of_nat n else oor)"

definition ConvertUnixToNtp :: "u32 \<Rightarrow> timeval \<Rightarrow> ntp_timestamp" where
  "ConvertUnixToNtp oor unixTs =
     \<lparr>ntp_second = ucast (word_of_int (tv_sec unixTs) + SECONDS_SINCE_FIRST_EPOCH),
      ntp_fraction = to_uint32 oor
        (round_bits 53 (nat (tv_usec unixTs + 1) * TEN_TO_MINUS_SIX_MANTISSA) div 2 ^ 40)\<rparr>"

text \<open>The product of a fraction and a million has at most 52 digits and is exact.\<close>

definition ConvertNtpToUnix :: "ntp_timestamp \<Rightarrow> timeval" where
  "ConvertNtpToUnix ntpTs =
     \<lparr>tv_sec = sint (ucast (ntp_second ntpTs) - SECONDS_SINCE_FIRST_EPOCH),
      tv_usec = int (round_bits 53 (unat (ntp_fraction ntpTs) * 1000000) div 2 ^ 32)\<rparr>"

definition ConvertNtpToStamp :: "u64 \<Rightarrow> int" where
  "ConvertNtpToStamp ntpTs =
     (let second = ucast (drop_bit 32 ntpTs AND UINT32_MASK) :: u32;
          fraction = ucast (ntpTs AND UINT32_MASK) :: u32
      in if second = 0 \<and> fraction = 0 then 0
         else sint ((ucast second - SECONDS_SINCE_FIRST_EPOCH) * MILLISECOND_TO_SECOND +
                    (ucast fraction * MILLISECOND_TO_SECOND) div FRACTION_TO_SECOND))"

definition timestamp_of :: "ntp_timestamp \<Rightarrow> u64" where
  "timestamp_of ntp = push_bit 32 (ucast (ntp_second ntp)) OR ucast (ntp_fraction ntp)"

section \<open>Messages\<close>

text \<open>\<open>(leap << 6) | (version << 3) | mode\<close>, with version and mode 3.\<close>

definition header_byte :: "u8 \<Rightarrow> u8 \<Rightarrow> u8 \<Rightarrow> u8" where
  "header_byte leap version mode = push_bit 6 leap OR push_bit 3 version OR mode"

text \<open>A message with all its bytes 0; the version and the mode of a request.\<close>

definition VERSION_THREE :: u8 where "VERSION_THREE = 3"
definition MODE_THREE :: u8 where "MODE_THREE = 3"

definition SNTPMessage_clear :: sntp_message where
  "SNTPMessage_clear = \<lparr>leapIndicator = 0, versionNumber = 0, msg_mode = 0, stratum = 0, pollInterval = 0, msg_precision = 0,
     rootDelay = 0, rootDispersion = 0, referenceIdentifier = replicate 4 0, referenceTimestamp = 0, originateTimestamp = 0,
     receiveTimestamp = 0, transmitTimestamp = 0\<rparr>"

text \<open>The local message of a request that is sent at \<open>ntpTs\<close>, and its bytes.\<close>

definition request_message :: "u64 \<Rightarrow> sntp_message" where
  "request_message ntpTs =
     SNTPMessage_clear\<lparr>leapIndicator := 0, versionNumber := VERSION_THREE, msg_mode := MODE_THREE, originateTimestamp := ntpTs\<rparr>"

definition put_request :: "sntp_message \<Rightarrow> u8 list \<Rightarrow> u8 list" where
  "put_request msg buffer =
     (write_reversed ORIGINATE_TIMESTAMP_OFFSET (memory_of 8 (originateTimestamp msg)) buffer)
       [0 := header_byte (leapIndicator msg) (versionNumber msg) (msg_mode msg)]"

definition WriteTimeStamp :: "u8 list \<Rightarrow> ntp_timestamp \<Rightarrow> sntp_client \<Rightarrow> u8 list \<times> sntp_client" where
  "WriteTimeStamp buffer ntp c =
     (let ntpTs = timestamp_of ntp
      in (put_request (request_message ntpTs) buffer, c\<lparr>m_originateTimestamp := ntpTs\<rparr>))"

definition CreateMessage :: "u32 \<Rightarrow> timeval \<Rightarrow> u8 list \<Rightarrow> sntp_client \<Rightarrow> u8 list \<times> sntp_client" where
  "CreateMessage oor now buffer c =
     (let ntp = ConvertUnixToNtp oor now; ntpTs = timestamp_of ntp
      in (put_request (request_message ntpTs) buffer, c\<lparr>m_originateTimestamp := ntpTs\<rparr>))"

text \<open>The fields of a message; an arithmetic shift of a promoted \<open>char\<close>, then the low byte.\<close>

definition parse_message :: "bool \<Rightarrow> u8 list \<Rightarrow> sntp_message" where
  "parse_message sc buffer =
     SNTPMessage_clear
     \<lparr>leapIndicator := word_of_int (char_value sc (buffer ! 0) div 64),
      versionNumber := drop_bit 3 (buffer ! 0 AND 0x38),
      msg_mode := buffer ! 0 AND 0x7,
      stratum := buffer ! 1, pollInterval := buffer ! 2, msg_precision := buffer ! 3,
      rootDelay := GetNtpField32 NTP_MSG_OFFSET_ROOT_DELAY buffer,
      rootDispersion := GetNtpField32 NTP_MSG_OFFSET_ROOT_DISPERSION buffer,
      referenceIdentifier := map word_of_int (GetReferenceId sc NTP_MSG_OFFSET_REFERENCE_IDENTIFIER buffer),
      referenceTimestamp := GetNtpTimestamp64 REFERENCE_TIMESTAMP_OFFSET buffer,
      originateTimestamp := GetNtpTimestamp64 ORIGINATE_TIMESTAMP_OFFSET buffer,
      receiveTimestamp := GetNtpTimestamp64 RECEIVE_TIMESTAMP_OFFSET buffer,
      transmitTimestamp := GetNtpTimestamp64 TRANSMIT_TIMESTAMP_OFFSET buffer\<rparr>"

lemmas message_defs = put_request_def request_message_def SNTPMessage_clear_def VERSION_THREE_def MODE_THREE_def

text \<open>\<open>SetClockOffset\<close> takes an \<open>int\<close>.\<close>

definition SetClockOffset :: "int \<Rightarrow> sntp_client \<Rightarrow> sntp_client" where
  "SetClockOffset clockOffset c = c\<lparr>m_clockOffset := sint (word_of_int clockOffset :: i32)\<rparr>"

definition GetClockOffset :: "sntp_client \<Rightarrow> int" where
  "GetClockOffset c = sint (word_of_int (m_clockOffset c) :: i32)"

definition ReceivedMessage :: "bool \<Rightarrow> u32 \<Rightarrow> timeval \<Rightarrow> int \<Rightarrow> u8 list \<Rightarrow> sntp_client \<Rightarrow> sntp_client" where
  "ReceivedMessage sc oor now steady_ms buffer c =
     (let ntpTs = timestamp_of (ConvertUnixToNtp oor now);
          sntpMsg = parse_message sc buffer;
          tempOriginate = (if originateTimestamp sntpMsg > 0 then originateTimestamp sntpMsg else m_originateTimestamp c);
          originClient = ConvertNtpToStamp tempOriginate;
          receiveServer = ConvertNtpToStamp (receiveTimestamp sntpMsg);
          transmitServer = ConvertNtpToStamp (transmitTimestamp sntpMsg);
          receiveClient = ConvertNtpToStamp ntpTs;
          clockOffset = ((receiveServer - originClient) + (transmitServer - receiveClient)) sdiv 2;
          roundTripDelay = (receiveClient - originClient) - (transmitServer - receiveServer)
      in SetClockOffset clockOffset
           (c\<lparr>mRoundTripTime := roundTripDelay, mNtpTime := ConvertNtpToStamp ntpTs + clockOffset,
              mNtpTimeReference := steady_ms\<rparr>))"

section \<open>The exchange\<close>

text \<open>The results of the system calls: the time of day is read before the message is sent and
  after one has been received; \<open>n_reply\<close> is the receive buffer after \<open>recv\<close>.\<close>

record exchange =
  n_getaddrinfo :: int
  n_socket :: int
  n_connect :: int
  n_send :: int
  n_recv :: int
  n_reply :: "u8 list"
  n_sent_at :: timeval
  n_received_at :: timeval
  n_steady_ms :: int

definition RequestTime :: "bool \<Rightarrow> u32 \<Rightarrow> exchange \<Rightarrow> sntp_client \<Rightarrow> (sntp_client \<times> bool) \<times> fd_event list" where
  "RequestTime sc oor n c =
     (if n_getaddrinfo n \<noteq> 0 then ((c, False), [])
      else let sendSocket = n_socket n in
        if sendSocket = 0 then ((c, False), [Opened sendSocket])
        else if n_connect n < 0 then ((c, False), [Opened sendSocket])
        else let (sendBuf, c1) = CreateMessage oor (n_sent_at n) (replicate NTP_PACKAGE_SIZE 0) c in
          if n_send n = -1 then ((c1, False), [Opened sendSocket, Closed sendSocket])
          else if n_recv n = -1 then ((c1, False), [Opened sendSocket, Closed sendSocket])
          else ((ReceivedMessage sc oor (n_received_at n) (n_steady_ms n) (n_reply n) c1, True), [Opened sendSocket]))"

definition getNtpTIme :: "sntp_client \<Rightarrow> int" where "getNtpTIme c = mNtpTime c"
definition getNtpTimeReference :: "sntp_client \<Rightarrow> int" where "getNtpTimeReference c = mNtpTimeReference c"
definition getRoundTripTime :: "sntp_client \<Rightarrow> int" where "getRoundTripTime c = mRoundTripTime c"

section \<open>Memory laws\<close>

lemma bit_integer_of:
  "bit (integer_of bs :: 'a::len word) k \<longleftrightarrow> k < LENGTH('a) \<and> k div 8 < length bs \<and> bit (bs ! (k div 8)) (k mod 8)"
proof (induction bs arbitrary: k)
  case (Cons b bs)
  show ?case
  proof (cases "k < 8")
    case True
    then show ?thesis by (auto simp: bit_simps)
  next
    case False
    define j where "j = k - 8"
    have k: "k = j + 8" and kd: "k div 8 = Suc (j div 8)" and km: "k mod 8 = j mod 8"
      using False by (simp_all add: j_def le_div_geq le_mod_geq)
    have "\<not> bit b k" using False by (auto dest: bit_imp_le_length)
    then have "bit (integer_of (b # bs) :: 'a word) k \<longleftrightarrow> k < LENGTH('a) \<and> bit (integer_of bs :: 'a word) j"
      by (auto simp: bit_simps k)
    then show ?thesis using Cons [of j] unfolding kd km by (auto simp: k)
  qed
qed simp

lemma integer_of_memory_of:
  assumes "LENGTH('a) = 8 * n"
  shows "integer_of (memory_of n w) = (w :: 'a::len word)"
proof (rule bit_word_eqI)
  fix k assume k: "k < LENGTH('a)"
  then have "k div 8 < n" using assms by simp
  then show "bit (integer_of (memory_of n w) :: 'a word) k = bit w k"
    using k by (simp add: bit_integer_of memory_of_def bit_simps)
qed

lemma length_memory_of [simp]: "length (memory_of n w) = n"
  by (simp add: memory_of_def)

lemma fold_update:
  "off + n \<le> length buf \<Longrightarrow>
    fold (\<lambda>i b. b[off + i := f i]) [0..<n] buf = take off buf @ map f [0..<n] @ drop (off + n) buf"
proof (induction n)
  case (Suc n)
  have "drop (off + n) buf = buf ! (off + n) # drop (Suc (off + n)) buf"
    using Suc.prems by (intro Cons_nth_drop_Suc [symmetric]) simp
  with Suc show ?case by (simp add: list_update_append)
qed simp

lemma write_reversed_eq:
  assumes "off + length bytes \<le> length buf"
  shows "write_reversed off bytes buf = take off buf @ rev bytes @ drop (off + length bytes) buf"
proof -
  have "map (\<lambda>i. rev bytes ! i) [0..<length bytes] = rev bytes"
    by (metis length_rev map_nth)
  with fold_update [OF assms, of "\<lambda>i. rev bytes ! i"] show ?thesis by (simp add: write_reversed_def)
qed

lemma read_write_reversed:
  "off + length bytes \<le> length buf \<Longrightarrow> read_reversed off (length bytes) (write_reversed off bytes buf) = bytes"
  by (simp add: write_reversed_eq read_reversed_def)

section \<open>Timestamps\<close>

lemma timestamp_parts:
  "(ucast (drop_bit 32 (timestamp_of ntp) AND UINT32_MASK) :: u32) = ntp_second ntp"
  "(ucast (timestamp_of ntp AND UINT32_MASK) :: u32) = ntp_fraction ntp"
proof -
  have m: "UINT32_MASK = mask 32" by (simp add: UINT32_MASK_def mask_eq_exp_minus_1)
  show "(ucast (drop_bit 32 (timestamp_of ntp) AND UINT32_MASK) :: u32) = ntp_second ntp"
    unfolding m by (rule bit_word_eqI) (auto simp: timestamp_of_def bit_simps dest: bit_imp_le_length)
  show "(ucast (timestamp_of ntp AND UINT32_MASK) :: u32) = ntp_fraction ntp"
    unfolding m by (rule bit_word_eqI) (auto simp: timestamp_of_def bit_simps)
qed

lemma uint_ucast_u32: "uint (ucast (x :: u32) :: u64) = uint x"
  by (simp add: unsigned_ucast_eq take_bit_int_eq_self_iff) (use uint_lt2p [of x] in simp)

lemma stamp_word:
  fixes s f :: u32
  shows "sint ((ucast s - SECONDS_SINCE_FIRST_EPOCH) * MILLISECOND_TO_SECOND +
      (ucast f * MILLISECOND_TO_SECOND) div FRACTION_TO_SECOND) =
    (uint s - 2208988800) * 1000 + uint f * 1000 div 2 ^ 32"
proof -
  have s: "0 \<le> uint s" "uint s < 4294967296" using uint_lt2p [of s] by simp_all
  have f: "0 \<le> uint f" "uint f < 4294967296" using uint_lt2p [of f] by simp_all
  have fr: "(ucast f * MILLISECOND_TO_SECOND) div FRACTION_TO_SECOND = (word_of_int (uint f * 1000 div 2 ^ 32) :: u64)"
  proof -
    have "uint (ucast f * 1000 :: u64) = uint f * 1000"
      using f by (simp add: uint_word_ariths uint_ucast_u32)
    then show ?thesis
      by (simp add: MILLISECOND_TO_SECOND_def FRACTION_TO_SECOND_def word_div_def)
  qed
  have "ucast s = (word_of_int (uint s) :: u64)" by (metis uint_ucast_u32 word_of_int_uint)
  then have "(ucast s - SECONDS_SINCE_FIRST_EPOCH) * MILLISECOND_TO_SECOND +
      (ucast f * MILLISECOND_TO_SECOND) div FRACTION_TO_SECOND =
      (word_of_int ((uint s - 2208988800) * 1000 + uint f * 1000 div 2 ^ 32) :: u64)"
    unfolding fr by (simp add: SECONDS_SINCE_FIRST_EPOCH_def MILLISECOND_TO_SECOND_def)
  moreover have "0 \<le> uint f * 1000 div 2 ^ 32" "uint f * 1000 div 2 ^ 32 < 1000"
    using f by (simp_all add: pos_imp_zdiv_nonneg_iff div_less_iff_less_mult)
  then have "in_i64 ((uint s - 2208988800) * 1000 + uint f * 1000 div 2 ^ 32)"
    using s by (simp add: in_i64_def)
  ultimately show ?thesis by (simp only: sint_word_of_int_i64)
qed

section \<open>Precision of the fraction\<close>

text \<open>One rounding to 53 digits moves a number by at most one part in $2^{53}$.\<close>

lemma fraction_bounds:
  fixes u :: nat
  assumes "u < 999999"
  defines "fr \<equiv> round_bits 53 ((u + 1) * TEN_TO_MINUS_SIX_MANTISSA) div 2 ^ 40"
  shows "fr < 2 ^ 32" and "u * 2 ^ 32 \<le> fr * 1000000" and "fr * 1000000 < (u + 2) * 2 ^ 32"
proof -
  define x where "x = (u + 1) * TEN_TO_MINUS_SIX_MANTISSA"
  let ?r = "round_bits 53 x"
  have r: "9007199254740992 * x \<le> 9007199254740992 * ?r + x" "9007199254740992 * ?r \<le> 9007199254740992 * x + x"
    using round_bits_error [of 53 x] by simp_all
  have x: "x = u * 4722366482869645 + 4722366482869645" by (simp add: x_def TEN_TO_MINUS_SIX_MANTISSA_def)
  have fr: "fr = ?r div 1099511627776" by (simp add: fr_def x_def)
  have q: "fr * 1099511627776 \<le> ?r" "?r < fr * 1099511627776 + 1099511627776"
    using div_mult_mod_eq [of ?r 1099511627776] mod_less_divisor [of 1099511627776 ?r]
    unfolding fr by linarith+
  have "fr < 4294967296" using q(1) r(2) x assms(1) by linarith
  then show "fr < 2 ^ 32" by simp
  have "u * 4294967296 \<le> fr * 1000000" using q(2) r(1) x assms(1) by linarith
  then show "u * 2 ^ 32 \<le> fr * 1000000" by simp
  have "fr * 1000000 < u * 4294967296 + 8589934592" using q(1) r(2) x assms(1) by linarith
  then show "fr * 1000000 < (u + 2) * 2 ^ 32" by simp
qed

lemma usec_back:
  fixes f :: u32
  shows "round_bits 53 (unat f * 1000000) div 2 ^ 32 = unat f * 1000000 div 2 ^ 32"
proof -
  have "unat f < 4294967296" using unsigned_less [of f] by simp
  then have "unat f * 1000000 < 2 ^ 53" by simp
  then show ?thesis by (simp only: round_bits_exact)
qed

section \<open>Guarantees\<close>

text \<open>The request is well formed: the message is 48 bytes, its first byte is 27 (version 3, client
  mode, as \<open>ReceivedMessage\<close> would read it back), and the originate timestamp in it, in network byte
  order, is the one the client remembers.\<close>

lemma CreateMessage_wellformed:
  "let (buffer, c') = CreateMessage oor now (replicate NTP_PACKAGE_SIZE 0) c; m = parse_message sc buffer
   in length buffer = 48 \<and> buffer ! 0 = 27 \<and> versionNumber m = 3 \<and> msg_mode m = 3 \<and> leapIndicator m = 0 \<and>
      originateTimestamp m = m_originateTimestamp c' \<and>
      m_originateTimestamp c' = timestamp_of (ConvertUnixToNtp oor now)"
proof -
  define ts where "ts = timestamp_of (ConvertUnixToNtp oor now)"
  define w where "w = write_reversed 24 (memory_of 8 ts) (replicate 48 0)"
  have w: "length w = 48" "read_reversed 24 8 w = memory_of 8 ts"
    using read_write_reversed [of 24 "memory_of 8 ts" "replicate 48 0"]
    by (simp_all add: w_def write_reversed_eq)
  have h: "header_byte 0 3 3 = 27" by (simp add: header_byte_def push_bit_eq_mult)
  have "read_reversed 24 8 (w[0 := 27]) = read_reversed 24 8 w"
    by (simp add: read_reversed_def drop_update_cancel)
  then have g: "GetNtpTimestamp64 24 (w[0 := 27]) = ts"
    by (simp add: GetNtpTimestamp64_def w(2) integer_of_memory_of)
  have "27 AND 0x38 = (24 :: u8)" "27 AND 0x7 = (3 :: u8)" "drop_bit 3 24 = (3 :: u8)"
    by (simp_all add: drop_bit_eq_div)
  then show ?thesis
    using w(1) g h by (simp add: CreateMessage_def message_defs parse_message_def ORIGINATE_TIMESTAMP_OFFSET_def
        NTP_PACKAGE_SIZE_def ts_def [symmetric] w_def [symmetric] char_value_def Let_def)
qed

text \<open>\<open>ConvertNtpToStamp\<close> is exact: for every timestamp but the all-zero one it is the number of
  whole milliseconds since 1970, negative before, although the code computes it in unsigned 64-bit
  arithmetic.\<close>

theorem ConvertNtpToStamp_exact:
  "ConvertNtpToStamp (timestamp_of ntp) =
    (if ntp_second ntp = 0 \<and> ntp_fraction ntp = 0 then 0
     else (uint (ntp_second ntp) - 2208988800) * 1000 + uint (ntp_fraction ntp) * 1000 div 2 ^ 32)"
  unfolding ConvertNtpToStamp_def timestamp_parts Let_def by (simp only: stamp_word)

text \<open>C28. The clock filter: when the request took \<open>up\<close> and the reply \<open>down\<close> milliseconds and the
  server's clock is ahead by \<open>theta\<close>, the round trip is their sum and the time that \<open>ReceivedMessage\<close>
  computes is the server's time at reception, wrong by at most half of the difference of the two,
  rounded up.\<close>

theorem ReceivedMessage_corrects:
  fixes sc oor now steady_ms buffer c
  defines "c' \<equiv> ReceivedMessage sc oor now steady_ms buffer c"
    and "m \<equiv> parse_message sc buffer" and "t4 \<equiv> ConvertNtpToStamp (timestamp_of (ConvertUnixToNtp oor now))"
  assumes "ConvertNtpToStamp (receiveTimestamp m) =
      ConvertNtpToStamp (if originateTimestamp m > 0 then originateTimestamp m else m_originateTimestamp c) + up + theta"
    and "t4 = ConvertNtpToStamp (transmitTimestamp m) + down - theta"
  shows "getRoundTripTime c' = up + down \<and> 2 * \<bar>getNtpTIme c' - (t4 + theta)\<bar> \<le> \<bar>up - down\<bar> + 1 \<and>
    getNtpTimeReference c' = steady_ms"
proof -
  let ?off = "(up - down + 2 * theta) sdiv 2"
  define e where "e = up - down + 2 * theta"
  have off: "?off = sgn e * (\<bar>e\<bar> div 2)" by (simp add: signed_divide_int_def e_def)
  have "2 * \<bar>?off - theta\<bar> \<le> \<bar>up - down\<bar> + 1"
  proof (cases "0 < e")
    case True
    then have "?off = e div 2" by (simp add: off)
    then show ?thesis by (simp add: e_def)
  next
    case False
    then have "?off = - ((- e) div 2)" by (cases "e = 0") (simp_all add: off)
    moreover define q where "q = (- e) div 2"
    then have "2 * q \<le> - e" "- e \<le> 2 * q + 1" by simp_all
    ultimately show ?thesis unfolding q_def [symmetric] by (simp add: e_def abs_if)
  qed
  define t1 where "t1 = ConvertNtpToStamp
      (if originateTimestamp m > 0 then originateTimestamp m else m_originateTimestamp c)"
  define t2 t3 where "t2 = ConvertNtpToStamp (receiveTimestamp m)" and "t3 = ConvertNtpToStamp (transmitTimestamp m)"
  have sums: "t2 - t1 + (t3 - t4) = up - down + 2 * theta" "t4 - t1 - (t3 - t2) = up + down"
    using assms(4,5) unfolding t1_def t2_def t3_def by linarith+
  have "mNtpTime c' = t4 + ?off" "mRoundTripTime c' = up + down" "mNtpTimeReference c' = steady_ms"
    unfolding c'_def ReceivedMessage_def Let_def m_def [symmetric] t4_def [symmetric] t1_def [symmetric]
      t2_def [symmetric] t3_def [symmetric] sums
    by (simp_all add: SetClockOffset_def)
  then show ?thesis
    using \<open>2 * \<bar>?off - theta\<bar> \<le> \<bar>up - down\<bar> + 1\<close>
    by (simp add: getRoundTripTime_def getNtpTIme_def getNtpTimeReference_def algebra_simps)
qed

definition sample_client :: sntp_client where
  "sample_client = \<lparr>m_clockOffset = 0, m_originateTimestamp = 0, mNtpTime = 0, mNtpTimeReference = 0, mRoundTripTime = 0\<rparr>"

definition sample_now :: timeval where "sample_now = \<lparr>tv_sec = 1000, tv_usec = 0\<rparr>"

theorem ReceivedMessage_corrects_witness:
  "getRoundTripTime (ReceivedMessage False 0 sample_now 5 (replicate 48 0) sample_client) =
     ConvertNtpToStamp (timestamp_of (ConvertUnixToNtp 0 sample_now))"
proof -
  have "integer_of (replicate n 0) = (0 :: u64)" for n by (induction n) auto
  then have z: "GetNtpTimestamp64 k (replicate 48 0) = 0" for k by (simp add: GetNtpTimestamp64_def read_reversed_def)
  have "ConvertNtpToStamp 0 = 0" by (simp add: ConvertNtpToStamp_def)
  then show ?thesis
    using ReceivedMessage_corrects [where buffer = "replicate 48 0" and sc = False and c = sample_client
        and oor = 0 and now = sample_now and steady_ms = 5 and up = 0 and theta = 0
        and down = "ConvertNtpToStamp (timestamp_of (ConvertUnixToNtp 0 sample_now))"]
    by (simp add: parse_message_def message_defs z sample_client_def)
qed

text \<open>Microseconds survive: converting a time of day to NTP and back gives the same second, for
  every second of the era, and the same microsecond or the next one, for every microsecond but the
  last of a second.\<close>

theorem Unix_Ntp_roundtrip:
  assumes "0 \<le> tv_usec t" "tv_usec t < 999999" "-2208988800 \<le> tv_sec t" "tv_sec t < 2085978496"
  shows "let t' = ConvertNtpToUnix (ConvertUnixToNtp oor t)
    in tv_sec t' = tv_sec t \<and> tv_usec t \<le> tv_usec t' \<and> tv_usec t' \<le> tv_usec t + 1"
proof -
  define u where "u = nat (tv_usec t)"
  define fr where "fr = round_bits 53 ((u + 1) * TEN_TO_MINUS_SIX_MANTISSA) div 2 ^ 40"
  have u: "nat (tv_usec t + 1) = u + 1" "u < 999999" "tv_usec t = int u" using assms(1,2) by (auto simp: u_def)
  note b = fraction_bounds [OF u(2), folded fr_def]
  have f: "unat (ntp_fraction (ConvertUnixToNtp oor t)) = fr"
  proof -
    have "ntp_fraction (ConvertUnixToNtp oor t) = to_uint32 oor fr"
      unfolding ConvertUnixToNtp_def fr_def u(1) by simp
    then show ?thesis using b(1) by (simp add: to_uint32_def unsigned_of_nat take_bit_nat_eq_self)
  qed
  have "fr * 1000000 div 2 ^ 32 = u \<or> fr * 1000000 div 2 ^ 32 = u + 1"
  proof -
    have "u \<le> fr * 1000000 div 2 ^ 32" using b(2) by (simp add: less_eq_div_iff_mult_less_eq)
    moreover have "fr * 1000000 div 2 ^ 32 < u + 2" using b(3) by (simp add: div_less_iff_less_mult)
    ultimately show ?thesis by linarith
  qed
  moreover have "tv_usec (ConvertNtpToUnix (ConvertUnixToNtp oor t)) = int (fr * 1000000 div 2 ^ 32)"
    using usec_back [of "ntp_fraction (ConvertUnixToNtp oor t)"]
    unfolding ConvertNtpToUnix_def timeval.select_convs f by (rule arg_cong)
  moreover have "tv_sec (ConvertNtpToUnix (ConvertUnixToNtp oor t)) = tv_sec t"
  proof -
    define s where "s = tv_sec t + 2208988800"
    have s: "0 \<le> s" "s < 4294967296" using assms(3,4) by (simp_all add: s_def)
    have "(word_of_int (tv_sec t) + SECONDS_SINCE_FIRST_EPOCH :: u64) = word_of_int s"
      by (simp add: SECONDS_SINCE_FIRST_EPOCH_def s_def)
    then have "(ucast (ntp_second (ConvertUnixToNtp oor t)) :: u64) = word_of_int s"
    proof -
      assume w: "word_of_int (tv_sec t) + SECONDS_SINCE_FIRST_EPOCH = (word_of_int s :: u64)"
      have "uint (ntp_second (ConvertUnixToNtp oor t)) = s"
        using s by (simp add: ConvertUnixToNtp_def w unsigned_ucast_eq unsigned_of_int take_bit_int_eq_self)
      then show ?thesis by (metis uint_ucast_u32 word_of_int_uint)
    qed
    then have "ucast (ntp_second (ConvertUnixToNtp oor t)) - SECONDS_SINCE_FIRST_EPOCH = (word_of_int (tv_sec t) :: u64)"
      by (simp add: SECONDS_SINCE_FIRST_EPOCH_def s_def)
    moreover have "in_i64 (tv_sec t)" using assms(3,4) by (simp add: in_i64_def)
    ultimately show ?thesis by (simp add: ConvertNtpToUnix_def)
  qed
  ultimately show ?thesis by (auto simp: Let_def u(3))
qed

theorem Unix_Ntp_roundtrip_witness:
  "tv_sec (ConvertNtpToUnix (ConvertUnixToNtp 0 sample_now)) = 1000"
  using Unix_Ntp_roundtrip [of sample_now 0] by (simp add: sample_now_def Let_def)

text \<open>In the last microsecond of a second the fraction is not representable: the product rounds up
  to $2^{32}$, the conversion to \<open>uint32_t\<close> is undefined, and the fraction is whatever the platform
  makes of it.\<close>

theorem last_microsecond_overflows:
  "ntp_fraction (ConvertUnixToNtp oor \<lparr>tv_sec = s, tv_usec = 999999\<rparr>) = oor"
proof -
  have "round_bits 53 (1000000 * TEN_TO_MINUS_SIX_MANTISSA) div 2 ^ 40 = 2 ^ 32"
    by (simp add: TEN_TO_MINUS_SIX_MANTISSA_def round_bits_def round_half_even_def bit_len.simps Let_def)
  then show ?thesis by (simp add: ConvertUnixToNtp_def to_uint32_def)
qed

text \<open>The socket stays open after a successful exchange, and after a connection that fails.\<close>

lemma RequestTime_leaks:
  "n_getaddrinfo n = 0 \<Longrightarrow> n_socket n \<noteq> 0 \<Longrightarrow> snd (fst (RequestTime sc oor n c)) \<or> n_connect n < 0 \<Longrightarrow>
    opened (snd (RequestTime sc oor n c)) = {# n_socket n #} \<and> closed (snd (RequestTime sc oor n c)) = {#}"
  by (auto simp: RequestTime_def Let_def split: if_splits prod.splits)

lemma RequestTime_ok:
  "n_getaddrinfo n = 0 \<Longrightarrow> n_socket n \<noteq> 0 \<Longrightarrow> 0 \<le> n_connect n \<Longrightarrow> n_send n \<noteq> -1 \<Longrightarrow> n_recv n \<noteq> -1 \<Longrightarrow>
    fst (RequestTime sc oor n c) =
      (ReceivedMessage sc oor (n_received_at n) (n_steady_ms n) (n_reply n)
        (snd (CreateMessage oor (n_sent_at n) (replicate NTP_PACKAGE_SIZE 0) c)), True)"
  by (simp add: RequestTime_def Let_def split: prod.splits)

end
