(* ===== verification/Timer_Contract.thy ===== *)
theory Timer_Contract
  imports Timer_Reach
begin

text \<open>
  What a client of \<open>ITimerManager\<close> relies on, as an interface: a table of timers, operations
  that answer whether the timer is in the table, and of which only \<open>create\<close> and \<open>destroy\<close>
  change the table (\<open>timer_table\<close>, \<open>timer_factory\<close>). The client's lemmas are about any
  sequence of operations after a timer has been created or destroyed. \<open>TimerManager\<close> provides
  the interface; \<open>TimeService\<close>, which passes the operations on to it, provides it too.
\<close>

datatype timer_op = Op_start u64 u64 | Op_stop u64 | Op_destroy u64

text \<open>One operation, and a sequence of them, over an implementation's three functions.\<close>

fun do_op :: "(u64 \<Rightarrow> u64 \<Rightarrow> 'm \<Rightarrow> 'm \<times> bool) \<Rightarrow> (u64 \<Rightarrow> 'm \<Rightarrow> 'm \<times> bool) \<Rightarrow> (u64 \<Rightarrow> 'm \<Rightarrow> 'm \<times> bool)
  \<Rightarrow> timer_op \<Rightarrow> 'm \<Rightarrow> 'm" where
  "do_op start stop destroy (Op_start n t) m = fst (start n t m)"
| "do_op start stop destroy (Op_stop n) m = fst (stop n m)"
| "do_op start stop destroy (Op_destroy n) m = fst (destroy n m)"

definition do_ops :: "(u64 \<Rightarrow> u64 \<Rightarrow> 'm \<Rightarrow> 'm \<times> bool) \<Rightarrow> (u64 \<Rightarrow> 'm \<Rightarrow> 'm \<times> bool) \<Rightarrow> (u64 \<Rightarrow> 'm \<Rightarrow> 'm \<times> bool)
  \<Rightarrow> timer_op list \<Rightarrow> 'm \<Rightarrow> 'm" where
  "do_ops start stop destroy ops m = fold (do_op start stop destroy) ops m"

locale timer_table =
  fixes find_timer :: "'m \<Rightarrow> u64 \<Rightarrow> 'e option"
    and start :: "u64 \<Rightarrow> u64 \<Rightarrow> 'm \<Rightarrow> 'm \<times> bool"
    and stop :: "u64 \<Rightarrow> 'm \<Rightarrow> 'm \<times> bool"
    and destroy :: "u64 \<Rightarrow> 'm \<Rightarrow> 'm \<times> bool"
  assumes start_answer: "snd (start n t m) \<longleftrightarrow> find_timer m n \<noteq> None"
    and start_keeps: "find_timer (fst (start n t m)) = find_timer m"
    and stop_answer: "snd (stop n m) \<longleftrightarrow> find_timer m n \<noteq> None"
    and stop_keeps: "find_timer (fst (stop n m)) = find_timer m"
    and destroy_answer: "snd (destroy n m) \<longleftrightarrow> find_timer m n \<noteq> None"
    and destroy_erases: "find_timer (fst (destroy n m)) = (find_timer m)(n := None)"
begin

lemma do_op_find:
  "find_timer (do_op start stop destroy op m) n =
     (case op of Op_destroy k \<Rightarrow> if k = n then None else find_timer m n | _ \<Rightarrow> find_timer m n)"
  by (cases op) (auto simp: start_keeps stop_keeps destroy_erases)

lemma do_ops_absent: "find_timer m n = None \<Longrightarrow> find_timer (do_ops start stop destroy ops m) n = None"
  unfolding do_ops_def
  by (induction ops arbitrary: m) (auto simp: do_op_find split: timer_op.splits)

lemma do_ops_present:
  "find_timer m n = Some e \<Longrightarrow> Op_destroy n \<notin> set ops \<Longrightarrow> find_timer (do_ops start stop destroy ops m) n = Some e"
  unfolding do_ops_def
  by (induction ops arbitrary: m) (auto simp: do_op_find split: timer_op.splits)

text \<open>Once destroyed, a number is refused by every operation, whatever is done in between.\<close>

lemma destroyed_refused:
  "\<not> snd (start n t (do_ops start stop destroy ops (fst (destroy n m))))"
  "\<not> snd (stop n (do_ops start stop destroy ops (fst (destroy n m))))"
  "\<not> snd (destroy n (do_ops start stop destroy ops (fst (destroy n m))))"
  using do_ops_absent [of "fst (destroy n m)" n ops]
  by (auto simp: destroy_erases start_answer stop_answer destroy_answer)

lemma present_accepted:
  "find_timer m n \<noteq> None \<Longrightarrow> Op_destroy n \<notin> set ops \<Longrightarrow>
    snd (start n t (do_ops start stop destroy ops m)) \<and> snd (stop n (do_ops start stop destroy ops m)) \<and>
    snd (destroy n (do_ops start stop destroy ops m))"
  using do_ops_present [of m n _ ops] by (auto simp: start_answer stop_answer destroy_answer)

end

locale timer_factory = timer_table find_timer start stop destroy
  for find_timer :: "'m \<Rightarrow> u64 \<Rightarrow> 'e option" and start stop destroy +
  fixes create :: "'r \<Rightarrow> 'm \<Rightarrow> ('m \<times> u64) option"
  assumes create_finds: "create r m = Some (m', n) \<Longrightarrow> n \<noteq> 0 \<Longrightarrow> find_timer m' n \<noteq> None"
    and create_keeps: "create r m = Some (m', n) \<Longrightarrow> find_timer m k = Some e \<Longrightarrow> find_timer m' k = Some e"
begin

text \<open>A created timer is accepted until it is destroyed.\<close>

lemma created_accepted:
  "create r m = Some (m', n) \<Longrightarrow> n \<noteq> 0 \<Longrightarrow> Op_destroy n \<notin> set ops \<Longrightarrow>
    snd (start n t (do_ops start stop destroy ops m')) \<and> snd (stop n (do_ops start stop destroy ops m')) \<and>
    snd (destroy n (do_ops start stop destroy ops m'))"
  by (rule present_accepted) (auto dest: create_finds)

end

section \<open>The timer manager provides the interface\<close>

text \<open>The arguments of \<open>CreateTimer\<close>.\<close>

record timer_request =
  rq_type :: i32
  rq_windowLength :: u64
  rq_interval :: u64
  rq_flag :: i32
  rq_callback :: "timer_callback option"
  rq_uid :: int

definition registered_timer :: "timer_manager \<Rightarrow> u64 \<Rightarrow> timer_entry option" where
  "registered_timer m = map_find (timerEntryMap m)"

definition create_requested :: "world \<Rightarrow> timer_request \<Rightarrow> timer_manager \<Rightarrow> (timer_manager \<times> u64) option" where
  "create_requested w r m =
     CreateTimer w (rq_type r) (rq_windowLength r) (rq_interval r) (rq_flag r) (rq_callback r) (rq_uid r) m"

lemma SetHandler_table: "timerEntryMap (SetHandler w i t at wl iv fl cb u m) = timerEntryMap m"
  using SetHandler_frame by (simp add: same_registry_def)

lemma RemoveHandler_table: "timerEntryMap (RemoveHandler w n m) = timerEntryMap m"
  using Remove_frame by (simp add: same_registry_def)

lemma StartTimer_table:
  "registered_timer (fst (StartTimer w n t m)) = registered_timer m"
  "snd (StartTimer w n t m) \<longleftrightarrow> registered_timer m n \<noteq> None"
  by (simp_all add: registered_timer_def StartTimer_def SetHandler_table split: option.splits)

lemma StopTimerInner_table:
  "registered_timer (fst (StopTimerInner w n d m)) =
     (if d then (registered_timer m)(n := None) else registered_timer m)"
  "snd (StopTimerInner w n d m) \<longleftrightarrow> registered_timer m n \<noteq> None"
  by (auto simp: registered_timer_def StopTimerInner_def Let_def RemoveHandler_table split: option.splits)

lemma create_table:
  "create_requested w r m = Some (m', n) \<Longrightarrow>
    registered_timer m' n \<noteq> None \<and> (registered_timer m k = Some e \<longrightarrow> registered_timer m' k = Some e)"
  by (auto simp: create_requested_def registered_timer_def CreateTimer_def Let_def map_find_insert
      split: option.splits)

interpretation manager: timer_factory registered_timer "StartTimer w" "StopTimer w" "DestroyTimer w" "create_requested w"
  for w
  by unfold_locales
    (auto simp: StartTimer_table StopTimerInner_table StopTimer_def DestroyTimer_def dest: create_table)

end
