(* ===== verification/Time_Common.thy ===== *)
theory Time_Common
  imports Prelude
begin

text \<open>
  The error codes of the service (\<open>time_common.h\<close>) and the permission checks
  (\<open>time_permission.cpp\<close>). An error is a value of \<open>time_error\<close>; \<open>E_OTHER\<close> is a code of a
  library. The number of a code is \<open>error_code\<close> of the offset that the platform's macro
  \<open>ErrCodeOffset\<close> computes; it matters only where the code turns an error into a \<open>bool\<close>.
\<close>

section \<open>Errors\<close>

datatype time_error =
    ERR_OK | E_TIME_OK | E_TIME_SA_DIED | E_TIME_READ_PARCEL_ERROR | E_TIME_WRITE_PARCEL_ERROR
  | E_TIME_PUBLISH_FAIL | E_TIME_TRANSACT_ERROR | E_TIME_DEAL_FAILED | E_TIME_PARAMETERS_INVALID
  | E_TIME_SET_RTC_FAILED | E_TIME_NOT_FOUND | E_TIME_NO_PERMISSION | E_OTHER int

fun error_code :: "int \<Rightarrow> time_error \<Rightarrow> int" where
  "error_code offset ERR_OK = 0"
| "error_code offset E_TIME_OK = offset"
| "error_code offset E_TIME_SA_DIED = offset + 1"
| "error_code offset E_TIME_READ_PARCEL_ERROR = offset + 2"
| "error_code offset E_TIME_WRITE_PARCEL_ERROR = offset + 3"
| "error_code offset E_TIME_PUBLISH_FAIL = offset + 4"
| "error_code offset E_TIME_TRANSACT_ERROR = offset + 5"
| "error_code offset E_TIME_DEAL_FAILED = offset + 6"
| "error_code offset E_TIME_PARAMETERS_INVALID = offset + 7"
| "error_code offset E_TIME_SET_RTC_FAILED = offset + 8"
| "error_code offset E_TIME_NOT_FOUND = offset + 9"
| "error_code offset E_TIME_NO_PERMISSION = offset + 10"
| "error_code offset (E_OTHER n) = n"

text \<open>The conversion of an error code to \<open>bool\<close>.\<close>

definition as_bool :: "int \<Rightarrow> time_error \<Rightarrow> bool" where
  "as_bool offset e \<longleftrightarrow> error_code offset e \<noteq> 0"

section \<open>Permissions\<close>

text \<open>The kind of the calling token, and whether the access token service grants a permission.\<close>

datatype token_type = TOKEN_HAP | TOKEN_NATIVE | TOKEN_OTHER

record caller =
  token_kind :: token_type
  native_granted :: "string \<Rightarrow> bool"
  access_granted :: "string \<Rightarrow> bool"

definition CheckCallingPermission :: "string \<Rightarrow> caller \<Rightarrow> bool" where
  "CheckCallingPermission permissionName c =
     (if permissionName = [] then False
      else case token_kind c of
             TOKEN_NATIVE \<Rightarrow> native_granted c permissionName
           | TOKEN_HAP \<Rightarrow> access_granted c permissionName
           | TOKEN_OTHER \<Rightarrow> False)"

definition CheckProxyCallingPermission :: "caller \<Rightarrow> bool" where
  "CheckProxyCallingPermission c \<longleftrightarrow> token_kind c = TOKEN_NATIVE"

section \<open>The mock of the tests\<close>

text \<open>What \<open>utils/mock\<close> puts in the place of the permission check of other components: everything is granted.\<close>

definition VerifyPermission :: "string \<Rightarrow> string \<Rightarrow> int \<Rightarrow> bool" where
  "VerifyPermission bundleName permissionName userId = True"

end
