(* ===== verification/Time_Notify.thy ===== *)
theory Time_Notify
  imports Prelude
begin

text \<open>
  The common events the service publishes (\<open>time_service_notify.cpp\<close>) and the tick of every
  minute (\<open>time_tick_notify.cpp\<close>). What is published is recorded in order in \<open>published\<close>; the
  event time is only logged. The timer of the C utilities library is outside the program: the
  calls it gets are recorded in \<open>tick_calls\<close>, and the identifiers it gives are parameters.
\<close>

section \<open>Published events\<close>

datatype common_event =
  COMMON_EVENT_TIME_CHANGED | COMMON_EVENT_TIMEZONE_CHANGED | COMMON_EVENT_TIME_TICK

record notify =
  publishInfo :: bool
  timeChangeWant :: "common_event option"
  timeZoneChangeWant :: "common_event option"
  timeTickWant :: "common_event option"
  published :: "common_event list"

definition TimeServiceNotify :: notify where
  "TimeServiceNotify = \<lparr>publishInfo = False, timeChangeWant = None, timeZoneChangeWant = None,
     timeTickWant = None, published = []\<rparr>"

definition RegisterPublishEvents :: "notify \<Rightarrow> notify" where
  "RegisterPublishEvents n =
     (if publishInfo n then n
      else n\<lparr>publishInfo := True, timeChangeWant := Some COMMON_EVENT_TIME_CHANGED,
             timeZoneChangeWant := Some COMMON_EVENT_TIMEZONE_CHANGED,
             timeTickWant := Some COMMON_EVENT_TIME_TICK\<rparr>)"

definition PublishEvents :: "common_event option \<Rightarrow> notify \<Rightarrow> notify" where
  "PublishEvents want n =
     (case want of
        None \<Rightarrow> n
      | Some action \<Rightarrow> if \<not> publishInfo n then n else n\<lparr>published := published n @ [action]\<rparr>)"

definition PublishTimeChanageEvents :: "notify \<Rightarrow> notify" where
  "PublishTimeChanageEvents n = PublishEvents (timeChangeWant n) n"

definition PublishTimeZoneChangeEvents :: "notify \<Rightarrow> notify" where
  "PublishTimeZoneChangeEvents n = PublishEvents (timeZoneChangeWant n) n"

definition PublishTimeTickEvents :: "notify \<Rightarrow> notify" where
  "PublishTimeTickEvents n = PublishEvents (timeTickWant n) n"

text \<open>The events are registered together or not at all, and stay registered.\<close>

definition notify_ready :: "notify \<Rightarrow> bool" where
  "notify_ready n \<longleftrightarrow> publishInfo n \<and> timeChangeWant n = Some COMMON_EVENT_TIME_CHANGED \<and>
     timeZoneChangeWant n = Some COMMON_EVENT_TIMEZONE_CHANGED \<and> timeTickWant n = Some COMMON_EVENT_TIME_TICK"

lemma RegisterPublishEvents_ready: "\<not> publishInfo n \<or> notify_ready n \<Longrightarrow> notify_ready (RegisterPublishEvents n)"
  by (auto simp: RegisterPublishEvents_def notify_ready_def)

lemma notify_ready_publish [simp]: "notify_ready n \<Longrightarrow> notify_ready (PublishEvents w n)"
  by (auto simp: PublishEvents_def notify_ready_def split: option.splits)

lemma published_ready:
  assumes "notify_ready n"
  shows "published (PublishTimeChanageEvents n) = published n @ [COMMON_EVENT_TIME_CHANGED]"
    and "published (PublishTimeZoneChangeEvents n) = published n @ [COMMON_EVENT_TIMEZONE_CHANGED]"
    and "published (PublishTimeTickEvents n) = published n @ [COMMON_EVENT_TIME_TICK]"
  using assms
  by (simp_all add: notify_ready_def PublishEvents_def PublishTimeChanageEvents_def
      PublishTimeZoneChangeEvents_def PublishTimeTickEvents_def)

section \<open>The tick\<close>

definition MINUTE_TO_MILLISECOND :: u64 where "MINUTE_TO_MILLISECOND = 60000"
definition MICRO_TO_MILESECOND :: u64 where "MICRO_TO_MILESECOND = 1000"

datatype timer_call = Timer_Register u32 u64 | Timer_Unregister u32 | Timer_Shutdown

record tick =
  tick_timerId :: u32
  tick_nextTriggerTime :: u64
  tick_calls :: "timer_call list"

definition GetMillisecondsFromUTC :: "u64 \<Rightarrow> u64" where
  "GetMillisecondsFromUTC UTCtimeMicro = (UTCtimeMicro div MICRO_TO_MILESECOND) mod MINUTE_TO_MILLISECOND"

text \<open>\<open>utc_micro\<close> is the system clock in microseconds, a signed number.\<close>

definition RefreshNextTriggerTime_tick :: "int \<Rightarrow> tick \<Rightarrow> tick" where
  "RefreshNextTriggerTime_tick utc_micro k =
     k\<lparr>tick_nextTriggerTime := MINUTE_TO_MILLISECOND - GetMillisecondsFromUTC (word_of_int utc_micro)\<rparr>"

text \<open>\<open>setup_ok\<close> is whether the timer could be set up, \<open>new_id\<close> the identifier it gives.\<close>

definition register_tick :: "u32 \<Rightarrow> tick \<Rightarrow> tick" where
  "register_tick new_id k =
     k\<lparr>tick_timerId := new_id, tick_calls := tick_calls k @ [Timer_Register new_id (tick_nextTriggerTime k)]\<rparr>"

definition Init_tick :: "bool \<Rightarrow> int \<Rightarrow> u32 \<Rightarrow> tick \<Rightarrow> tick" where
  "Init_tick setup_ok utc_micro new_id k =
     (if \<not> setup_ok then k else register_tick new_id (RefreshNextTriggerTime_tick utc_micro k))"

definition Callback_tick :: "int \<Rightarrow> u32 \<Rightarrow> notify \<times> tick \<Rightarrow> notify \<times> tick" where
  "Callback_tick utc_micro new_id nk =
     (let (n, k) = nk; n1 = PublishTimeTickEvents n;
          k1 = k\<lparr>tick_calls := tick_calls k @ [Timer_Unregister (tick_timerId k)]\<rparr>
      in (n1, register_tick new_id (RefreshNextTriggerTime_tick utc_micro k1)))"

definition Stop_tick :: "tick \<Rightarrow> tick" where
  "Stop_tick k = k\<lparr>tick_calls := tick_calls k @ [Timer_Shutdown]\<rparr>"

text \<open>The tick that is registered comes at the next full minute, to the millisecond.\<close>

lemma next_tick_on_the_minute:
  assumes "0 \<le> us" "us < 2 ^ 63"
  shows "let d = uint (tick_nextTriggerTime (RefreshNextTriggerTime_tick us k))
    in 1 \<le> d \<and> d \<le> 60000 \<and> (us div 1000 + d) mod 60000 = 0"
proof -
  let ?r = "(us div 1000) mod 60000"
  have u: "uint (word_of_int us :: u64) = us"
    using assms by (simp add: uint_word_of_int_eq take_bit_int_eq_self)
  have r: "0 \<le> ?r" "?r < 60000" by simp_all
  have g: "uint (GetMillisecondsFromUTC (word_of_int us)) = ?r"
    by (simp add: GetMillisecondsFromUTC_def MICRO_TO_MILESECOND_def MINUTE_TO_MILLISECOND_def
        uint_mod uint_div u)
  have "uint (60000 - GetMillisecondsFromUTC (word_of_int us)) = 60000 - ?r"
    using r g by (subst uint_sub_if') simp
  moreover have "(us div 1000 + (60000 - ?r)) mod 60000 = 0"
    by (metis add_diff_eq diff_add_eq minus_mod_eq_mult_div mod_add_self2 mod_mult_self1_is_0)
  ultimately show ?thesis
    using r by (simp add: RefreshNextTriggerTime_tick_def MINUTE_TO_MILLISECOND_def)
qed

end
