(* ===== verification/Time_Cmd.thy ===== *)
theory Time_Cmd
  imports Cpp_Std "HOL-Library.List_Lexorder" "HOL-Library.Char_ord"
begin

text \<open>
  The dump commands (\<open>time_cmd_parse.cpp\<close>, \<open>time_cmd_dispatcher.cpp\<close>). An action is a
  \<open>std::function\<close>, here a value of a type \<open>'a\<close> that names it. \<open>None\<close> for a title is the
  \<open>std::out_of_range\<close> that \<open>at\<close> throws on an empty list, whose \<open>size() - 1\<close> wraps.
\<close>

record 'a time_cmd =
  cmd_format :: "string list"
  cmd_help :: string
  cmd_action :: 'a

text \<open>
  All words but the last, each followed by a space, without the last character:
  \<open>substr(0, length() - 1)\<close> of the empty string is the empty string.
\<close>

definition title_of :: "string list \<Rightarrow> string option" where
  "title_of args =
     (if args = [] then None else Some (butlast (concat (map (\<lambda>w. w @ '' '') (butlast args)))))"

definition ShowHelp :: "'a time_cmd \<Rightarrow> string" where "ShowHelp c = cmd_help c"
definition DoAction :: "'a time_cmd \<Rightarrow> 'a" where "DoAction c = cmd_action c"
definition GetOption :: "'a time_cmd \<Rightarrow> string option" where "GetOption c = title_of (cmd_format c)"
definition GetFormat :: "'a time_cmd \<Rightarrow> string" where
  "GetFormat c = concat (map (\<lambda>seg. seg @ '' '') (cmd_format c))"

definition getCmdTitle :: "string list \<Rightarrow> string option" where "getCmdTitle args = title_of args"

type_synonym 'a dispatcher = "(string, 'a time_cmd) std_map"

definition RegisterCommand :: "'a time_cmd \<Rightarrow> 'a dispatcher \<Rightarrow> 'a dispatcher option" where
  "RegisterCommand cmd d =
     (case GetOption cmd of None \<Rightarrow> None | Some key \<Rightarrow> Some (map_insert key cmd d))"

text \<open>\<open>%-15s: %-20s\<close> after a new line.\<close>

definition pad_right :: "nat \<Rightarrow> string \<Rightarrow> string" where
  "pad_right n s = s @ replicate (n - length s) (CHR '' '')"

definition help_line :: "string \<Rightarrow> string \<Rightarrow> string" where
  "help_line a b = [CHR 0x0A] @ pad_right 15 a @ '': '' @ pad_right 20 b"

text \<open>The text that is written, the action that is run, and the result.\<close>

definition Dispatch :: "string list \<Rightarrow> 'a dispatcher \<Rightarrow> (string \<times> 'a option \<times> bool) option" where
  "Dispatch args d =
     (if args = [] \<or> hd args = ''-h''
      then Some (help_line ''Option'' ''Description'' @
                 concat (map (\<lambda>(key, handler). help_line (GetFormat handler) (ShowHelp handler)) d), None, False)
      else case getCmdTitle args of
             None \<Rightarrow> None
           | Some cmdTitle \<Rightarrow>
               (case map_find d cmdTitle of
                  Some handler \<Rightarrow> Some ([], Some (DoAction handler), True)
                | None \<Rightarrow> Some ([], None, False)))"

section \<open>Registration\<close>

text \<open>A command's key; every command of the service has at least one word.\<close>

definition key_of :: "'a time_cmd \<Rightarrow> string" where
  "key_of c = (case GetOption c of None \<Rightarrow> [] | Some k \<Rightarrow> k)"

text \<open>The first command of a key is the one that is found.\<close>

lemma RegisterCommand_finds:
  "RegisterCommand c d = Some d' \<Longrightarrow>
    map_find d' k = (if k = key_of c \<and> map_find d k = None then Some c else map_find d k)"
  by (auto simp: RegisterCommand_def key_of_def std_map_registry.lookup_register split: option.splits)

lemma RegisterCommand_first:
  "RegisterCommand c d = Some d' \<Longrightarrow> map_find d k = Some c0 \<Longrightarrow> map_find d' k = Some c0"
  by (simp add: RegisterCommand_finds)

text \<open>A single word that is not \<open>-h\<close> has the empty title, whatever it is.\<close>

lemma title_of_single [simp]: "title_of [w] = Some []"
  by (simp add: title_of_def)

lemma title_of_many:
  "ws \<noteq> [] \<Longrightarrow> title_of (ws @ [w]) = Some (butlast (concat (map (\<lambda>w. w @ '' '') ws)))"
  by (simp add: title_of_def)

lemma Dispatch_runs:
  "args \<noteq> [] \<Longrightarrow> hd args \<noteq> ''-h'' \<Longrightarrow> title_of args = Some key \<Longrightarrow>
    Dispatch args d =
      Some ([], map_option cmd_action (map_find d key), map_find d key \<noteq> None)"
  by (auto simp: Dispatch_def getCmdTitle_def DoAction_def split: option.splits)

end
