(* ===== verification/Ntp_Trusted_Time.thy ===== *)
theory Ntp_Trusted_Time
  imports Sntp_Client
begin

text \<open>
  \<open>NtpTrustedTime\<close> (\<open>ntp_trusted_time.cpp\<close>): the last network time and the steady clock's
  reading that goes with it. \<open>None\<close> is the null pointer, the state before the first successful
  exchange. \<open>Clear\<close> zeroes a result that is then replaced and that nothing else refers to.
\<close>

record time_result =
  mTimeMillis :: int
  mElapsedRealtimeMillis :: int
  mCertaintyMillis :: int

definition INVALID_MILLIS :: int where "INVALID_MILLIS = -1"
definition HALF :: int where "HALF = 2"
definition INT_MAX :: int where "INT_MAX = 2147483647"

definition TimeResult :: "int \<Rightarrow> int \<Rightarrow> int \<Rightarrow> time_result" where
  "TimeResult t e c = \<lparr>mTimeMillis = t, mElapsedRealtimeMillis = e, mCertaintyMillis = c\<rparr>"

definition GetTimeMillis :: "time_result \<Rightarrow> int" where "GetTimeMillis r = mTimeMillis r"
definition GetElapsedRealtimeMillis :: "time_result \<Rightarrow> int" where
  "GetElapsedRealtimeMillis r = mElapsedRealtimeMillis r"
definition GetCertaintyMillis :: "time_result \<Rightarrow> int" where "GetCertaintyMillis r = mCertaintyMillis r"

text \<open>\<open>now\<close> is the steady clock in milliseconds.\<close>

definition GetAgeMillis :: "int \<Rightarrow> time_result \<Rightarrow> int" where
  "GetAgeMillis now r = now - mElapsedRealtimeMillis r"

definition CurrentTimeMillis_result :: "int \<Rightarrow> time_result \<Rightarrow> int" where
  "CurrentTimeMillis_result now r = mTimeMillis r + GetAgeMillis now r"

definition Clear_result :: "time_result \<Rightarrow> time_result" where
  "Clear_result r = TimeResult 0 0 0"

definition result_of :: "sntp_client \<Rightarrow> time_result" where
  "result_of client =
     (let ntpCertainty = getRoundTripTime client sdiv HALF
      in TimeResult (getNtpTIme client) (getNtpTimeReference client) ntpCertainty)"

text \<open>
  \<open>first\<close> and \<open>again\<close> are the results of the system calls of the two attempts with the server,
  \<open>client\<close> the new client, whose fields are not initialised.
\<close>

definition ForceRefresh ::
  "bool \<Rightarrow> u32 \<Rightarrow> (string \<Rightarrow> exchange) \<Rightarrow> (string \<Rightarrow> exchange) \<Rightarrow> sntp_client \<Rightarrow> string \<Rightarrow> time_result option
   \<Rightarrow> (time_result option \<times> bool) \<times> fd_event list" where
  "ForceRefresh sc oor first again client ntpServer mTimeResult =
     (let ((c1, ok1), ev1) = RequestTime sc oor (first ntpServer) client in
      if ok1 then ((Some (result_of c1), True), ev1)
      else let ((c2, ok2), ev2) = RequestTime sc oor (again ntpServer) c1 in
        if ok2 then ((Some (result_of c2), True), ev1 @ ev2)
        else ((mTimeResult, False), ev1 @ ev2))"

definition CurrentTimeMillis :: "int \<Rightarrow> time_result option \<Rightarrow> int" where
  "CurrentTimeMillis now mTimeResult =
     (case mTimeResult of None \<Rightarrow> INVALID_MILLIS | Some r \<Rightarrow> CurrentTimeMillis_result now r)"

text \<open>\<open>HasCache\<close> says that there is no cached result.\<close>

definition HasCache :: "time_result option \<Rightarrow> bool" where
  "HasCache mTimeResult \<longleftrightarrow> mTimeResult = None"

definition GetCacheAge :: "int \<Rightarrow> time_result option \<Rightarrow> int" where
  "GetCacheAge now mTimeResult =
     (case mTimeResult of Some r \<Rightarrow> now - GetElapsedRealtimeMillis r | None \<Rightarrow> INT_MAX)"

definition GetCachedNtpTime :: "time_result option \<Rightarrow> int" where
  "GetCachedNtpTime mTimeResult = (case mTimeResult of None \<Rightarrow> 0 | Some r \<Rightarrow> GetTimeMillis r)"

definition GetCachedNtpTimeReference :: "time_result option \<Rightarrow> int" where
  "GetCachedNtpTimeReference mTimeResult = (case mTimeResult of None \<Rightarrow> 0 | Some r \<Rightarrow> GetElapsedRealtimeMillis r)"

section \<open>Laws\<close>

text \<open>The current time is the cached one and the age of the cache.\<close>

lemma CurrentTimeMillis_age:
  "r \<noteq> None \<Longrightarrow> CurrentTimeMillis now r = GetCachedNtpTime r + GetCacheAge now r"
  by (auto simp: CurrentTimeMillis_def GetCachedNtpTime_def GetCacheAge_def CurrentTimeMillis_result_def
      GetAgeMillis_def GetTimeMillis_def GetElapsedRealtimeMillis_def)

text \<open>A refresh that fails leaves the cache alone; one that succeeds caches a result.\<close>

lemma ForceRefresh_fails:
  "ForceRefresh sc oor first again client srv r = ((r', False), ev) \<Longrightarrow> r' = r"
  by (auto simp: ForceRefresh_def Let_def split: prod.splits if_splits)

lemma ForceRefresh_succeeds:
  "ForceRefresh sc oor first again client srv r = ((r', True), ev) \<Longrightarrow> \<exists>c. r' = Some (result_of c)"
  by (auto simp: ForceRefresh_def Let_def split: prod.splits if_splits)

text \<open>The second attempt is made exactly when the first one fails.\<close>

lemma ForceRefresh_attempts:
  "snd (fst (ForceRefresh sc oor first again client srv r)) \<longleftrightarrow>
     snd (fst (RequestTime sc oor (first srv) client)) \<or>
     snd (fst (RequestTime sc oor (again srv) (fst (fst (RequestTime sc oor (first srv) client)))))"
  by (simp add: ForceRefresh_def Let_def split: prod.splits)

end
