(* ===== verification/Time_Sysevent.thy ===== *)
theory Time_Sysevent
  imports Prelude
begin

text \<open>
  The report of a new timer to the statistics of the system (\<open>time_sysevent.cpp\<close>). The writer is
  outside the program; what it is given is recorded, and whether it succeeds makes no difference but to the log.
\<close>

record statistic_report =
  report_domain :: string
  report_event :: string
  CALLER_PID :: int
  CALLER_UID :: int
  TIMER_TYPE :: i32
  TRIGGER_TIME :: int
  report_INTERVAL :: u64

definition DOMAIN_STR :: string where "DOMAIN_STR = ''TIME''"

definition StatisticReporter :: "int \<Rightarrow> int \<Rightarrow> i32 \<Rightarrow> int \<Rightarrow> u64 \<Rightarrow> statistic_report list \<Rightarrow> statistic_report list" where
  "StatisticReporter callerPid callerUid type triggerTime interval written =
     written @ [\<lparr>report_domain = DOMAIN_STR, report_event = ''MISC_TIME_STATISTIC_REPORT'', CALLER_PID = callerPid,
       CALLER_UID = callerUid, TIMER_TYPE = type, TRIGGER_TIME = triggerTime, report_INTERVAL = interval\<rparr>]"

end
