(* ===== verification/Service_State.thy ===== *)
theory Service_State
  imports Timer_Contract Time_Common Time_Notify Time_Cmd Time_Zone Ntp_Trusted_Time Time_Sysevent
begin

text \<open>
  The state of the service process: \<open>TimeService\<close> and the singletons it works with
  (\<open>time_service.h\<close>, \<open>ntp_update_time.h\<close>), in one record, and everything outside the program
  that they call, in the record \<open>service_env\<close>. A call to the outside happens at an instant, the
  counter \<open>s_now\<close>, which each operation advances past its last call; so two calls may give
  different results.
\<close>

section \<open>Outside the program\<close>

text \<open>The broken-down time of the C library, and the structure of the RTC driver.\<close>

record tm =
  tm_sec :: int
  tm_min :: int
  tm_hour :: int
  tm_mday :: int
  tm_mon :: int
  tm_year :: int
  tm_wday :: int
  tm_yday :: int
  tm_isdst :: int

record rtc_time =
  rtc_sec :: int
  rtc_min :: int
  rtc_hour :: int
  rtc_mday :: int
  rtc_mon :: int
  rtc_year :: int
  rtc_wday :: int
  rtc_yday :: int
  rtc_isdst :: int

record auto_time_info =
  NTP_SERVER :: string
  auto_status :: string
  lastUpdateTime :: int

datatype net_result = NET_CONN_SUCCESS | NET_CONN_ERR_INPUT_NULL_PTR | NET_CONN_OTHER int

text \<open>
  The time of the steady clock is in nanoseconds. \<open>e_clock\<close> is \<open>clock_gettime\<close>, \<open>None\<close> when it
  fails; \<open>e_thread_clock\<close> whether \<open>pthread_getcpuclockid\<close> succeeds; \<open>e_auto_parse\<close> and
  \<open>e_auto_render\<close> are the JSON library on the file of \<open>NtpUpdateTime\<close>; \<open>e_localtime\<close> is
  \<open>strftime\<close> of \<open>localtime_r\<close>.
\<close>

record service_env =
  e_world :: world
  e_handler :: "nat \<Rightarrow> os_calls"
  e_err_offset :: int
  e_long_max :: int
  e_caller :: "nat \<Rightarrow> caller"
  e_uid :: "nat \<Rightarrow> int"
  e_pid :: "nat \<Rightarrow> int"
  e_iface_cast :: "nat \<Rightarrow> bool"
  e_clock :: "clock_id \<Rightarrow> nat \<Rightarrow> (int \<times> int) option"
  e_thread_clock :: "nat \<Rightarrow> bool"
  e_steady :: "nat \<Rightarrow> int"
  e_settimeofday :: "nat \<Rightarrow> int \<times> int \<Rightarrow> int"
  e_rtc_open :: "nat \<Rightarrow> string \<Rightarrow> int"
  e_gmtime :: "int \<Rightarrow> tm option"
  e_rtc_set :: "nat \<Rightarrow> rtc_time \<Rightarrow> int"
  e_rtc_dir :: "string \<Rightarrow> string list option"
  e_readable :: "string \<Rightarrow> bool"
  e_zone :: "nat \<Rightarrow> zone_os"
  e_auto_parse :: "string \<Rightarrow> auto_time_info option"
  e_auto_render :: "auto_time_info \<Rightarrow> string"
  e_auto_writable :: "nat \<Rightarrow> bool"
  e_char_signed :: bool
  e_overflow :: u32
  e_exchange :: "nat \<Rightarrow> string \<Rightarrow> exchange"
  e_new_client :: "nat \<Rightarrow> sntp_client"
  e_subscribe :: "nat \<Rightarrow> bool"
  e_new_specifier :: "nat \<Rightarrow> bool"
  e_new_observer :: "nat \<Rightarrow> bool"
  e_register_net :: "nat \<Rightarrow> net_result"
  e_publish :: "nat \<Rightarrow> bool"
  e_str16to8 :: "16 word list \<Rightarrow> string"
  e_localtime :: "int \<Rightarrow> string"
  e_tick_setup :: "nat \<Rightarrow> bool"
  e_utc_micro :: "nat \<Rightarrow> int"
  e_tick_id :: "nat \<Rightarrow> u32"

section \<open>The process\<close>

datatype running_state = STATE_NOT_START | STATE_RUNNING

text \<open>The functions the service registers as dump actions.\<close>

datatype dump_action = DumpAllTimeInfo_action | DumpTimerInfo_action | DumpTimerInfoById_action | DumpTimerTriggerById_action

record ntp_update =
  autoTimeInfo :: auto_time_info
  ntp_timerId :: u64
  nitzUpdateTimeMili :: u64
  ntp_nextTriggerTime :: u64

text \<open>
  \<open>s_wall_sets\<close> and \<open>s_rtc_sets\<close> are the times that were set successfully, \<open>s_fds\<close> the
  descriptors opened and closed, \<open>s_tasks\<close> the delays of the tasks posted to the handler,
  \<open>s_reports\<close> what was reported to the statistics of the system.
\<close>

record time_service =
  s_now :: nat
  s_state :: running_state
  s_rtc_id :: int
  s_serviceHandler :: bool
  s_tasks :: "int list"
  s_manager :: "timer_manager option"
  s_zone :: time_zone
  s_notify :: notify
  s_tick :: tick
  s_ntp :: ntp_update
  s_auto_file :: "string option"
  s_nitz_subscribed :: bool
  s_net_registered :: bool
  s_trusted :: "time_result option"
  s_cmds :: "dump_action dispatcher"
  s_wall_sets :: "(int \<times> int) list"
  s_rtc_sets :: "rtc_time list"
  s_fds :: "fd_event list"
  s_reports :: "statistic_report list"

definition after :: "nat \<Rightarrow> time_service \<Rightarrow> time_service" where
  "after n s = s\<lparr>s_now := s_now s + n\<rparr>"

section \<open>The timer manager of the service\<close>

text \<open>\<open>TimerManager::Create\<close>.\<close>

definition TimerManager_Create :: "os_calls \<Rightarrow> timer_manager option \<times> fd_event list" where
  "TimerManager_Create os =
     (let (impl, ev) = Create_handler os in
      case impl of None \<Rightarrow> (None, ev) | Some _ \<Rightarrow> (Some TimerManager, ev))"

text \<open>What every operation does first: take the manager, or create one.\<close>

definition get_manager :: "service_env \<Rightarrow> time_service \<Rightarrow> time_service \<times> timer_manager option" where
  "get_manager e s =
     (case s_manager s of
        Some m \<Rightarrow> (s, Some m)
      | None \<Rightarrow>
          let (r, ev) = TimerManager_Create (e_handler e (s_now s))
          in ((after 1 s)\<lparr>s_manager := r, s_fds := s_fds s @ ev\<rparr>, r))"

lemma get_manager_Some [simp]: "s_manager s = Some m \<Longrightarrow> get_manager e s = (s, Some m)"
  by (simp add: get_manager_def)

lemma get_manager_state: "s_manager (fst (get_manager e s)) = snd (get_manager e s)"
  by (simp add: get_manager_def Let_def split: option.splits prod.splits)

text \<open>A manager that the service has just created is the constructor's.\<close>

lemma get_manager_new: "s_manager s = None \<Longrightarrow> snd (get_manager e s) = Some m \<Longrightarrow> m = TimerManager"
  by (auto simp: get_manager_def TimerManager_Create_def Let_def split: option.splits prod.splits)

end
