(* ===== verification/Service_Samples.thy ===== *)
theory Service_Samples
  imports Service_State
begin

text \<open>
  One concrete process and one concrete outside, for the examples of the theories that follow: a
  native caller with every permission, clocks that stand still, a hardware clock 0, a zone file that
  can be written, and a server whose answers are all zero.
\<close>

definition sample_caller :: caller where
  "sample_caller = \<lparr>token_kind = TOKEN_NATIVE, native_granted = (\<lambda>_. True), access_granted = (\<lambda>_. False)\<rparr>"

definition refused_caller :: caller where
  "refused_caller = sample_caller\<lparr>token_kind := TOKEN_HAP\<rparr>"

definition sample_exchange :: exchange where
  "sample_exchange = \<lparr>n_getaddrinfo = 0, n_socket = 7, n_connect = 0, n_send = 48, n_recv = 48,
     n_reply = replicate 48 0, n_sent_at = sample_now, n_received_at = sample_now, n_steady_ms = 5\<rparr>"

definition sample_info :: "string \<Rightarrow> auto_time_info" where
  "sample_info st = \<lparr>NTP_SERVER = ''ntp.aliyun.com'', auto_status = st, lastUpdateTime = -1\<rparr>"

text \<open>A file format that keeps the status only, which is enough to read it back.\<close>

definition sample_env :: service_env where
  "sample_env = \<lparr>e_world = sample_world,
     e_handler = (\<lambda>_. \<lparr>os_epoll_create = 3, os_timerfd_create = (\<lambda>i c. 10 + int i),
                        os_epoll_ctl_add = (\<lambda>_. 0), os_timerfd_settime = 0\<rparr>),
     e_err_offset = 1, e_long_max = 2 ^ 63 - 1, e_caller = (\<lambda>_. sample_caller), e_uid = (\<lambda>_. 100), e_pid = (\<lambda>_. 1000),
     e_iface_cast = (\<lambda>_. True), e_clock = (\<lambda>c t. Some (1600000005, 1999999)), e_thread_clock = (\<lambda>_. True),
     e_steady = (\<lambda>_. 100000000000), e_settimeofday = (\<lambda>_ _. 0), e_rtc_open = (\<lambda>_ _. 9),
     e_gmtime = (\<lambda>s. Some \<lparr>tm_sec = s mod 60, tm_min = 0, tm_hour = 0, tm_mday = 1, tm_mon = 0, tm_year = 70,
                          tm_wday = 4, tm_yday = 0, tm_isdst = 0\<rparr>),
     e_rtc_set = (\<lambda>_ _. 0), e_rtc_dir = (\<lambda>_. Some [''.'', ''..'', ''rtc0'']), e_readable = (\<lambda>_. True),
     e_zone = (\<lambda>_. sample_zone_os),
     e_auto_parse = (\<lambda>c. if c = [] then None else Some (sample_info c)),
     e_auto_render = auto_status, e_auto_writable = (\<lambda>_. True),
     e_char_signed = False, e_overflow = 0, e_exchange = (\<lambda>_ _. sample_exchange),
     e_new_client = (\<lambda>_. sample_client), e_subscribe = (\<lambda>_. True), e_new_specifier = (\<lambda>_. True),
     e_new_observer = (\<lambda>_. True), e_register_net = (\<lambda>_. NET_CONN_SUCCESS), e_publish = (\<lambda>_. True),
     e_str16to8 = map (\<lambda>c. char_of (unat c)), e_localtime = (\<lambda>_. ''1970-01-01 00:00:00''),
     e_tick_setup = (\<lambda>_. True), e_utc_micro = (\<lambda>_. 1600000005001999), e_tick_id = (\<lambda>_. 1)\<rparr>"

definition sample_service :: time_service where
  "sample_service = \<lparr>s_now = 0, s_state = STATE_NOT_START, s_rtc_id = 0, s_serviceHandler = False, s_tasks = [],
     s_manager = None, s_zone = TimeZoneInfo None None, s_notify = TimeServiceNotify,
     s_tick = \<lparr>tick_timerId = 0, tick_nextTriggerTime = 0, tick_calls = []\<rparr>,
     s_ntp = \<lparr>autoTimeInfo = sample_info ''ON'', ntp_timerId = 0, nitzUpdateTimeMili = 0, ntp_nextTriggerTime = 0\<rparr>,
     s_auto_file = None, s_nitz_subscribed = False, s_net_registered = False, s_trusted = None, s_cmds = [],
     s_wall_sets = [], s_rtc_sets = [], s_fds = [], s_reports = []\<rparr>"

lemma sample_env_sel [simp]:
  "e_world sample_env = sample_world" "e_err_offset sample_env = 1" "e_long_max sample_env = 2 ^ 63 - 1"
  "e_caller sample_env t = sample_caller" "e_iface_cast sample_env obj" "e_clock sample_env c t = Some (1600000005, 1999999)"
  "e_thread_clock sample_env t" "e_steady sample_env t = 100000000000" "e_settimeofday sample_env t tv = 0"
  "e_zone sample_env t = sample_zone_os" "e_exchange sample_env t srv = sample_exchange"
  "e_new_client sample_env t = sample_client" "\<not> e_char_signed sample_env" "e_overflow sample_env = 0"
  "e_auto_parse sample_env txt = (if txt = [] then None else Some (sample_info txt))"
  "e_auto_render sample_env = auto_status" "e_auto_writable sample_env t"
  by (simp_all add: sample_env_def)

lemma sample_service_sel [simp]:
  "s_now sample_service = 0" "s_manager sample_service = None" "s_rtc_id sample_service = 0"
  "s_zone sample_service = TimeZoneInfo None None" "s_wall_sets sample_service = []"
  "nitzUpdateTimeMili (s_ntp sample_service) = 0" "autoTimeInfo (s_ntp sample_service) = sample_info ''ON''"
  by (simp_all add: sample_service_def)

text \<open>The sample process gets a timer manager when it asks for one.\<close>

lemma sample_gets_manager: "s_manager s = None \<Longrightarrow> snd (get_manager sample_env s) = Some TimerManager"
proof -
  assume none: "s_manager s = None"
  have "create_fds (e_handler sample_env 0) 3 N_TIMER_FDS 0 [] =
      (Some [10, 11, 12, 13, 14, 15], map Opened [10, 11, 12, 13, 14, 15])"
    by (simp add: sample_env_def N_TIMER_FDS_def ALARM_TYPE_COUNT_def eval_nat_numeral)
  then have "fst (Create_handler (e_handler sample_env 0)) \<noteq> None"
    by (simp add: Create_handler_def sample_env_def)
  then show ?thesis
    by (cases "Create_handler (e_handler sample_env 0)")
      (auto simp: get_manager_def TimerManager_Create_def sample_env_def none)
qed

lemma sample_get_manager: "snd (get_manager sample_env sample_service) = Some TimerManager"
  by (simp add: sample_gets_manager)

end
