(* ===== verification/Service_Clock.thy ===== *)
theory Service_Clock
  imports Service_Samples
begin

text \<open>
  The clock operations of \<open>TimeService\<close> (\<open>time_service.cpp\<close>): setting the time of day and the
  hardware clock, finding the hardware clock, reading the clocks, and the time zone. An
  operation with an output parameter gives \<open>Inl\<close> the error or \<open>Inr\<close> the value.
\<close>

definition MILLI_TO_BASE :: int where "MILLI_TO_BASE = 1000"
definition MICR_TO_BASE :: int where "MICR_TO_BASE = 1000000"
definition NANO_TO_BASE :: int where "NANO_TO_BASE = 1000000000"
definition MILLI_TO_MICR :: int where "MILLI_TO_MICR = MICR_TO_BASE sdiv MILLI_TO_BASE"
definition NANO_TO_MILLI :: int where "NANO_TO_MILLI = NANO_TO_BASE sdiv MILLI_TO_BASE"

definition setTimePermName :: string where "setTimePermName = ''ohos.permission.SET_TIME''"
definition setTimezonePermName :: string where "setTimezonePermName = ''ohos.permission.SET_TIME_ZONE''"

section \<open>The hardware clock\<close>

definition rtc_of_tm :: "tm \<Rightarrow> rtc_time" where
  "rtc_of_tm t = \<lparr>rtc_sec = tm_sec t, rtc_min = tm_min t, rtc_hour = tm_hour t, rtc_mday = tm_mday t,
     rtc_mon = tm_mon t, rtc_year = tm_year t, rtc_wday = tm_wday t, rtc_yday = tm_yday t,
     rtc_isdst = tm_isdst t\<rparr>"

definition set_rtc_time :: "service_env \<Rightarrow> int \<Rightarrow> time_service \<Rightarrow> time_service \<times> int" where
  "set_rtc_time e sec s =
     (if s_rtc_id s < 0 then (s, -1)
      else let fd = e_rtc_open e (s_now s) (''/dev/rtc'' @ show_int (s_rtc_id s)); s1 = after 1 s in
        if fd < 0 then (s1, -1)
        else let (s2, res) =
               (case e_gmtime e sec of
                  None \<Rightarrow> (s1, -1)
                | Some tm \<Rightarrow>
                    let rtc = rtc_of_tm tm; res = e_rtc_set e (s_now s1) rtc; s2 = after 1 s1 in
                    (if res < 0 then s2 else s2\<lparr>s_rtc_sets := s_rtc_sets s2 @ [rtc]\<rparr>, res))
             in (s2\<lparr>s_fds := s_fds s2 @ [Opened fd, Closed fd]\<rparr>, res))"

definition check_rtc :: "service_env \<Rightarrow> string \<Rightarrow> u64 \<Rightarrow> bool" where
  "check_rtc e rtc_path rtc_id_t = e_readable e (rtc_path @ ''/rtc'' @ show_nat (unat rtc_id_t) @ ''/hctosys'')"

text \<open>
  The entries of the directory in order; \<open>None\<close> is the exception of \<open>std::stoul\<close> on a name with
  no number after \<open>rtc\<close>, which nothing catches. The number is returned as an \<open>int\<close>.
\<close>

fun find_rtc :: "service_env \<Rightarrow> string \<Rightarrow> string list \<Rightarrow> int option" where
  "find_rtc e rtc_path [] = Some (-1)"
| "find_rtc e rtc_path (name # names) =
     (case find_string ''rtc'' name of
        None \<Rightarrow> find_rtc e rtc_path names
      | Some index \<Rightarrow>
          (case stoul (drop (index + 3) name) of
             None \<Rightarrow> None
           | Some rtc_id_t \<Rightarrow>
               if check_rtc e rtc_path rtc_id_t then Some (sint (ucast rtc_id_t :: i32))
               else find_rtc e rtc_path names))"

definition get_wall_clock_rtc_id :: "service_env \<Rightarrow> int option" where
  "get_wall_clock_rtc_id e =
     (let rtc_path = ''/sys/class/rtc'' in
      case e_rtc_dir e rtc_path of
        None \<Rightarrow> Some (-1)
      | Some names \<Rightarrow> find_rtc e rtc_path names)"

section \<open>Setting the time\<close>

definition SetTime_service :: "service_env \<Rightarrow> int \<Rightarrow> time_service \<Rightarrow> time_service \<times> time_error" where
  "SetTime_service e time s =
     (let hasPerm = CheckCallingPermission setTimePermName (e_caller e (s_now s)); s0 = after 1 s in
      if \<not> hasPerm then (s0, E_TIME_NO_PERMISSION)
      else if time < 0 \<or> time sdiv 1000 \<ge> e_long_max e then (s0, E_TIME_PARAMETERS_INVALID)
      else let tv = (time sdiv MILLI_TO_BASE, (time smod MILLI_TO_BASE) * MILLI_TO_MICR);
               result = e_settimeofday e (s_now s0) tv; s1 = after 1 s0 in
        if result < 0 then (s1, E_TIME_DEAL_FAILED)
        else let (s3, ret) = set_rtc_time e (fst tv) (s1\<lparr>s_wall_sets := s_wall_sets s1 @ [tv]\<rparr>) in
          if ret < 0 then (s3, E_TIME_SET_RTC_FAILED)
          else (s3\<lparr>s_notify := PublishTimeChanageEvents (s_notify s3)\<rparr>, ERR_OK))"

section \<open>The time zone\<close>

definition SetTimeZone_service :: "service_env \<Rightarrow> string \<Rightarrow> time_service \<Rightarrow> time_service \<times> time_error" where
  "SetTimeZone_service e timeZoneId s =
     (let hasPerm = CheckCallingPermission setTimezonePermName (e_caller e (s_now s)); s0 = after 1 s in
      if \<not> hasPerm then (s0, E_TIME_NO_PERMISSION)
      else let (z, ok) = SetTimezone (e_zone e (s_now s0)) timeZoneId (s_zone s0);
               s1 = (after 1 s0)\<lparr>s_zone := z\<rparr> in
        if \<not> ok then (s1, E_TIME_DEAL_FAILED)
        else (s1\<lparr>s_notify := PublishTimeZoneChangeEvents (s_notify s1)\<rparr>, ERR_OK))"

definition GetTimeZone_service :: "time_service \<Rightarrow> time_error + string" where
  "GetTimeZone_service s =
     (let (timeZoneId, ok) = GetTimezone (s_zone s) in if \<not> ok then Inl E_TIME_DEAL_FAILED else Inr timeZoneId)"

section \<open>Reading the clocks\<close>

definition GetTimeByClockid :: "service_env \<Rightarrow> clock_id \<Rightarrow> time_service \<Rightarrow> (int \<times> int) option" where
  "GetTimeByClockid e clk_id s = e_clock e clk_id (s_now s)"

definition in_milliseconds :: "int \<times> int \<Rightarrow> int" where
  "in_milliseconds tv = fst tv * MILLI_TO_BASE + snd tv sdiv NANO_TO_MILLI"

definition in_nanoseconds :: "int \<times> int \<Rightarrow> int" where
  "in_nanoseconds tv = fst tv * NANO_TO_BASE + snd tv"

definition GetWallTimeMs_service :: "service_env \<Rightarrow> time_service \<Rightarrow> time_service \<times> (time_error + int)" where
  "GetWallTimeMs_service e s =
     (after 1 s, case GetTimeByClockid e CLOCK_REALTIME s of
        Some tv \<Rightarrow> Inr (in_milliseconds tv) | None \<Rightarrow> Inl E_TIME_DEAL_FAILED)"

definition GetWallTimeNs_service :: "service_env \<Rightarrow> time_service \<Rightarrow> time_service \<times> (time_error + int)" where
  "GetWallTimeNs_service e s =
     (after 1 s, case GetTimeByClockid e CLOCK_REALTIME s of
        Some tv \<Rightarrow> Inr (in_nanoseconds tv) | None \<Rightarrow> Inl E_TIME_DEAL_FAILED)"

definition GetBootTimeMs_service :: "service_env \<Rightarrow> time_service \<Rightarrow> time_service \<times> (time_error + int)" where
  "GetBootTimeMs_service e s =
     (after 1 s, case GetTimeByClockid e CLOCK_BOOTTIME s of
        Some tv \<Rightarrow> Inr (in_milliseconds tv) | None \<Rightarrow> Inl E_TIME_DEAL_FAILED)"

definition GetBootTimeNs_service :: "service_env \<Rightarrow> time_service \<Rightarrow> time_service \<times> (time_error + int)" where
  "GetBootTimeNs_service e s =
     (after 1 s, case GetTimeByClockid e CLOCK_BOOTTIME s of
        Some tv \<Rightarrow> Inr (in_nanoseconds tv) | None \<Rightarrow> Inl E_TIME_DEAL_FAILED)"

definition GetMonotonicTimeMs_service :: "service_env \<Rightarrow> time_service \<Rightarrow> time_service \<times> (time_error + int)" where
  "GetMonotonicTimeMs_service e s =
     (after 1 s, case GetTimeByClockid e CLOCK_MONOTONIC s of
        Some tv \<Rightarrow> Inr (in_milliseconds tv) | None \<Rightarrow> Inl E_TIME_DEAL_FAILED)"

definition GetMonotonicTimeNs_service :: "service_env \<Rightarrow> time_service \<Rightarrow> time_service \<times> (time_error + int)" where
  "GetMonotonicTimeNs_service e s =
     (after 1 s, case GetTimeByClockid e CLOCK_MONOTONIC s of
        Some tv \<Rightarrow> Inr (in_nanoseconds tv) | None \<Rightarrow> Inl E_TIME_DEAL_FAILED)"

definition GetThreadTimeMs_service :: "service_env \<Rightarrow> time_service \<Rightarrow> time_service \<times> (time_error + int)" where
  "GetThreadTimeMs_service e s =
     (after 1 s, if \<not> e_thread_clock e (s_now s) then Inl E_TIME_PARAMETERS_INVALID
      else case GetTimeByClockid e Thread_clock s of
        Some tv \<Rightarrow> Inr (in_milliseconds tv) | None \<Rightarrow> Inl E_TIME_DEAL_FAILED)"

definition GetThreadTimeNs_service :: "service_env \<Rightarrow> time_service \<Rightarrow> time_service \<times> (time_error + int)" where
  "GetThreadTimeNs_service e s =
     (after 1 s, if \<not> e_thread_clock e (s_now s) then Inl E_TIME_PARAMETERS_INVALID
      else case GetTimeByClockid e Thread_clock s of
        Some tv \<Rightarrow> Inr (in_nanoseconds tv) | None \<Rightarrow> Inl E_TIME_DEAL_FAILED)"

lemmas clock_ops =
  GetWallTimeMs_service_def GetWallTimeNs_service_def GetBootTimeMs_service_def GetBootTimeNs_service_def
  GetMonotonicTimeMs_service_def GetMonotonicTimeNs_service_def GetThreadTimeMs_service_def
  GetThreadTimeNs_service_def GetTimeByClockid_def

section \<open>Laws\<close>

lemma unit_simps [chrono_simps]: "MILLI_TO_BASE = 1000" "MILLI_TO_MICR = 1000" "NANO_TO_MILLI = 1000000"
  "NANO_TO_BASE = 1000000000"
  by (simp_all add: MILLI_TO_BASE_def MILLI_TO_MICR_def MICR_TO_BASE_def NANO_TO_MILLI_def NANO_TO_BASE_def
      signed_divide_int_def)

text \<open>The milliseconds of a reading are its nanoseconds, rounded down.\<close>

lemma ms_of_ns: "0 \<le> snd tv \<Longrightarrow> in_milliseconds tv = in_nanoseconds tv div 1000000"
proof -
  assume "0 \<le> snd tv"
  then have "snd tv sdiv 1000000 = snd tv div 1000000" by (simp add: sdiv_nonneg)
  moreover have "(fst tv * 1000 * 1000000 + snd tv) div 1000000 = fst tv * 1000 + snd tv div 1000000" by simp
  ultimately show ?thesis by (simp add: in_milliseconds_def in_nanoseconds_def chrono_simps)
qed

text \<open>Setting the hardware clock closes what it opens, and only touches the counter and two logs.\<close>

lemma set_rtc_time_simps:
  fixes e s defines "fd \<equiv> e_rtc_open e (s_now s) (''/dev/rtc'' @ show_int (s_rtc_id s))"
  shows "s_rtc_id s < 0 \<Longrightarrow> set_rtc_time e sec s = (s, -1)"
    and "0 \<le> s_rtc_id s \<Longrightarrow> fd < 0 \<Longrightarrow> set_rtc_time e sec s = (after 1 s, -1)"
    and "0 \<le> s_rtc_id s \<Longrightarrow> 0 \<le> fd \<Longrightarrow> e_gmtime e sec = None \<Longrightarrow>
      set_rtc_time e sec s = ((after 1 s)\<lparr>s_fds := s_fds s @ [Opened fd, Closed fd]\<rparr>, -1)"
    and "0 \<le> s_rtc_id s \<Longrightarrow> 0 \<le> fd \<Longrightarrow> e_gmtime e sec = Some t \<Longrightarrow>
      set_rtc_time e sec s =
        (let res = e_rtc_set e (Suc (s_now s)) (rtc_of_tm t)
         in ((after 2 s)\<lparr>s_fds := s_fds s @ [Opened fd, Closed fd],
               s_rtc_sets := s_rtc_sets s @ (if res < 0 then [] else [rtc_of_tm t])\<rparr>, res))"
  unfolding fd_def by (simp_all add: set_rtc_time_def after_def Let_def)

lemma set_rtc_time_frame:
  "\<exists>k fds. fst (set_rtc_time e sec s) =
      s\<lparr>s_now := k, s_fds := s_fds s @ fds,
        s_rtc_sets := s_rtc_sets s @ (if snd (set_rtc_time e sec s) < 0 then [] else [rtc_of_tm (the (e_gmtime e sec))])\<rparr> \<and>
    opened fds = closed fds"
proof -
  define fd where "fd = e_rtc_open e (s_now s) (''/dev/rtc'' @ show_int (s_rtc_id s))"
  note f = set_rtc_time_simps [of s e, folded fd_def]
  consider "s_rtc_id s < 0" | "0 \<le> s_rtc_id s" "fd < 0" | "0 \<le> s_rtc_id s" "0 \<le> fd" by linarith
  then show ?thesis
  proof cases
    case 1
    show ?thesis by (rule exI [of _ "s_now s"], rule exI [of _ "[]"]) (simp add: f(1) [OF 1])
  next
    case 2
    show ?thesis
      by (rule exI [of _ "s_now s + 1"], rule exI [of _ "[]"]) (simp add: f(2) [OF 2] after_def)
  next
    case 3
    note g = f(3,4) [OF 3]
    show ?thesis
    proof (cases "e_gmtime e sec")
      case None
      show ?thesis
        by (rule exI [of _ "s_now s + 1"], rule exI [of _ "[Opened fd, Closed fd]"])
          (simp add: g(1) [OF None] after_def)
    next
      case (Some t)
      show ?thesis
        by (rule exI [of _ "s_now s + 2"], rule exI [of _ "[Opened fd, Closed fd]"])
          (simp add: g(2) [OF Some] after_def Let_def Some)
    qed
  qed
qed

text \<open>The hardware clock that is chosen is one of the directory, with a readable \<open>hctosys\<close>.\<close>

lemma find_rtc_checked:
  "find_rtc e path names = Some i \<Longrightarrow> i \<noteq> -1 \<Longrightarrow>
    \<exists>name \<in> set names. \<exists>index n. find_string ''rtc'' name = Some index \<and> stoul (drop (index + 3) name) = Some n \<and>
      check_rtc e path n \<and> i = sint (ucast n :: i32)"
  by (induction e path names rule: find_rtc.induct) (auto split: option.splits if_splits)

section \<open>Guarantees\<close>

text \<open>The time of day that is set for a number of milliseconds.\<close>

definition timeval_of_ms :: "int \<Rightarrow> int \<times> int" where
  "timeval_of_ms time = (time div 1000, time mod 1000 * 1000)"

lemma timeval_of_ms_exact:
  "fst (timeval_of_ms time) * 1000 + snd (timeval_of_ms time) div 1000 = time"
  "0 \<le> snd (timeval_of_ms time) \<and> snd (timeval_of_ms time) < 1000000"
  by (simp_all add: timeval_of_ms_def)

lemma SetTime_accepted:
  assumes "CheckCallingPermission setTimePermName (e_caller e (s_now s))"
    and "0 \<le> time" "time sdiv 1000 < e_long_max e"
  shows "SetTime_service e time s =
    (if e_settimeofday e (Suc (s_now s)) (timeval_of_ms time) < 0 then (after 2 s, E_TIME_DEAL_FAILED)
     else let (s3, ret) = set_rtc_time e (fst (timeval_of_ms time))
                ((after 2 s)\<lparr>s_wall_sets := s_wall_sets s @ [timeval_of_ms time]\<rparr>)
       in if ret < 0 then (s3, E_TIME_SET_RTC_FAILED)
          else (s3\<lparr>s_notify := PublishTimeChanageEvents (s_notify s3)\<rparr>, ERR_OK))"
proof -
  have "(time sdiv 1000, (time smod 1000) * 1000) = timeval_of_ms time"
    using assms(2) by (simp add: timeval_of_ms_def sdiv_nonneg smod_nonneg)
  then show ?thesis
    using assms by (simp add: SetTime_service_def chrono_simps after_def Let_def timeval_of_ms_def)
qed

lemma SetTime_refused:
  "\<not> CheckCallingPermission setTimePermName (e_caller e (s_now s)) \<Longrightarrow>
    SetTime_service e time s = (after 1 s, E_TIME_NO_PERMISSION)"
  "CheckCallingPermission setTimePermName (e_caller e (s_now s)) \<Longrightarrow> time < 0 \<or> e_long_max e \<le> time sdiv 1000 \<Longrightarrow>
    SetTime_service e time s = (after 1 s, E_TIME_PARAMETERS_INVALID)"
  by (auto simp: SetTime_service_def Let_def)

text \<open>C16. \<open>SetTime\<close> does what its result says. On success the caller had the permission, the time of
  day and the hardware clock were set to the same second of a time that was not negative, and the
  change was published; \<open>E_TIME_SET_RTC_FAILED\<close> means that the time of day was set, but neither the
  hardware clock nor, though the time did change, the subscribers were told; every other error leaves
  the clocks and the events alone. The missing permission is reported before anything else, and the
  device of the hardware clock is closed again.\<close>

theorem SetTime_outcome:
  "let (s', r) = SetTime_service e time s; tv = timeval_of_ms time;
       permitted = CheckCallingPermission setTimePermName (e_caller e (s_now s));
       silent = (s_notify s' = s_notify s \<and> s_rtc_sets s' = s_rtc_sets s)
   in (r = E_TIME_NO_PERMISSION \<longleftrightarrow> \<not> permitted) \<and>
      (\<exists>fds. s_fds s' = s_fds s @ fds \<and> opened fds = closed fds) \<and>
      (case r of
         ERR_OK \<Rightarrow> permitted \<and> 0 \<le> time \<and> s_wall_sets s' = s_wall_sets s @ [tv] \<and>
           s_rtc_sets s' = s_rtc_sets s @ [rtc_of_tm (the (e_gmtime e (time div 1000)))] \<and>
           s_notify s' = PublishTimeChanageEvents (s_notify s)
       | E_TIME_SET_RTC_FAILED \<Rightarrow> silent \<and> s_wall_sets s' = s_wall_sets s @ [tv]
       | _ \<Rightarrow> silent \<and> s_wall_sets s' = s_wall_sets s)"
proof -
  let ?p = "CheckCallingPermission setTimePermName (e_caller e (s_now s))"
  have none: "\<exists>fds. s_fds s = s_fds s @ fds \<and> opened fds = closed fds"
    by (rule exI [of _ "[]"]) simp
  show ?thesis
  proof (cases "?p \<and> 0 \<le> time \<and> time sdiv 1000 < e_long_max e")
    case False
    then consider "\<not> ?p" | "?p" "time < 0 \<or> e_long_max e \<le> time sdiv 1000" by linarith
    then show ?thesis
      using none by cases (simp_all add: SetTime_refused Let_def after_def)
  next
    case True
    define s2 where "s2 = (after 2 s)\<lparr>s_wall_sets := s_wall_sets s @ [timeval_of_ms time]\<rparr>"
    define res where "res = set_rtc_time e (fst (timeval_of_ms time)) s2"
    obtain k fds where fr: "fst res =
        s2\<lparr>s_now := k, s_fds := s_fds s2 @ fds,
          s_rtc_sets := s_rtc_sets s2 @ (if snd res < 0 then [] else [rtc_of_tm (the (e_gmtime e (time div 1000)))])\<rparr>"
      and bal: "opened fds = closed fds"
      using set_rtc_time_frame [of e "fst (timeval_of_ms time)" s2] unfolding res_def timeval_of_ms_def fst_conv by blast
    have eq: "SetTime_service e time s =
      (if e_settimeofday e (Suc (s_now s)) (timeval_of_ms time) < 0 then (after 2 s, E_TIME_DEAL_FAILED)
       else if snd res < 0 then (fst res, E_TIME_SET_RTC_FAILED)
       else ((fst res)\<lparr>s_notify := PublishTimeChanageEvents (s_notify (fst res))\<rparr>, ERR_OK))"
      using SetTime_accepted [of e s time] True by (simp add: res_def s2_def split_def Let_def)
    show ?thesis
      using none bal True unfolding eq fr by (auto simp: after_def s2_def Let_def)
  qed
qed

text \<open>The two readings of a clock agree: taken at the same instant, the milliseconds are the
  nanoseconds divided by a million and rounded down, for the wall clock, the boot clock, the
  monotonic clock and the clock of the calling thread, and one of the two fails exactly when the other
  does, with the same error.\<close>

theorem clocks_agree:
  assumes "\<And>c tv. e_clock e c (s_now s) = Some tv \<Longrightarrow> 0 \<le> snd tv"
  shows "list_all (\<lambda>(ms, ns). snd (ms e s) = map_sum (\<lambda>x. x) (\<lambda>n. n div 1000000) (snd (ns e s)))
    [(GetWallTimeMs_service, GetWallTimeNs_service), (GetBootTimeMs_service, GetBootTimeNs_service),
     (GetMonotonicTimeMs_service, GetMonotonicTimeNs_service), (GetThreadTimeMs_service, GetThreadTimeNs_service)]"
  using assms by (auto simp: clock_ops ms_of_ns split: option.splits)

theorem clocks_agree_witness:
  "snd (GetWallTimeMs_service sample_env sample_service) = Inr 1600000005001"
proof -
  have "in_nanoseconds (1600000005, 1999999) = 1600000005001999999" by (simp add: in_nanoseconds_def chrono_simps)
  then show ?thesis
    using clocks_agree [of sample_env sample_service]
    by (simp add: GetWallTimeNs_service_def GetTimeByClockid_def)
qed

end
