(* ===== verification/Service_Timers.thy ===== *)
theory Service_Timers
  imports Service_Clock
begin

text \<open>
  The timer operations of \<open>TimeService\<close> (\<open>time_service.cpp\<close>): the decoding of a client's timer
  type, and the operations that are passed on to the timer manager.
\<close>

section \<open>The parameters of a timer\<close>

definition TIMER_TYPE_REALTIME_MASK :: u32 where "TIMER_TYPE_REALTIME_MASK = push_bit 0 1"
definition TIMER_TYPE_REALTIME_WAKEUP_MASK :: u32 where "TIMER_TYPE_REALTIME_WAKEUP_MASK = push_bit 1 1"
definition TIMER_TYPE_EXACT_MASK :: u32 where "TIMER_TYPE_EXACT_MASK = push_bit 2 1"
definition INVALID_TIMER_ID :: u64 where "INVALID_TIMER_ID = 0"

record timer_para =
  tp_timerType :: i32
  tp_windowLength :: int
  tp_interval :: u64
  tp_flag :: i32

definition PaserTimerPara :: "i32 \<Rightarrow> bool \<Rightarrow> u64 \<Rightarrow> timer_para" where
  "PaserTimerPara type repeat interval =
     (let uIntType = (type :: u32);
          isRealtime = (uIntType AND TIMER_TYPE_REALTIME_MASK > 0);
          isWakeup = (uIntType AND TIMER_TYPE_REALTIME_WAKEUP_MASK > 0);
          windowLength = (if uIntType AND TIMER_TYPE_EXACT_MASK > 0 then 0 else -1)
      in \<lparr>tp_timerType =
            (if isRealtime \<and> isWakeup then ELAPSED_REALTIME_WAKEUP
             else if isRealtime then ELAPSED_REALTIME
             else if isWakeup then RTC_WAKEUP
             else RTC),
          tp_windowLength = windowLength,
          tp_interval = (if repeat then interval else 0),
          tp_flag = 0\<rparr>)"

section \<open>Operations\<close>

text \<open>The report of a new timer to the statistics: the time is 0 when the clock cannot be read.\<close>

definition report_creation :: "service_env \<Rightarrow> int \<Rightarrow> i32 \<Rightarrow> u64 \<Rightarrow> time_service \<Rightarrow> time_service" where
  "report_creation e uid type interval s =
     (let (s1, ret) = GetWallTimeMs_service e s;
          triggerTime = (case ret of Inl _ \<Rightarrow> 0 | Inr ms \<Rightarrow> ms);
          pid = e_pid e (s_now s1)
      in (after 1 s1)\<lparr>s_reports := StatisticReporter pid uid type triggerTime interval (s_reports s1)\<rparr>)"

lemma report_creation_manager [simp]: "s_manager (report_creation e uid type interval s) = s_manager s"
  by (simp add: report_creation_def GetWallTimeMs_service_def after_def Let_def)

text \<open>
  \<open>obj\<close> is the client's callback object. The window of the parameters is signed and becomes an
  unsigned argument. \<open>None\<close>: the engine that numbers the timers yields only zeros.
\<close>

definition CreateTimer_service ::
  "service_env \<Rightarrow> i32 \<Rightarrow> bool \<Rightarrow> u64 \<Rightarrow> nat option \<Rightarrow> time_service \<Rightarrow> (time_service \<times> u64) option" where
  "CreateTimer_service e type repeat interval obj s =
     (let uid = e_uid e (s_now s); s0 = after 1 s in
      case obj of
        None \<Rightarrow> Some (s0, INVALID_TIMER_ID)
      | Some object \<Rightarrow>
          let paras = PaserTimerPara type repeat interval in
          if \<not> e_iface_cast e object then Some (s0, INVALID_TIMER_ID)
          else case get_manager e (report_creation e uid type interval s0) of
            (s1, None) \<Rightarrow> Some (s1, INVALID_TIMER_ID)
          | (s1, Some m) \<Rightarrow>
              (case CreateTimer (e_world e) (tp_timerType paras) (word_of_int (tp_windowLength paras))
                      (tp_interval paras) (tp_flag paras) (Some (Notify_Remote object)) uid m of
                 None \<Rightarrow> None
               | Some (m', n) \<Rightarrow> Some (s1\<lparr>s_manager := Some m'\<rparr>, n)))"

text \<open>The overload for timers of the service itself.\<close>

definition CreateTimer_internal ::
  "service_env \<Rightarrow> i32 \<Rightarrow> u64 \<Rightarrow> u64 \<Rightarrow> i32 \<Rightarrow> timer_callback option \<Rightarrow> time_service
   \<Rightarrow> (time_service \<times> u64) option" where
  "CreateTimer_internal e type windowLength interval flag Callback s =
     (case get_manager e s of
        (s1, None) \<Rightarrow> Some (s1, INVALID_TIMER_ID)
      | (s1, Some m) \<Rightarrow>
          (case CreateTimer (e_world e) type windowLength interval flag Callback 0 m of
             None \<Rightarrow> None
           | Some (m', n) \<Rightarrow> Some (s1\<lparr>s_manager := Some m'\<rparr>, n)))"

definition StartTimer_service :: "service_env \<Rightarrow> u64 \<Rightarrow> u64 \<Rightarrow> time_service \<Rightarrow> time_service \<times> bool" where
  "StartTimer_service e timerId triggerTimes s =
     (case get_manager e s of
        (s1, None) \<Rightarrow> (s1, False)
      | (s1, Some m) \<Rightarrow>
          let (m', ret) = StartTimer (e_world e) timerId triggerTimes m in (s1\<lparr>s_manager := Some m'\<rparr>, ret))"

definition StopTimer_service :: "service_env \<Rightarrow> u64 \<Rightarrow> time_service \<Rightarrow> time_service \<times> bool" where
  "StopTimer_service e timerId s =
     (case get_manager e s of
        (s1, None) \<Rightarrow> (s1, False)
      | (s1, Some m) \<Rightarrow>
          let (m', ret) = StopTimer (e_world e) timerId m in (s1\<lparr>s_manager := Some m'\<rparr>, ret))"

definition DestroyTimer_service :: "service_env \<Rightarrow> u64 \<Rightarrow> time_service \<Rightarrow> time_service \<times> bool" where
  "DestroyTimer_service e timerId s =
     (case get_manager e s of
        (s1, None) \<Rightarrow> (s1, False)
      | (s1, Some m) \<Rightarrow>
          let (m', ret) = DestroyTimer (e_world e) timerId m in (s1\<lparr>s_manager := Some m'\<rparr>, ret))"

text \<open>A refused caller gets the error code, which the result type turns into a \<open>bool\<close>.\<close>

definition ProxyTimer_service :: "service_env \<Rightarrow> int \<Rightarrow> bool \<Rightarrow> bool \<Rightarrow> time_service \<Rightarrow> time_service \<times> bool" where
  "ProxyTimer_service e uid isProxy needRetrigger s =
     (let hasPerm = CheckProxyCallingPermission (e_caller e (s_now s)); s0 = after 1 s in
      if \<not> hasPerm then (s0, as_bool (e_err_offset e) E_TIME_NO_PERMISSION)
      else case get_manager e s0 of
        (s1, None) \<Rightarrow> (s1, False)
      | (s1, Some m) \<Rightarrow>
          let (m', ret) = ProxyTimer uid isProxy needRetrigger m in (s1\<lparr>s_manager := Some m'\<rparr>, ret))"

definition ResetAllProxy_service :: "service_env \<Rightarrow> time_service \<Rightarrow> time_service \<times> bool" where
  "ResetAllProxy_service e s =
     (let hasPerm = CheckProxyCallingPermission (e_caller e (s_now s)); s0 = after 1 s in
      if \<not> hasPerm then (s0, as_bool (e_err_offset e) E_TIME_NO_PERMISSION)
      else case get_manager e s0 of
        (s1, None) \<Rightarrow> (s1, False)
      | (s1, Some m) \<Rightarrow> let (m', ret) = ResetAllProxy m in (s1\<lparr>s_manager := Some m'\<rparr>, ret))"

lemmas service_ops = StartTimer_service_def StopTimer_service_def DestroyTimer_service_def

section \<open>The service provides the interface of the manager\<close>

definition service_timer :: "time_service \<Rightarrow> u64 \<Rightarrow> timer_entry option" where
  "service_timer s = (case s_manager s of None \<Rightarrow> (\<lambda>_. None) | Some m \<Rightarrow> registered_timer m)"

text \<open>A call of the first \<open>CreateTimer\<close>.\<close>

record client_request =
  cr_type :: i32
  cr_repeat :: bool
  cr_interval :: u64
  cr_object :: "nat option"

definition create_for_client :: "service_env \<Rightarrow> client_request \<Rightarrow> time_service \<Rightarrow> (time_service \<times> u64) option" where
  "create_for_client e r s = CreateTimer_service e (cr_type r) (cr_repeat r) (cr_interval r) (cr_object r) s"

lemma registered_timer_new [simp]: "registered_timer TimerManager n = None"
  by (simp add: registered_timer_def TimerManager_def)

lemma get_manager_timer: "get_manager e s = (s1, r) \<Longrightarrow>
    service_timer s = (case r of None \<Rightarrow> (\<lambda>_. None) | Some m \<Rightarrow> registered_timer m)"
  using get_manager_new [of s e] get_manager_state [of e s]
  by (cases "s_manager s") (auto simp: service_timer_def fun_eq_iff split: option.splits)

lemma service_timer_Some [simp]: "service_timer (s\<lparr>s_manager := Some m\<rparr>) = registered_timer m"
  by (simp add: service_timer_def)

text \<open>An operation that is passed on answers and changes the table as the manager does.\<close>

lemma passed_on:
  assumes "\<And>m. registered_timer (fst (f m)) = upd (registered_timer m)"
    and "\<And>m. snd (f m) \<longleftrightarrow> registered_timer m n \<noteq> None" and "upd (\<lambda>_. None) = (\<lambda>_. None)"
    and r: "r = (case get_manager e s of (s1, None) \<Rightarrow> (s1, False)
        | (s1, Some m) \<Rightarrow> let (m', ret) = f m in (s1\<lparr>s_manager := Some m'\<rparr>, ret))"
  shows "service_timer (fst r) = upd (service_timer s) \<and> (snd r \<longleftrightarrow> service_timer s n \<noteq> None)"
proof -
  obtain s1 mo where g: "get_manager e s = (s1, mo)" by (cases "get_manager e s")
  note t = get_manager_timer [OF g]
  show ?thesis
  proof (cases mo)
    case None
    have "s_manager s1 = None" using get_manager_state [of e s] g None by simp
    then show ?thesis using assms(3) t by (simp add: r g None service_timer_def)
  next
    case (Some m)
    show ?thesis using assms(1,2) [of m] t by (cases "f m") (simp add: r g Some)
  qed
qed

lemma service_start:
  "service_timer (fst (StartTimer_service e n t s)) = service_timer s \<and>
    (snd (StartTimer_service e n t s) \<longleftrightarrow> service_timer s n \<noteq> None)"
  by (rule passed_on [where upd = "\<lambda>x. x" and f = "StartTimer (e_world e) n t", OF _ _ _ StartTimer_service_def])
    (auto simp: manager.start_answer manager.start_keeps)

lemma service_stop:
  "service_timer (fst (StopTimer_service e n s)) = service_timer s \<and>
    (snd (StopTimer_service e n s) \<longleftrightarrow> service_timer s n \<noteq> None)"
  by (rule passed_on [where upd = "\<lambda>x. x" and f = "StopTimer (e_world e) n", OF _ _ _ StopTimer_service_def])
    (auto simp: manager.stop_answer manager.stop_keeps)

lemma service_destroy:
  "service_timer (fst (DestroyTimer_service e n s)) = (service_timer s)(n := None) \<and>
    (snd (DestroyTimer_service e n s) \<longleftrightarrow> service_timer s n \<noteq> None)"
  by (rule passed_on [where upd = "\<lambda>x. x(n := None)" and f = "DestroyTimer (e_world e) n", OF _ _ _ DestroyTimer_service_def])
    (auto simp: manager.destroy_answer manager.destroy_erases)

lemma report_creation_timer [simp]: "service_timer (report_creation e uid type interval s) = service_timer s"
  by (simp add: service_timer_def)

lemma after_timer [simp]: "service_timer (after k s) = service_timer s"
  by (simp add: service_timer_def after_def)

text \<open>A request either is refused with number 0 and no change of the table, or the manager creates it.\<close>

lemma service_create:
  assumes "create_for_client e r s = Some (s', n)"
  obtains "n = 0" "service_timer s' = service_timer s"
  | m q m' where "create_requested (e_world e) q m = Some (m', n)"
    "service_timer s = registered_timer m" "service_timer s' = registered_timer m'"
proof (cases "\<exists>ob. cr_object r = Some ob \<and> e_iface_cast e ob")
  case False
  then have "n = 0" "s' = after 1 s"
    using assms by (auto simp: create_for_client_def CreateTimer_service_def INVALID_TIMER_ID_def Let_def
        split: option.splits if_splits)
  then show thesis by (intro that(1)) simp_all
next
  case True
  then obtain ob where ob: "cr_object r = Some ob" "e_iface_cast e ob" by blast
  let ?p = "PaserTimerPara (cr_type r) (cr_repeat r) (cr_interval r)"
  define q where "q = \<lparr>rq_type = tp_timerType ?p, rq_windowLength = word_of_int (tp_windowLength ?p),
    rq_interval = tp_interval ?p, rq_flag = tp_flag ?p, rq_callback = Some (Notify_Remote ob),
    rq_uid = e_uid e (s_now s)\<rparr>"
  let ?s0 = "report_creation e (e_uid e (s_now s)) (cr_type r) (cr_interval r) (after 1 s)"
  obtain s1 mo where g: "get_manager e ?s0 = (s1, mo)" by (cases "get_manager e ?s0")
  have t: "service_timer s = (case mo of None \<Rightarrow> (\<lambda>_. None) | Some m \<Rightarrow> registered_timer m)"
    using get_manager_timer [OF g] by simp
  show thesis
  proof (cases mo)
    case None
    then have "s_manager s1 = None" using get_manager_state [of e ?s0] g by simp
    moreover have "n = 0" "s' = s1"
      using assms ob g None by (auto simp: create_for_client_def CreateTimer_service_def INVALID_TIMER_ID_def Let_def)
    ultimately show thesis using that(1) t None by (simp add: service_timer_def)
  next
    case (Some m)
    then obtain m' where "create_requested (e_world e) q m = Some (m', n)" "s' = s1\<lparr>s_manager := Some m'\<rparr>"
      using assms ob g by (auto simp: create_for_client_def CreateTimer_service_def create_requested_def q_def Let_def
          split: option.splits)
    then show thesis using that(2) t Some by simp
  qed
qed

lemma service_create_table:
  assumes "create_for_client e r s = Some (s', n)"
  shows "n \<noteq> 0 \<Longrightarrow> service_timer s' n \<noteq> None" and "service_timer s k = Some t \<Longrightarrow> service_timer s' k = Some t"
  using service_create [OF assms] by (metis manager.create_finds manager.create_keeps)+

interpretation service: timer_factory service_timer "StartTimer_service e" "StopTimer_service e" "DestroyTimer_service e"
    "create_for_client e" for e
  by unfold_locales
    (auto simp: service_start service_stop service_destroy dest: service_create_table)

end
