(* ===== verification/Ntp_Update.thy ===== *)
theory Ntp_Update
  imports Service_Timers Service_Clock
begin

text \<open>
  \<open>NtpUpdateTime\<close> (\<open>ntp_update_time.cpp\<close>): the automatic time of the network, with what calls
  it back: the timer of every day, the subscriber of the carrier's time
  (\<open>nitz_subscriber.cpp\<close>) and the observer of the network (\<open>net_conn_callback_observer.cpp\<close>).
  Milliseconds are unsigned here, so a difference wraps.
\<close>

definition NANO_TO_MILLISECOND :: u64 where "NANO_TO_MILLISECOND = 1000000"
definition DAY_TO_MILLISECOND :: u64 where "DAY_TO_MILLISECOND = 86400000"
definition EIGHTHOUR_TO_MILLISECONDS :: u64 where "EIGHTHOUR_TO_MILLISECONDS = 28800000"
definition NETWORK_TIME_STATUS_ON :: string where "NETWORK_TIME_STATUS_ON = ''ON''"
definition NETWORK_TIME_STATUS_OFF :: string where "NETWORK_TIME_STATUS_OFF = ''OFF''"
definition NTP_CN_SERVER :: string where "NTP_CN_SERVER = ''ntp.aliyun.com''"
definition INVALID_TIMES :: int where "INVALID_TIMES = -1"

lemmas ntp_constants = NANO_TO_MILLISECOND_def DAY_TO_MILLISECOND_def EIGHTHOUR_TO_MILLISECONDS_def
  NETWORK_TIME_STATUS_ON_def NETWORK_TIME_STATUS_OFF_def NTP_CN_SERVER_def INVALID_TIMES_def

text \<open>The steady clock in milliseconds, after the conversion to an unsigned number.\<close>

definition boot_ms :: "service_env \<Rightarrow> nat \<Rightarrow> u64" where
  "boot_ms e t = word_of_int (e_steady e t) div NANO_TO_MILLISECOND"

abbreviation update_ntp :: "(ntp_update \<Rightarrow> ntp_update) \<Rightarrow> time_service \<Rightarrow> time_service" where
  "update_ntp f s \<equiv> s\<lparr>s_ntp := f (s_ntp s)\<rparr>"

section \<open>The file\<close>

text \<open>\<open>None\<close>: the text of the file, empty when there is none, is not a document.\<close>

definition GetAutoTimeInfoFromFile :: "service_env \<Rightarrow> time_service \<Rightarrow> auto_time_info option" where
  "GetAutoTimeInfoFromFile e s = e_auto_parse e (case s_auto_file s of None \<Rightarrow> [] | Some content \<Rightarrow> content)"

text \<open>A file that cannot be opened for writing is not noticed.\<close>

definition SaveAutoTimeInfoToFile :: "service_env \<Rightarrow> auto_time_info \<Rightarrow> time_service \<Rightarrow> time_service \<times> bool" where
  "SaveAutoTimeInfoToFile e info s =
     (let s1 = after 1 s in
      (if e_auto_writable e (s_now s) then s1\<lparr>s_auto_file := Some (e_auto_render e info)\<rparr> else s1, True))"

section \<open>Setting the time\<close>

definition CheckStatus :: "time_service \<Rightarrow> bool" where
  "CheckStatus s \<longleftrightarrow> auto_status (autoTimeInfo (s_ntp s)) = NETWORK_TIME_STATUS_ON"

definition UpdateNITZSetTime :: "service_env \<Rightarrow> time_service \<Rightarrow> time_service" where
  "UpdateNITZSetTime e s =
     (let BootTimeMilli = boot_ms e (s_now s) + EIGHTHOUR_TO_MILLISECONDS
      in update_ntp (nitzUpdateTimeMili_update (\<lambda>_. BootTimeMilli)) (after 1 s))"

text \<open>True means that the carrier's time is fresh.\<close>

definition IsNITZTimeInvalid :: "service_env \<Rightarrow> time_service \<Rightarrow> bool" where
  "IsNITZTimeInvalid e s =
     (if nitzUpdateTimeMili (s_ntp s) = 0 then False
      else let BootTimeMilli = boot_ms e (s_now s)
           in BootTimeMilli - nitzUpdateTimeMili (s_ntp s) < DAY_TO_MILLISECOND)"

text \<open>\<open>ForceRefresh\<close> makes up to two exchanges, at the instants 1 and 2.\<close>

definition refresh :: "service_env \<Rightarrow> string \<Rightarrow> time_service \<Rightarrow> time_service \<times> bool" where
  "refresh e server s =
     (let t = s_now s;
          ((r, ok), ev) = ForceRefresh (e_char_signed e) (e_overflow e) (e_exchange e t) (e_exchange e (t + 1))
             (e_new_client e t) server (s_trusted s)
      in ((after 2 s)\<lparr>s_trusted := r, s_fds := s_fds s @ ev\<rparr>, ok))"

definition SetSystemTime :: "service_env \<Rightarrow> time_service \<Rightarrow> time_service" where
  "SetSystemTime e s =
     (let s0 = after 1 s in
      if IsNITZTimeInvalid e s then s0
      else let (s1, ok) = refresh e (NTP_SERVER (autoTimeInfo (s_ntp s0))) s0 in
        if \<not> ok then s1
        else let currentTime = CurrentTimeMillis (e_steady e (s_now s1) sdiv 1000000) (s_trusted s1);
                 s2 = after 1 s1 in
          if currentTime = INVALID_TIMES then s2
          else if currentTime \<le> 0 then s2
          else let timeOffsetMs = GetCurrentOffsetMs (s_zone s2); currentTime = currentTime + timeOffsetMs;
                   (s3, _) = SetTime_service e currentTime s2
               in update_ntp (autoTimeInfo_update (lastUpdateTime_update (\<lambda>_. currentTime))) s3)"

definition RefreshNetworkTimeByTimer :: "service_env \<Rightarrow> u64 \<Rightarrow> time_service \<Rightarrow> time_service" where
  "RefreshNetworkTimeByTimer e timerId s =
     (if \<not> CheckStatus s then s
      else let s1 = SetSystemTime e s; (s2, _) = SaveAutoTimeInfoToFile e (autoTimeInfo (s_ntp s1)) s1 in s2)"

definition RefreshNextTriggerTime :: "service_env \<Rightarrow> time_service \<Rightarrow> time_service" where
  "RefreshNextTriggerTime e s =
     update_ntp (ntp_nextTriggerTime_update (\<lambda>_. boot_ms e (s_now s) + DAY_TO_MILLISECOND)) (after 1 s)"

section \<open>Switching the network time on and off\<close>

definition UpdateStatusOff :: "service_env \<Rightarrow> time_service \<Rightarrow> time_service" where
  "UpdateStatusOff e s =
     (let info = \<lparr>NTP_SERVER = NTP_CN_SERVER, auto_status = NETWORK_TIME_STATUS_OFF, lastUpdateTime = INVALID_TIMES\<rparr>
      in fst (SaveAutoTimeInfoToFile e info (update_ntp (autoTimeInfo_update (\<lambda>_. info)) s)))"

definition UpdateStatusOn :: "service_env \<Rightarrow> time_service \<Rightarrow> time_service" where
  "UpdateStatusOn e s =
     (if CheckStatus s then s
      else let s1 = SetSystemTime e s;
               s2 = update_ntp (autoTimeInfo_update (auto_status_update (\<lambda>_. NETWORK_TIME_STATUS_ON))) s1
           in fst (SaveAutoTimeInfoToFile e (autoTimeInfo (s_ntp s2)) s2))"

section \<open>Starting\<close>

definition SubscriberNITZTimeChangeCommonEvent :: "service_env \<Rightarrow> time_service \<Rightarrow> time_service" where
  "SubscriberNITZTimeChangeCommonEvent e s =
     (after 1 s)\<lparr>s_nitz_subscribed := s_nitz_subscribed s \<or> e_subscribe e (s_now s)\<rparr>"

definition MonitorNetwork :: "service_env \<Rightarrow> time_service \<Rightarrow> time_service \<times> net_result" where
  "MonitorNetwork e s =
     (let t = s_now s; s1 = after 1 s in
      if \<not> e_new_specifier e t then (s1, NET_CONN_ERR_INPUT_NULL_PTR)
      else if \<not> e_new_observer e t then (s1, NET_CONN_ERR_INPUT_NULL_PTR)
      else let nRet = e_register_net e t
           in (s1\<lparr>s_net_registered := s_net_registered s1 \<or> nRet = NET_CONN_SUCCESS\<rparr>, nRet))"

definition RETRY_MAX_TIMES :: nat where "RETRY_MAX_TIMES = 100"

text \<open>
  The detached thread's loop, with the number of attempts left; it sleeps between attempts. The
  result is the number of attempts that failed.
\<close>

fun monitor_loop :: "service_env \<Rightarrow> nat \<Rightarrow> nat \<Rightarrow> time_service \<Rightarrow> time_service \<times> nat" where
  "monitor_loop e 0 retryCount s = (s, retryCount)"
| "monitor_loop e (Suc left) retryCount s =
     (case MonitorNetwork e s of
        (s1, NET_CONN_SUCCESS) \<Rightarrow> (s1, retryCount)
      | (s1, _) \<Rightarrow> monitor_loop e left (Suc retryCount) s1)"

definition StartTimer_ntp :: "service_env \<Rightarrow> time_service \<Rightarrow> time_service" where
  "StartTimer_ntp e s = fst (StartTimer_service e (ntp_timerId (s_ntp s)) (ntp_nextTriggerTime (s_ntp s)) s)"

definition Stop_ntp :: "service_env \<Rightarrow> time_service \<Rightarrow> time_service" where
  "Stop_ntp e s = fst (DestroyTimer_service e (ntp_timerId (s_ntp s)) s)"

text \<open>
  The state after the file has been read, or written with the defaults and read back; false when
  even that fails.
\<close>

definition load_auto_time_info :: "service_env \<Rightarrow> time_service \<Rightarrow> time_service \<times> bool" where
  "load_auto_time_info e s =
     (case GetAutoTimeInfoFromFile e s of
        Some info \<Rightarrow> (update_ntp (autoTimeInfo_update (\<lambda>_. info)) s, True)
      | None \<Rightarrow>
          let info = \<lparr>NTP_SERVER = NTP_CN_SERVER, auto_status = NETWORK_TIME_STATUS_ON, lastUpdateTime = INVALID_TIMES\<rparr>;
              (s1, saved) = SaveAutoTimeInfoToFile e info (update_ntp (autoTimeInfo_update (\<lambda>_. info)) s)
          in if \<not> saved then (s1, False)
             else case GetAutoTimeInfoFromFile e s1 of
                    None \<Rightarrow> (s1, False)
                  | Some info' \<Rightarrow> (update_ntp (autoTimeInfo_update (\<lambda>_. info')) s1, True))"

text \<open>
  \<open>Init\<close>, with the thread run at the point where it is started: it only registers the observer.
  \<open>None\<close> as in \<open>CreateTimer\<close>.
\<close>

definition Init_ntp :: "service_env \<Rightarrow> time_service \<Rightarrow> time_service option" where
  "Init_ntp e s =
     (let s1 = SubscriberNITZTimeChangeCommonEvent e s; (s2, loaded) = load_auto_time_info e s1 in
      if \<not> loaded then Some s2
      else let (s3, _) = monitor_loop e RETRY_MAX_TIMES 0 s2 in
        case CreateTimer_internal e ELAPSED_REALTIME 0 DAY_TO_MILLISECOND 0 (Some Ntp_Refresh) s3 of
          None \<Rightarrow> None
        | Some (s4, timerId) \<Rightarrow>
            let s5 = update_ntp (ntp_timerId_update (\<lambda>_. timerId)) s4;
                s6 = RefreshNextTriggerTime e s5
            in Some (fst (StartTimer_service e (ntp_timerId (s_ntp s6)) (ntp_nextTriggerTime (s_ntp s6)) s6)))"

section \<open>The subscriber and the observer\<close>

definition UNKNOWN_BROADCAST_EVENT :: u32 where "UNKNOWN_BROADCAST_EVENT = 0"
definition NITZ_TIME_CHANGED_BROADCAST_EVENT :: u32 where "NITZ_TIME_CHANGED_BROADCAST_EVENT = 1"
definition NITZ_TIMEZONE_CHANGED_BROADCAST_EVENT :: u32 where "NITZ_TIMEZONE_CHANGED_BROADCAST_EVENT = 2"

definition UnknownBroadcast :: "service_env \<Rightarrow> time_service \<Rightarrow> time_service" where "UnknownBroadcast e s = s"
definition NITZTimeChangeBroadcast :: "service_env \<Rightarrow> time_service \<Rightarrow> time_service" where
  "NITZTimeChangeBroadcast e s = UpdateNITZSetTime e s"
definition NITZTimezoneChangeBroadcast :: "service_env \<Rightarrow> time_service \<Rightarrow> time_service" where
  "NITZTimezoneChangeBroadcast e s = s"

definition memberFuncMap_nitz :: "(u32, service_env \<Rightarrow> time_service \<Rightarrow> time_service) std_map" where
  "memberFuncMap_nitz =
     map_assign NITZ_TIMEZONE_CHANGED_BROADCAST_EVENT NITZTimezoneChangeBroadcast
       (map_assign NITZ_TIME_CHANGED_BROADCAST_EVENT NITZTimeChangeBroadcast
         (map_assign UNKNOWN_BROADCAST_EVENT UnknownBroadcast []))"

text \<open>\<open>nitz_action\<close> is the name of the event of the event service.\<close>

definition OnReceiveEvent :: "string \<Rightarrow> service_env \<Rightarrow> string \<Rightarrow> time_service \<Rightarrow> time_service" where
  "OnReceiveEvent nitz_action e action s =
     (let code = (if action = nitz_action then NITZ_TIME_CHANGED_BROADCAST_EVENT else UNKNOWN_BROADCAST_EVENT)
      in case map_find memberFuncMap_nitz code of None \<Rightarrow> s | Some memberFunc \<Rightarrow> memberFunc e s)"

text \<open>\<open>internet\<close> is whether the capabilities of the network have the Internet.\<close>

definition NetCapabilitiesChange :: "service_env \<Rightarrow> bool \<Rightarrow> time_service \<Rightarrow> time_service \<times> int" where
  "NetCapabilitiesChange e internet s = ((if internet then SetSystemTime e s else s), 0)"

definition NetAvailable :: "time_service \<Rightarrow> time_service \<times> int" where "NetAvailable s = (s, 0)"
definition NetConnectionPropertiesChange :: "time_service \<Rightarrow> time_service \<times> int" where
  "NetConnectionPropertiesChange s = (s, 0)"
definition NetLost :: "time_service \<Rightarrow> time_service \<times> int" where "NetLost s = (s, 0)"
definition NetUnavailable :: "time_service \<Rightarrow> time_service \<times> int" where "NetUnavailable s = (s, 0)"
definition NetBlockStatusChange :: "bool \<Rightarrow> time_service \<Rightarrow> time_service \<times> int" where
  "NetBlockStatusChange blocked s = (s, 0)"

end
