(* ===== verification/Ntp_Properties.thy ===== *)
theory Ntp_Properties
  imports Ntp_Update
begin

text \<open>
  What the automatic network time guarantees: when the carrier's time keeps the network's away,
  what is set when it does not, and that the switch survives a restart.
\<close>

section \<open>Setting the time\<close>

text \<open>Whether \<open>SetTime\<close>, called at the instant \<open>t\<close>, sets the time of day.\<close>

definition can_set :: "service_env \<Rightarrow> nat \<Rightarrow> int \<Rightarrow> bool" where
  "can_set e t time \<longleftrightarrow> CheckCallingPermission setTimePermName (e_caller e t) \<and> 0 \<le> time \<and>
     time sdiv 1000 < e_long_max e \<and> 0 \<le> e_settimeofday e (Suc t) (timeval_of_ms time)"

lemma SetTime_effect:
  "s_wall_sets (fst (SetTime_service e time s)) =
     s_wall_sets s @ (if can_set e (s_now s) time then [timeval_of_ms time] else [])"
  "s_ntp (fst (SetTime_service e time s)) = s_ntp s"
  "s_trusted (fst (SetTime_service e time s)) = s_trusted s"
  "s_auto_file (fst (SetTime_service e time s)) = s_auto_file s"
proof -
  let ?p = "CheckCallingPermission setTimePermName (e_caller e (s_now s))"
  have "s_wall_sets (fst (SetTime_service e time s)) =
      s_wall_sets s @ (if can_set e (s_now s) time then [timeval_of_ms time] else []) \<and>
    s_ntp (fst (SetTime_service e time s)) = s_ntp s \<and> s_trusted (fst (SetTime_service e time s)) = s_trusted s \<and>
    s_auto_file (fst (SetTime_service e time s)) = s_auto_file s"
  proof (cases "?p \<and> 0 \<le> time \<and> time sdiv 1000 < e_long_max e")
    case False
    then consider "\<not> ?p" | "?p" "time < 0 \<or> e_long_max e \<le> time sdiv 1000" by linarith
    then show ?thesis by cases (auto simp: SetTime_refused after_def can_set_def)
  next
    case True
    define s2 where "s2 = (after 2 s)\<lparr>s_wall_sets := s_wall_sets s @ [timeval_of_ms time]\<rparr>"
    define res where "res = set_rtc_time e (fst (timeval_of_ms time)) s2"
    obtain k fds rtcs where fr: "fst res = s2\<lparr>s_now := k, s_fds := s_fds s2 @ fds, s_rtc_sets := s_rtc_sets s2 @ rtcs\<rparr>"
      using set_rtc_time_frame [of e "fst (timeval_of_ms time)" s2] unfolding res_def by blast
    have "fst (SetTime_service e time s) =
      (if e_settimeofday e (Suc (s_now s)) (timeval_of_ms time) < 0 then after 2 s
       else if snd res < 0 then fst res
       else (fst res)\<lparr>s_notify := PublishTimeChanageEvents (s_notify (fst res))\<rparr>)"
      using SetTime_accepted [of e s time] True by (simp add: res_def s2_def split_def Let_def)
    then show ?thesis
      unfolding fr using True by (simp add: s2_def after_def can_set_def)
  qed
  then show "s_wall_sets (fst (SetTime_service e time s)) =
      s_wall_sets s @ (if can_set e (s_now s) time then [timeval_of_ms time] else [])"
    "s_ntp (fst (SetTime_service e time s)) = s_ntp s"
    "s_trusted (fst (SetTime_service e time s)) = s_trusted s"
    "s_auto_file (fst (SetTime_service e time s)) = s_auto_file s" by simp_all
qed

lemma refresh_frame:
  "s_wall_sets (fst (refresh e srv s)) = s_wall_sets s" "s_ntp (fst (refresh e srv s)) = s_ntp s"
  "s_zone (fst (refresh e srv s)) = s_zone s" "s_now (fst (refresh e srv s)) = s_now s + 2"
  "s_auto_file (fst (refresh e srv s)) = s_auto_file s"
  by (simp_all add: refresh_def after_def Let_def split: prod.splits)

text \<open>The network time that an attempt finds, if it finds one, and the local time made of it.\<close>

definition network_time :: "service_env \<Rightarrow> time_service \<Rightarrow> int option" where
  "network_time e s =
     (let (s1, ok) = refresh e (NTP_SERVER (autoTimeInfo (s_ntp s))) (after 1 s);
          now = CurrentTimeMillis (e_steady e (s_now s + 3) sdiv 1000000) (s_trusted s1)
      in if ok \<and> 0 < now then Some (now + GetCurrentOffsetMs (s_zone s)) else None)"

lemma SetSystemTime_eq:
  "SetSystemTime e s =
     (if IsNITZTimeInvalid e s then after 1 s
      else let (s1, ok) = refresh e (NTP_SERVER (autoTimeInfo (s_ntp s))) (after 1 s) in
        if \<not> ok then s1
        else case network_time e s of
          None \<Rightarrow> after 1 s1
        | Some local \<Rightarrow>
            update_ntp (autoTimeInfo_update (lastUpdateTime_update (\<lambda>_. local)))
              (fst (SetTime_service e local (after 1 s1))))"
proof -
  obtain s1 ok where r: "refresh e (NTP_SERVER (autoTimeInfo (s_ntp s))) (after 1 s) = (s1, ok)"
    by (cases "refresh e (NTP_SERVER (autoTimeInfo (s_ntp s))) (after 1 s)")
  have s1: "s_now s1 = s_now s + 3" "s_zone s1 = s_zone s"
    using refresh_frame(3,4) [of e "NTP_SERVER (autoTimeInfo (s_ntp s))" "after 1 s"] r by (simp_all add: after_def)
  have z: "s_zone (after 1 s1) = s_zone s" "s_ntp (after 1 s) = s_ntp s" using s1 by (simp_all add: after_def)
  define now where "now = CurrentTimeMillis (e_steady e (s_now s + 3) sdiv 1000000) (s_trusted s1)"
  have n: "network_time e s = (if ok \<and> 0 < now then Some (now + GetCurrentOffsetMs (s_zone s)) else None)"
    unfolding network_time_def r now_def Let_def split_conv ..
  show ?thesis
    unfolding SetSystemTime_def n
    unfolding Let_def r z split_conv s1 now_def [symmetric] INVALID_TIMES_def
    by (auto simp: not_le split_def)
qed

section \<open>The carrier's time\<close>

text \<open>C30. How long the carrier's time counts: after \<open>UpdateNITZSetTime\<close> at boot time \<open>b\<close>
  milliseconds, a check at boot time \<open>b'\<close> finds it fresh exactly from 8 hours to 32 hours later. For
  the first 8 hours the unsigned difference wraps, and a network time may overwrite the time that the
  carrier has just set.\<close>

theorem carrier_time_window:
  assumes "0 \<le> e_steady e (s_now s)" and "e_steady e (s_now s) \<le> e_steady e (s_now s')"
    and "e_steady e (s_now s') < 2 ^ 63"
    and "nitzUpdateTimeMili (s_ntp s') = nitzUpdateTimeMili (s_ntp (UpdateNITZSetTime e s))"
  shows "let b = e_steady e (s_now s) div 1000000; b' = e_steady e (s_now s') div 1000000
    in IsNITZTimeInvalid e s' \<longleftrightarrow> b + 8 * 3600000 \<le> b' \<and> b' < b + 32 * 3600000"
proof -
  define b b' where "b = e_steady e (s_now s) div 1000000" and "b' = e_steady e (s_now s') div 1000000"
  have range: "0 \<le> b" "b \<le> b'" "b' < 9223372036855"
    using assms(1-3) by (auto simp: b_def b'_def zdiv_mono1)
  have u: "uint (boot_ms e t) = e_steady e t div 1000000" if "0 \<le> e_steady e t" "e_steady e t < 2 ^ 63" for t
    using that by (simp add: boot_ms_def NANO_TO_MILLISECOND_def uint_div uint_word_of_int_eq take_bit_int_eq_self)
  have "uint (boot_ms e (s_now s)) = b" "uint (boot_ms e (s_now s')) = b'"
    using u assms(1-3) by (auto simp: b_def b'_def)
  then have w: "boot_ms e (s_now s) = word_of_int b" "boot_ms e (s_now s') = word_of_int b'"
    by (metis word_of_int_uint)+
  define c where "c = b + 28800000"
  have nitz: "nitzUpdateTimeMili (s_ntp s') = word_of_int c"
    unfolding assms(4) by (simp add: UpdateNITZSetTime_def w after_def EIGHTHOUR_TO_MILLISECONDS_def c_def)
  have c: "0 < c" "c < 9223400836855" using range by (simp_all add: c_def)
  have un: "uint (word_of_int c :: u64) = c" "uint (word_of_int b' :: u64) = b'"
    using range c by (simp_all add: uint_word_of_int_eq take_bit_int_eq_self)
  have "(word_of_int c :: u64) \<noteq> 0" using un(1) c(1) by auto
  then have "IsNITZTimeInvalid e s' \<longleftrightarrow> (word_of_int b' :: u64) - word_of_int c < 86400000"
    by (simp add: IsNITZTimeInvalid_def nitz w DAY_TO_MILLISECOND_def)
  also have "\<dots> \<longleftrightarrow> b + 28800000 \<le> b' \<and> b' < b + 115200000"
  proof (cases "c \<le> b'")
    case True
    then have "uint ((word_of_int b' :: u64) - word_of_int c) = b' - c"
      using un by (subst uint_sub_if') simp
    with True show ?thesis by (auto simp: word_less_def c_def)
  next
    case False
    then have "uint ((word_of_int b' :: u64) - word_of_int c) = b' - c + 2 ^ 64"
      using un by (subst uint_sub_if') simp
    with False c range show ?thesis by (auto simp: word_less_def c_def)
  qed
  finally show ?thesis by (simp add: b_def b'_def Let_def)
qed

theorem carrier_time_window_witness:
  "\<not> IsNITZTimeInvalid sample_env (UpdateNITZSetTime sample_env sample_service)"
  using carrier_time_window [of sample_env sample_service "UpdateNITZSetTime sample_env sample_service"]
  by (simp add: Let_def)

section \<open>The network's time\<close>

lemma SetSystemTime_effect:
  shows "IsNITZTimeInvalid e s \<or> network_time e s = None \<Longrightarrow>
      s_wall_sets (SetSystemTime e s) = s_wall_sets s \<and> s_ntp (SetSystemTime e s) = s_ntp s"
    and "\<not> IsNITZTimeInvalid e s \<Longrightarrow> network_time e s = Some local \<Longrightarrow>
      s_wall_sets (SetSystemTime e s) =
        s_wall_sets s @ (if can_set e (s_now s + 4) local then [timeval_of_ms local] else []) \<and>
      s_ntp (SetSystemTime e s) = autoTimeInfo_update (lastUpdateTime_update (\<lambda>_. local)) (s_ntp s)"
proof -
  obtain s1 ok where r: "refresh e (NTP_SERVER (autoTimeInfo (s_ntp s))) (after 1 s) = (s1, ok)"
    by (cases "refresh e (NTP_SERVER (autoTimeInfo (s_ntp s))) (after 1 s)")
  have s1: "s_now s1 = s_now s + 3" "s_wall_sets s1 = s_wall_sets s" "s_ntp s1 = s_ntp s"
    using refresh_frame [of e "NTP_SERVER (autoTimeInfo (s_ntp s))" "after 1 s"] r by (simp_all add: after_def)
  have ok: "\<not> ok \<Longrightarrow> network_time e s = None" unfolding network_time_def r by simp
  show "IsNITZTimeInvalid e s \<or> network_time e s = None \<Longrightarrow>
      s_wall_sets (SetSystemTime e s) = s_wall_sets s \<and> s_ntp (SetSystemTime e s) = s_ntp s"
    using s1 unfolding SetSystemTime_eq r by (auto simp: Let_def after_def)
  show "\<not> IsNITZTimeInvalid e s \<Longrightarrow> network_time e s = Some local \<Longrightarrow>
      s_wall_sets (SetSystemTime e s) =
        s_wall_sets s @ (if can_set e (s_now s + 4) local then [timeval_of_ms local] else []) \<and>
      s_ntp (SetSystemTime e s) = autoTimeInfo_update (lastUpdateTime_update (\<lambda>_. local)) (s_ntp s)"
    using s1 ok unfolding SetSystemTime_eq r by (auto simp: Let_def after_def SetTime_effect eval_nat_numeral)
qed

text \<open>C27. What \<open>SetSystemTime\<close> sets: unless the carrier's time is fresh, or no exchange succeeds, or
  the network time is not positive, it sets the network time plus the offset of the time zone, once,
  if \<open>SetTime\<close> may; and it records that time as the last update whether or not \<open>SetTime\<close> succeeded.
  In every other case both stay as they are.\<close>

theorem SetSystemTime_sets:
  "let s' = SetSystemTime e s in
   case (if IsNITZTimeInvalid e s then None else network_time e s) of
     None \<Rightarrow> s_wall_sets s' = s_wall_sets s \<and> autoTimeInfo (s_ntp s') = autoTimeInfo (s_ntp s)
   | Some local \<Rightarrow>
       s_wall_sets s' = s_wall_sets s @ (if can_set e (s_now s + 4) local then [timeval_of_ms local] else []) \<and>
       autoTimeInfo (s_ntp s') = (autoTimeInfo (s_ntp s))\<lparr>lastUpdateTime := local\<rparr>"
proof (cases "if IsNITZTimeInvalid e s then None else network_time e s")
  case None
  then show ?thesis using SetSystemTime_effect(1) [of e s] by (simp add: Let_def split: if_splits)
next
  case (Some local)
  then show ?thesis using SetSystemTime_effect(2) [of e s local] by (simp add: Let_def split: if_splits)
qed

section \<open>The switch\<close>

lemma Save_file:
  "e_auto_writable e (s_now s) \<Longrightarrow>
    s_auto_file (fst (SaveAutoTimeInfoToFile e info s)) = Some (e_auto_render e info)"
  "s_ntp (fst (SaveAutoTimeInfoToFile e info s)) = s_ntp s"
  by (simp_all add: SaveAutoTimeInfoToFile_def after_def Let_def)

lemma switch_saved:
  assumes "\<And>t. e_auto_writable e t" and "s' = UpdateStatusOff e s \<or> s' = UpdateStatusOn e s \<and> \<not> CheckStatus s"
  shows "s_auto_file s' = Some (e_auto_render e (autoTimeInfo (s_ntp s')))"
  using assms by (auto simp: UpdateStatusOff_def UpdateStatusOn_def Let_def Save_file)

text \<open>The switch of the network time works and survives a restart: it is off after
  \<open>UpdateStatusOff\<close> and on after \<open>UpdateStatusOn\<close>; while it is off the timer of every day does
  nothing; and a process that starts from the file that the last switch wrote takes over the same
  server, status and time of the last update, if the JSON library reads back what it wrote.\<close>

theorem switch_survives_restart:
  assumes "\<And>t. e_auto_writable e t" and "s' = UpdateStatusOff e s \<or> s' = UpdateStatusOn e s \<and> \<not> CheckStatus s"
    and "e_auto_parse e (e_auto_render e (autoTimeInfo (s_ntp s'))) = Some (autoTimeInfo (s_ntp s'))"
    and "s_auto_file r = s_auto_file s'"
  shows "CheckStatus (UpdateStatusOn e s) \<and> \<not> CheckStatus (UpdateStatusOff e s) \<and>
    RefreshNetworkTimeByTimer e n (UpdateStatusOff e s) = UpdateStatusOff e s \<and>
    autoTimeInfo (s_ntp (fst (load_auto_time_info e r))) = autoTimeInfo (s_ntp s') \<and>
    (CheckStatus (fst (load_auto_time_info e r)) \<longleftrightarrow> CheckStatus s')"
proof -
  have on: "CheckStatus (UpdateStatusOn e s)"
    by (simp add: UpdateStatusOn_def CheckStatus_def Let_def Save_file)
  have off: "\<not> CheckStatus (UpdateStatusOff e s)"
    by (simp add: UpdateStatusOff_def CheckStatus_def Let_def Save_file NETWORK_TIME_STATUS_ON_def NETWORK_TIME_STATUS_OFF_def)
  have "GetAutoTimeInfoFromFile e r = Some (autoTimeInfo (s_ntp s'))"
    using assms(3,4) switch_saved [OF assms(1,2)] by (simp add: GetAutoTimeInfoFromFile_def)
  then have "autoTimeInfo (s_ntp (fst (load_auto_time_info e r))) = autoTimeInfo (s_ntp s')"
    by (simp add: load_auto_time_info_def)
  with on off show ?thesis by (simp add: CheckStatus_def RefreshNetworkTimeByTimer_def)
qed

theorem switch_survives_restart_witness:
  "\<not> CheckStatus (fst (load_auto_time_info sample_env (UpdateStatusOff sample_env sample_service)))"
  using switch_survives_restart [of sample_env "UpdateStatusOff sample_env sample_service" sample_service
      "UpdateStatusOff sample_env sample_service"]
  by (simp add: UpdateStatusOff_def Let_def Save_file sample_info_def NTP_CN_SERVER_def INVALID_TIMES_def
      NETWORK_TIME_STATUS_OFF_def)

text \<open>An exchange with the sample server, whose four times are all zero: half of twice the time of the
  client is taken off.\<close>

lemma sample_request:
  "\<exists>c. fst (RequestTime False 0 sample_exchange sample_client) = (c, True) \<and> mNtpTime c = 0 \<and> mNtpTimeReference c = 5"
proof -
  define x where "x = timestamp_of (ConvertUnixToNtp 0 sample_now)"
  have m: "m_originateTimestamp (snd (CreateMessage 0 sample_now b c)) = x" for b c
    by (simp add: CreateMessage_def message_defs x_def Let_def)
  have "integer_of (replicate n 0) = (0 :: u64)" for n by (induction n) auto
  then have z: "GetNtpTimestamp64 k (replicate 48 0) = 0" for k by (simp add: GetNtpTimestamp64_def read_reversed_def)
  have "ConvertNtpToStamp 0 = 0" by (simp add: ConvertNtpToStamp_def)
  moreover have "(- a - a) sdiv 2 = - a" for a :: int
  proof -
    have "(2 * b) sdiv 2 = b" for b :: int by (simp add: signed_divide_int_def abs_mult sgn_mult sgn_mult_abs)
    from this [of "- a"] show ?thesis by (simp add: algebra_simps)
  qed
  ultimately show ?thesis
    by (subst RequestTime_ok)
      (simp_all add: sample_exchange_def ReceivedMessage_def parse_message_def message_defs z m x_def [symmetric] SetClockOffset_def Let_def)
qed

lemma sample_network_time: "network_time sample_env s = Some (99995 + GetCurrentOffsetMs (s_zone s))"
proof -
  obtain c where "fst (RequestTime False 0 sample_exchange sample_client) = (c, True)" "mNtpTime c = 0" "mNtpTimeReference c = 5"
    using sample_request by blast
  then have ref: "snd (refresh sample_env srv s') \<and>
    (\<exists>q. s_trusted (fst (refresh sample_env srv s')) = Some \<lparr>mTimeMillis = 0, mElapsedRealtimeMillis = 5, mCertaintyMillis = q\<rparr>)"
    for srv s'
    by (cases "RequestTime False 0 sample_exchange sample_client")
      (simp add: refresh_def ForceRefresh_def result_of_def TimeResult_def getNtpTIme_def getNtpTimeReference_def)
  obtain s1 q where r: "refresh sample_env (NTP_SERVER (autoTimeInfo (s_ntp s))) (after 1 s) = (s1, True)"
    and t: "s_trusted s1 = Some \<lparr>mTimeMillis = 0, mElapsedRealtimeMillis = 5, mCertaintyMillis = q\<rparr>"
    using ref by (metis prod.collapse)
  have "100000000000 sdiv 1000000 = (100000 :: int)" by simp
  then show ?thesis
    unfolding network_time_def r
    by (simp add: t CurrentTimeMillis_def CurrentTimeMillis_result_def GetAgeMillis_def)
qed

text \<open>The observer of the network does not ask whether the network time is on: with the network
  time switched off, a change of the network's capabilities still sets the time of day from the
  network.\<close>

theorem off_does_not_stop_observer:
  "let off = UpdateStatusOff sample_env sample_service
   in \<not> CheckStatus off \<and> s_wall_sets off = [] \<and>
      s_wall_sets (fst (NetCapabilitiesChange sample_env True off)) = [timeval_of_ms 99995]"
proof -
  define off where "off = UpdateStatusOff sample_env sample_service"
  have off: "s_wall_sets off = []" "nitzUpdateTimeMili (s_ntp off) = 0" "s_zone off = TimeZoneInfo None None" "\<not> CheckStatus off"
    by (simp_all add: off_def UpdateStatusOff_def SaveAutoTimeInfoToFile_def after_def Let_def CheckStatus_def
        NETWORK_TIME_STATUS_ON_def NETWORK_TIME_STATUS_OFF_def)
  have "GetOffsetById [] = None"
    by (cases "GetOffsetById []") (auto simp: GetOffsetById_iff timezoneList_def zone_def)
  then have "network_time sample_env off = Some 99995"
    by (simp add: sample_network_time off GetCurrentOffsetMs_def TimeZoneInfo_def)
  moreover have "\<not> IsNITZTimeInvalid sample_env off" by (simp add: IsNITZTimeInvalid_def off)
  moreover have "can_set sample_env t 99995" for t
    by (simp add: can_set_def CheckCallingPermission_def setTimePermName_def sample_caller_def)
  ultimately show ?thesis
    using SetSystemTime_effect(2) [of sample_env off 99995] off
    by (simp add: off_def [symmetric] NetCapabilitiesChange_def)
qed

end
