(* ===== verification/Time_Service.thy ===== *)
theory Time_Service
  imports Ntp_Update
begin

text \<open>
  The life of \<open>TimeService\<close> (\<open>time_service.cpp\<close>): construction, start, stop, the switch of the
  network time, and the dumps. A dump gives the text it writes; \<open>None\<close> is an exception that leaves
  it. The singletons are part of the one state record.
\<close>

definition INIT_INTERVAL :: int where "INIT_INTERVAL = 10000"

section \<open>Construction\<close>

text \<open>
  The process before it starts: the hardware clock has been looked up (\<open>None\<close> when that throws),
  the singletons are as their constructors leave them, and the fields that these do not initialise,
  those of \<open>ntp\<close> but one and of \<open>k\<close>, have any value.
\<close>

definition TimeService :: "service_env \<Rightarrow> string option \<Rightarrow> string option \<Rightarrow> string option \<Rightarrow> ntp_update \<Rightarrow> tick \<Rightarrow> time_service option" where
  "TimeService e tz zone_file auto_file ntp k =
     (case get_wall_clock_rtc_id e of
        None \<Rightarrow> None
      | Some rtc_id \<Rightarrow>
          Some \<lparr>s_now = 0, s_state = STATE_NOT_START, s_rtc_id = rtc_id, s_serviceHandler = False, s_tasks = [],
            s_manager = None, s_zone = TimeZoneInfo tz zone_file, s_notify = TimeServiceNotify,
            s_tick = k, s_ntp = ntp\<lparr>nitzUpdateTimeMili := 0\<rparr>, s_auto_file = auto_file,
            s_nitz_subscribed = False, s_net_registered = False, s_trusted = None, s_cmds = [],
            s_wall_sets = [], s_rtc_sets = [], s_fds = [], s_reports = []\<rparr>)"

section \<open>Dump commands\<close>

definition service_commands :: "dump_action time_cmd list" where
  "service_commands =
     [\<lparr>cmd_format = [''-time''], cmd_help = ''dump current time info,include localtime,timezone info'',
        cmd_action = DumpAllTimeInfo_action\<rparr>,
      \<lparr>cmd_format = [''-timer'', ''-a''], cmd_help = ''dump all timer info'', cmd_action = DumpTimerInfo_action\<rparr>,
      \<lparr>cmd_format = [''-timer'', ''-i'', ''[n]''], cmd_help = ''dump the timer info with timer id'',
        cmd_action = DumpTimerInfoById_action\<rparr>,
      \<lparr>cmd_format = [''-timer'', ''-s'', ''[n]''], cmd_help = ''dump current time info,include localtime,timezone info'',
        cmd_action = DumpTimerTriggerById_action\<rparr>]"

fun register_all :: "'a time_cmd list \<Rightarrow> 'a dispatcher \<Rightarrow> 'a dispatcher option" where
  "register_all [] d = Some d"
| "register_all (c # cs) d = (case RegisterCommand c d of None \<Rightarrow> None | Some d' \<Rightarrow> register_all cs d')"

definition InitDumpCmd :: "time_service \<Rightarrow> time_service option" where
  "InitDumpCmd s =
     (case register_all service_commands (s_cmds s) of None \<Rightarrow> None | Some d \<Rightarrow> Some (s\<lparr>s_cmds := d\<rparr>))"

section \<open>Start and stop\<close>

definition InitServiceHandler :: "time_service \<Rightarrow> time_service" where
  "InitServiceHandler s = (if s_serviceHandler s then s else s\<lparr>s_serviceHandler := True\<rparr>)"

definition InitTimerHandler :: "service_env \<Rightarrow> time_service \<Rightarrow> time_service" where
  "InitTimerHandler e s =
     (if s_manager s \<noteq> None then s
      else let (r, ev) = TimerManager_Create (e_handler e (s_now s))
           in (after 1 s)\<lparr>s_manager := r, s_fds := s_fds s @ ev\<rparr>)"

definition InitNotifyHandler :: "time_service \<Rightarrow> time_service" where
  "InitNotifyHandler s = s\<lparr>s_notify := RegisterPublishEvents (s_notify s)\<rparr>"

definition Init_service :: "service_env \<Rightarrow> time_service \<Rightarrow> time_service \<times> time_error" where
  "Init_service e s =
     (let ret = e_publish e (s_now s); s1 = after 1 s in
      if \<not> ret then (s1, E_TIME_PUBLISH_FAIL) else (s1\<lparr>s_state := STATE_RUNNING\<rparr>, ERR_OK))"

text \<open>\<open>fsys\<close> and \<open>fs\<close> are the file system of the zone file. \<open>None\<close> as in \<open>CreateTimer\<close>.\<close>

definition OnStart :: "service_env \<Rightarrow> 'fs file_system \<Rightarrow> 'fs \<Rightarrow> time_service \<Rightarrow> ('fs \<times> time_service) option" where
  "OnStart e fsys fs s =
     (if s_state s = STATE_RUNNING then Some (fs, s)
      else let s1 = InitServiceHandler s; s2 = InitTimerHandler e s1; s3 = InitNotifyHandler s2; t = s_now s3;
               s4 = (after 1 s3)\<lparr>s_tick := Init_tick (e_tick_setup e t) (e_utc_micro e t) (e_tick_id e t) (s_tick s3)\<rparr>;
               (fs5, z) = TimeZone_Init fsys (e_zone e (s_now s4)) fs (s_zone s4);
               s5 = (after 1 s4)\<lparr>s_zone := z\<rparr>
           in case Init_ntp e s5 of
                None \<Rightarrow> None
              | Some s6 \<Rightarrow>
                  let (s7, ret) = Init_service e s6 in
                  if ret \<noteq> ERR_OK then Some (fs5, s7\<lparr>s_tasks := s_tasks s7 @ [INIT_INTERVAL]\<rparr>)
                  else (case InitDumpCmd s7 of None \<Rightarrow> None | Some s8 \<Rightarrow> Some (fs5, s8)))"

text \<open>The task that \<open>OnStart\<close> posts when \<open>Init\<close> fails.\<close>

definition run_posted_task :: "service_env \<Rightarrow> time_service \<Rightarrow> time_service" where
  "run_posted_task e s = (case s_tasks s of [] \<Rightarrow> s | _ # ts \<Rightarrow> fst (Init_service e (s\<lparr>s_tasks := ts\<rparr>)))"

definition OnStop :: "time_service \<Rightarrow> time_service" where
  "OnStop s =
     (if s_state s \<noteq> STATE_RUNNING then s
      else s\<lparr>s_serviceHandler := False, s_tick := Stop_tick (s_tick s), s_state := STATE_NOT_START\<rparr>)"

text \<open>The call-back of the tick's timer.\<close>

definition tick_event :: "service_env \<Rightarrow> time_service \<Rightarrow> time_service" where
  "tick_event e s =
     (let t = s_now s; (n, k) = Callback_tick (e_utc_micro e t) (e_tick_id e t) (s_notify s, s_tick s)
      in (after 1 s)\<lparr>s_notify := n, s_tick := k\<rparr>)"

definition NetworkTimeStatusOff_service :: "service_env \<Rightarrow> time_service \<Rightarrow> time_service" where
  "NetworkTimeStatusOff_service e s = UpdateStatusOff e s"

definition NetworkTimeStatusOn_service :: "service_env \<Rightarrow> time_service \<Rightarrow> time_service" where
  "NetworkTimeStatusOn_service e s = UpdateStatusOn e s"

section \<open>Dumps\<close>

definition DumpAllTimeInfo :: "service_env \<Rightarrow> time_service \<Rightarrow> time_service \<times> string" where
  "DumpAllTimeInfo e s =
     (after 1 s,
      newline @ '' - dump all time info :'' @ newline @
      (case GetTimeByClockid e CLOCK_BOOTTIME s of
         Some ts \<Rightarrow> '' * date time = '' @ e_localtime e (fst ts) @ newline
       | None \<Rightarrow> '' * dump date time error.'' @ newline) @
      '' - dump the time Zone:'' @ newline @
      (case GetTimeZone_service s of
         Inr timeZone \<Rightarrow> '' * time zone = '' @ timeZone @ newline
       | Inl _ \<Rightarrow> '' * dump time zone error,is '' @ newline))"

definition DumpTimerInfo :: "service_env \<Rightarrow> time_service \<Rightarrow> time_service \<times> string" where
  "DumpTimerInfo e s =
     (let header = newline @ '' - dump all timer info :'' @ newline in
      case get_manager e s of
        (s1, None) \<Rightarrow> (s1, header)
      | (s1, Some m) \<Rightarrow> (s1, header @ fst (ShowtimerEntryMap m)))"

text \<open>\<open>input.at(2)\<close>, which may throw.\<close>

definition third :: "string list \<Rightarrow> string option" where
  "third input = (if length input \<le> 2 then None else Some (input ! 2))"

definition DumpTimerInfoById :: "service_env \<Rightarrow> string list \<Rightarrow> time_service \<Rightarrow> (time_service \<times> string) option" where
  "DumpTimerInfoById e input s =
     (let header = newline @ '' - dump the timer info with timer id:'' @ newline in
      case get_manager e s of
        (s1, None) \<Rightarrow> Some (s1, header)
      | (s1, Some m) \<Rightarrow>
          (case third input of
             None \<Rightarrow> None
           | Some n \<Rightarrow> Some (s1, header @ fst (ShowTimerEntryById (word_of_int (atoi n)) m))))"

definition DumpTimerTriggerById :: "service_env \<Rightarrow> string list \<Rightarrow> time_service \<Rightarrow> (time_service \<times> string) option" where
  "DumpTimerTriggerById e input s =
     (let header = newline @ '' - dump timer trigger statics with timer id:'' @ newline in
      case get_manager e s of
        (s1, None) \<Rightarrow> Some (s1, header)
      | (s1, Some m) \<Rightarrow>
          (case third input of
             None \<Rightarrow> None
           | Some n \<Rightarrow> Some (s1, header @ fst (ShowTimerTriggerById (word_of_int (atoi n)) m))))"

fun run_action :: "service_env \<Rightarrow> dump_action \<Rightarrow> string list \<Rightarrow> time_service \<Rightarrow> (time_service \<times> string) option" where
  "run_action e DumpAllTimeInfo_action input s = Some (DumpAllTimeInfo e s)"
| "run_action e DumpTimerInfo_action input s = Some (DumpTimerInfo e s)"
| "run_action e DumpTimerInfoById_action input s = DumpTimerInfoById e input s"
| "run_action e DumpTimerTriggerById_action input s = DumpTimerTriggerById e input s"

definition Dump :: "service_env \<Rightarrow> 16 word list list \<Rightarrow> time_service \<Rightarrow> (time_service \<times> string \<times> time_error) option" where
  "Dump e args s =
     (let uid = e_uid e (s_now s); s0 = after 1 s in
      if uid > 10000 then Some (s0, [], E_TIME_DEAL_FAILED)
      else let argsStr = map (e_str16to8 e) args in
        case Dispatch argsStr (s_cmds s0) of
          None \<Rightarrow> None
        | Some (text, None, _) \<Rightarrow> Some (s0, text, ERR_OK)
        | Some (text, Some action, _) \<Rightarrow>
            (case run_action e action argsStr s0 of
               None \<Rightarrow> None
             | Some (s1, out) \<Rightarrow> Some (s1, text @ out, ERR_OK)))"

end
