(* ===== verification/Service_Properties.thy ===== *)
theory Service_Properties
  imports Time_Service
begin

text \<open>
  What a client of \<open>TimeService\<close> can rely on: the timer operations refine an abstract table of
  live timers, a created timer is the one that was asked for, and a dump runs the command that its
  words select.
\<close>

section \<open>An abstract table of timers\<close>

text \<open>
  The specification knows a set of live numbers only. An operation comes with the answer of the
  implementation; the specification accepts it or not (\<open>None\<close>), and says which numbers are live
  afterwards. A creation that answers 0 is a refusal.
\<close>

datatype service_op = Create_op client_request | Timer_op timer_op
datatype answer = Number u64 | Answer bool

fun spec_step :: "service_op \<Rightarrow> answer \<Rightarrow> u64 set \<Rightarrow> u64 set option" where
  "spec_step (Create_op r) (Number n) live = Some (if n = 0 then live else insert n live)"
| "spec_step (Timer_op (Op_start n t)) (Answer b) live = (if b = (n \<in> live) then Some live else None)"
| "spec_step (Timer_op (Op_stop n)) (Answer b) live = (if b = (n \<in> live) then Some live else None)"
| "spec_step (Timer_op (Op_destroy n)) (Answer b) live = (if b = (n \<in> live) then Some (live - {n}) else None)"
| "spec_step _ _ live = None"

fun spec_run :: "service_op list \<Rightarrow> answer list \<Rightarrow> u64 set \<Rightarrow> u64 set option" where
  "spec_run [] [] live = Some live"
| "spec_run (x # ops) (a # as) live =
     (case spec_step x a live of None \<Rightarrow> None | Some live' \<Rightarrow> spec_run ops as live')"
| "spec_run _ _ live = None"

text \<open>The service, one operation and a sequence of operations.\<close>

fun service_step :: "service_env \<Rightarrow> service_op \<Rightarrow> time_service \<Rightarrow> (time_service \<times> answer) option" where
  "service_step e (Create_op r) s = map_option (\<lambda>(s', n). (s', Number n)) (create_for_client e r s)"
| "service_step e (Timer_op (Op_start n t)) s = Some (map_prod id Answer (StartTimer_service e n t s))"
| "service_step e (Timer_op (Op_stop n)) s = Some (map_prod id Answer (StopTimer_service e n s))"
| "service_step e (Timer_op (Op_destroy n)) s = Some (map_prod id Answer (DestroyTimer_service e n s))"

fun service_run :: "service_env \<Rightarrow> service_op list \<Rightarrow> time_service \<Rightarrow> (time_service \<times> answer list) option" where
  "service_run e [] s = Some (s, [])"
| "service_run e (x # ops) s =
     (case service_step e x s of
        None \<Rightarrow> None
      | Some (s1, a) \<Rightarrow> map_option (\<lambda>(s', as). (s', a # as)) (service_run e ops s1))"

definition live :: "time_service \<Rightarrow> u64 set" where
  "live s = dom (service_timer s)"

text \<open>An engine that keeps yielding numbers other than 0.\<close>

definition engine_ok :: "service_env \<Rightarrow> bool" where
  "engine_ok e \<longleftrightarrow> (\<forall>k. \<exists>j \<ge> k. w_random (e_world e) j \<noteq> 0)"

lemma create_requested_dom:
  "create_requested w q m = Some (m', n) \<Longrightarrow> n \<noteq> 0 \<and> dom (registered_timer m') = insert n (dom (registered_timer m))"
  by (auto simp: create_requested_def CreateTimer_def registered_timer_def Let_def map_find_insert
      split: option.splits if_splits dest: draw_nonzero)

lemma create_live: "create_for_client e r s = Some (s', n) \<Longrightarrow> live s' = (if n = 0 then live s else insert n (live s))"
  unfolding live_def by (elim service_create) (simp_all, metis create_requested_dom)

lemma CreateTimer_returns: "engine_ok e \<Longrightarrow> CreateTimer (e_world e) ty wl iv fl cb uid m \<noteq> None"
  unfolding engine_ok_def CreateTimer_def
  using draw_returns [of "w_random (e_world e)" _ "randomPos m"] by (fastforce simp: Let_def)

lemma create_returns: "engine_ok e \<Longrightarrow> create_for_client e r s \<noteq> None"
  by (auto simp: create_for_client_def CreateTimer_service_def Let_def CreateTimer_returns
      split: option.splits prod.splits dest: CreateTimer_returns)

text \<open>One step of the service is a step of the specification.\<close>

lemma service_step_simulates:
  "service_step e x s = Some (s', a) \<Longrightarrow> spec_step x a (live s) = Some (live s')"
proof (induction e x s rule: service_step.induct)
  case (1 e r s)
  then show ?case by (auto dest: create_live)
next
  case (2 e n t s)
  then show ?case using service_start [of e n t s] by (auto simp: live_def map_prod_def split: prod.splits)
next
  case (3 e n s)
  then show ?case using service_stop [of e n s] by (auto simp: live_def map_prod_def split: prod.splits)
next
  case (4 e n s)
  then show ?case using service_destroy [of e n s] by (auto simp: live_def map_prod_def split: prod.splits)
qed

lemma service_step_returns: "engine_ok e \<Longrightarrow> service_step e x s \<noteq> None"
  by (cases "(e, x, s)" rule: service_step.cases) (auto simp: create_returns)

lemma service_run_simulates:
  "engine_ok e \<Longrightarrow> \<exists>s' as. service_run e ops s = Some (s', as) \<and> spec_run ops as (live s) = Some (live s')"
proof (induction ops arbitrary: s)
  case (Cons x ops)
  obtain s1 a where x: "service_step e x s = Some (s1, a)"
    using service_step_returns [OF Cons.prems] by fastforce
  with Cons service_step_simulates [OF x] show ?case by fastforce
qed simp

section \<open>Guarantees\<close>

text \<open>C1. The service refines the table of live timers: every sequence of \<open>CreateTimer\<close>,
  \<open>StartTimer\<close>, \<open>StopTimer\<close> and \<open>DestroyTimer\<close> returns, with answers that the specification accepts,
  and the numbers that the specification calls live are those of the service's table. In particular a
  created timer is accepted until it is destroyed, and refused from then on, whatever happens to other
  timers.\<close>

theorem service_refines_table:
  assumes "engine_ok e"
  shows "\<exists>s' as. service_run e ops s = Some (s', as) \<and> spec_run ops as (live s) = Some (live s')"
  using assms by (rule service_run_simulates)

theorem service_refines_table_witness:
  "\<exists>s' as. service_run sample_env
      [Create_op \<lparr>cr_type = 1, cr_repeat = False, cr_interval = 0, cr_object = Some 4\<rparr>, Timer_op (Op_start 1 200000),
       Timer_op (Op_destroy 1), Timer_op (Op_stop 1)] sample_service = Some (s', as) \<and> length as = 4"
proof -
  have "(of_nat (Suc k) :: u64) \<noteq> 0" if "(of_nat k :: u64) = 0" for k using that by simp
  then have "engine_ok sample_env"
    unfolding engine_ok_def using le_SucI by (simp, blast)
  moreover have "length as = length ops" if "spec_run ops as l = Some l'" for ops as l l'
    using that by (induction ops as l rule: spec_run.induct) (auto split: option.splits)
  ultimately show ?thesis using service_refines_table [of sample_env _ sample_service] by fastforce
qed

text \<open>The masks of the client's type are its lowest three bits.\<close>

lemma mask_bits:
  "(w AND TIMER_TYPE_REALTIME_MASK > 0) = bit w 0" "(w AND TIMER_TYPE_REALTIME_WAKEUP_MASK > 0) = bit w 1"
  "(w AND TIMER_TYPE_EXACT_MASK > 0) = bit w 2" for w :: u32
  by (simp_all only: TIMER_TYPE_REALTIME_MASK_def TIMER_TYPE_REALTIME_WAKEUP_MASK_def TIMER_TYPE_EXACT_MASK_def
      word_greater_zero_iff bit_iff_and_push_bit_not_eq_0)

lemma create_entry:
  assumes "create_for_client e r s = Some (s', n)" and "n \<noteq> 0" and "service_timer s n = None"
  shows "\<exists>ob. cr_object r = Some ob \<and> service_timer s' n =
    (let p = PaserTimerPara (cr_type r) (cr_repeat r) (cr_interval r)
     in Some \<lparr>te_id = n, te_type = tp_timerType p, te_windowLength = word_of_int (tp_windowLength p),
          te_interval = tp_interval p, te_flag = tp_flag p, te_callback = Some (Notify_Remote ob),
          te_uid = e_uid e (s_now s)\<rparr>)"
proof -
  obtain ob where ob: "cr_object r = Some ob" "e_iface_cast e ob"
    using assms(1,2) by (auto simp: create_for_client_def CreateTimer_service_def INVALID_TIMER_ID_def Let_def
        split: option.splits if_splits)
  let ?s0 = "report_creation e (e_uid e (s_now s)) (cr_type r) (cr_interval r) (after 1 s)"
  obtain s1 mo where g: "get_manager e ?s0 = (s1, mo)" by (cases "get_manager e ?s0")
  then obtain m where m: "mo = Some m"
    using assms(1,2) ob by (cases mo)
      (auto simp: create_for_client_def CreateTimer_service_def INVALID_TIMER_ID_def Let_def)
  have "service_timer s = registered_timer m" using get_manager_timer [OF g] m by simp
  then have "map_find (timerEntryMap m) n = None" using assms(3) by (simp add: registered_timer_def)
  then show ?thesis
    using assms(1) ob g m
    by (auto simp: create_for_client_def CreateTimer_service_def CreateTimer_def registered_timer_def map_find_insert
        Let_def split: option.splits)
qed

text \<open>C23. A created timer is the one that was asked for: its clock is the boot clock exactly when the
  client's type has bit 0, it wakes the device exactly when it has bit 1, its window is none when it has
  bit 2 and otherwise the largest number, which stands for a window chosen by the manager; it repeats
  only when it was asked to, belongs to the calling user, and calls the client's object.\<close>

theorem created_as_requested:
  assumes "create_for_client e r s = Some (s', n)" and "n \<noteq> 0" and "service_timer s n = None"
  shows "\<exists>t ob. service_timer s' n = Some t \<and> cr_object r = Some ob \<and> te_callback t = Some (Notify_Remote ob) \<and>
    te_id t = n \<and> te_uid t = e_uid e (s_now s) \<and> te_flag t = 0 \<and>
    te_interval t = (if cr_repeat r then cr_interval r else 0) \<and>
    (te_type t \<in> {ELAPSED_REALTIME, ELAPSED_REALTIME_WAKEUP} \<longleftrightarrow> bit (cr_type r) 0) \<and>
    (te_type t \<in> {RTC_WAKEUP, ELAPSED_REALTIME_WAKEUP} \<longleftrightarrow> bit (cr_type r) 1) \<and>
    te_windowLength t = (if bit (cr_type r) 2 then 0 else 2 ^ 64 - 1)"
proof -
  let ?p = "PaserTimerPara (cr_type r) (cr_repeat r) (cr_interval r)"
  have "tp_timerType ?p \<in> {ELAPSED_REALTIME, ELAPSED_REALTIME_WAKEUP} \<longleftrightarrow> bit (cr_type r) 0"
    "tp_timerType ?p \<in> {RTC_WAKEUP, ELAPSED_REALTIME_WAKEUP} \<longleftrightarrow> bit (cr_type r) 1"
    "tp_windowLength ?p = (if bit (cr_type r) 2 then 0 else -1)" "tp_flag ?p = 0"
    "tp_interval ?p = (if cr_repeat r then cr_interval r else 0)"
    unfolding PaserTimerPara_def Let_def mask_bits by (simp_all add: timer_type_defs)
  then show ?thesis using create_entry [OF assms] by (auto simp: Let_def)
qed

text \<open>The request of the example is answered with the engine's first number that is not 0.\<close>

lemma sample_create:
  "\<exists>s'. create_for_client sample_env \<lparr>cr_type = 7, cr_repeat = True, cr_interval = 6000, cr_object = Some 4\<rparr> sample_service =
    Some (s', 1)"
proof -
  have d: "draw of_nat 0 = Some (1, 2)" by (subst draw.simps, subst draw.simps) simp
  let ?s0 = "report_creation sample_env 100 7 6000 (after 1 sample_service)"
  have "snd (get_manager sample_env ?s0) = Some TimerManager" by (rule sample_gets_manager) (simp add: after_def)
  then obtain s1 where "get_manager sample_env ?s0 = (s1, Some TimerManager)" by (cases "get_manager sample_env ?s0") simp
  moreover have "e_uid sample_env t = 100" for t by (simp add: sample_env_def)
  ultimately show ?thesis
    by (simp add: create_for_client_def CreateTimer_service_def CreateTimer_def TimerManager_def d Let_def)
qed

theorem created_as_requested_witness:
  "\<exists>s' t. service_timer s' 1 = Some t \<and> te_interval t = 6000 \<and> te_type t \<in> {ELAPSED_REALTIME, ELAPSED_REALTIME_WAKEUP}"
proof -
  have "bit (7 :: u32) 0" "service_timer sample_service 1 = None" by (simp_all add: service_timer_def)
  with sample_create show ?thesis by (fastforce dest: created_as_requested)
qed

section \<open>Dumps\<close>

definition spaced :: "string list \<Rightarrow> string" where
  "spaced ws = concat (map (\<lambda>w. w @ '' '') ws)"

definition plain_word :: "string \<Rightarrow> bool" where
  "plain_word w \<longleftrightarrow> w \<noteq> [] \<and> CHR '' '' \<notin> set w"

lemma spaced_simps [simp]: "spaced [] = []" "spaced (w # ws) = w @ CHR '' '' # spaced ws"
  by (simp_all add: spaced_def)

lemma first_space: "c \<notin> set xs \<Longrightarrow> c \<notin> set ys \<Longrightarrow> xs @ c # us = ys @ c # vs \<longleftrightarrow> xs = ys \<and> us = vs"
proof (induction xs arbitrary: ys)
  case Nil
  then show ?case by (cases ys) auto
next
  case (Cons x xs)
  then show ?case by (cases ys) auto
qed

lemma spaced_inject:
  "list_all plain_word a \<Longrightarrow> list_all plain_word b \<Longrightarrow> spaced a = spaced b \<longleftrightarrow> a = b"
proof (induction a arbitrary: b)
  case Nil
  then show ?case by (cases b) auto
next
  case (Cons x a)
  then show ?case
    by (cases b) (auto simp: plain_word_def first_space)
qed

lemma spaced_last: "ws \<noteq> [] \<Longrightarrow> spaced ws = butlast (spaced ws) @ '' ''"
proof (cases ws rule: rev_cases)
  case (snoc a w)
  have "spaced ws = (spaced a @ w) @ '' ''" by (simp add: snoc spaced_def)
  then show ?thesis by (metis butlast_snoc)
qed simp

text \<open>For plain words, two titles are equal only when all words but the last are.\<close>

lemma title_inject:
  assumes "list_all plain_word a" "list_all plain_word b" "b \<noteq> []"
  shows "title_of (a @ [w]) = Some (butlast (spaced b)) \<longleftrightarrow> a = b"
proof (cases "a = []")
  case True
  obtain x b' where b: "b = x # b'" using assms(3) by (cases b) auto
  then have "butlast (spaced b) \<noteq> []" using assms(2) by (auto simp: plain_word_def butlast_append)
  with True assms(3) show ?thesis by auto
next
  case False
  then have "title_of (a @ [w]) = Some (butlast (spaced a))" by (simp add: title_of_def spaced_def)
  moreover have "butlast (spaced a) = butlast (spaced b) \<longleftrightarrow> spaced a = spaced b"
    using spaced_last [OF False] spaced_last [OF assms(3)] by metis
  ultimately show ?thesis using spaced_inject [OF assms(1,2)] by simp
qed

lemma register_all_finds:
  "register_all cs d = Some d' \<Longrightarrow>
    map_find d' k = (case map_find d k of Some c \<Rightarrow> Some c | None \<Rightarrow> map_of (map (\<lambda>c. (key_of c, c)) cs) k)"
  by (induction cs d rule: register_all.induct)
    (auto simp: RegisterCommand_finds split: option.splits)

lemma service_keys:
  "map (\<lambda>c. (key_of c, cmd_action c)) service_commands =
    [([], DumpAllTimeInfo_action), (''-timer'', DumpTimerInfo_action), (''-timer -i'', DumpTimerInfoById_action),
     (''-timer -s'', DumpTimerTriggerById_action)]"
  by (simp add: service_commands_def key_of_def GetOption_def title_of_def)

text \<open>The command that a list of plain words selects.\<close>

definition selected :: "string list \<Rightarrow> dump_action option" where
  "selected ws =
     (if butlast ws = [] then Some DumpAllTimeInfo_action
      else if butlast ws = [''-timer''] then Some DumpTimerInfo_action
      else if butlast ws = [''-timer'', ''-i''] then Some DumpTimerInfoById_action
      else if butlast ws = [''-timer'', ''-s''] then Some DumpTimerTriggerById_action
      else None)"

lemma selected_action:
  assumes d: "register_all service_commands [] = Some d" and ws: "list_all plain_word ws" "ws \<noteq> []"
  shows "\<exists>key. title_of ws = Some key \<and> map_option cmd_action (map_find d key) = selected ws"
proof -
  obtain a w where aw: "ws = a @ [w]" using ws(2) by (cases ws rule: rev_cases) auto
  have a: "list_all plain_word a" using ws(1) aw by simp
  obtain key where key: "title_of (a @ [w]) = Some key" by (simp add: title_of_def)
  note inj = title_inject [OF a, of _ w, unfolded key]
  have k: "key = [] \<longleftrightarrow> a = []" "key = ''-timer'' \<longleftrightarrow> a = [''-timer'']"
    "key = ''-timer -i'' \<longleftrightarrow> a = [''-timer'', ''-i'']" "key = ''-timer -s'' \<longleftrightarrow> a = [''-timer'', ''-s'']"
    using inj [of "[''-timer'']"] inj [of "[''-timer'', ''-i'']"] inj [of "[''-timer'', ''-s'']"] key a
    by (auto simp: plain_word_def title_of_def butlast_append split: if_splits) (cases a; auto simp: plain_word_def butlast_append)
  have "map_option cmd_action (map_of (map (\<lambda>c. (key_of c, c)) cs) key) =
      map_of (map (\<lambda>c. (key_of c, cmd_action c)) cs) key" for cs :: "dump_action time_cmd list"
    by (induction cs) auto
  then have "map_option cmd_action (map_find d key) = selected ws"
    unfolding register_all_finds [OF d] by (simp add: service_keys aw selected_def k)
  then show ?thesis using key aw by blast
qed

lemma InitDumpCmd_cmds:
  "InitDumpCmd s = Some s' \<Longrightarrow> s_cmds s = [] \<Longrightarrow> register_all service_commands [] = Some (s_cmds s')"
  by (auto simp: InitDumpCmd_def split: option.splits)

lemma InitDumpCmd_returns: "InitDumpCmd s \<noteq> None"
  by (auto simp: InitDumpCmd_def service_commands_def RegisterCommand_def GetOption_def title_of_def)

text \<open>A selected command has the words it looks at.\<close>

lemma selected_runs: "selected ws = Some act \<Longrightarrow> ws \<noteq> [] \<Longrightarrow> run_action e act ws s \<noteq> None"
proof -
  assume sel: "selected ws = Some act" and "ws \<noteq> []"
  then obtain a w where ws: "ws = a @ [w]" by (cases ws rule: rev_cases) auto
  show ?thesis
    using sel unfolding ws selected_def
    by (auto simp: DumpTimerInfoById_def DumpTimerTriggerById_def third_def Let_def
        split: if_splits option.splits prod.splits)
qed

text \<open>C37. A dump runs the command that its words select: for words as a shell gives them, not empty
  and without spaces, the last word does not count. \<open>-timer -i n\<close> and \<open>-timer -s n\<close> show one timer,
  \<open>-timer\<close> with any one word shows the table of timers, any single word but \<open>-h\<close> shows the time, and
  every other list of words writes nothing; no exception leaves the dump.\<close>

theorem Dump_selects:
  assumes "InitDumpCmd s0 = Some s1" and "s_cmds s0 = []" and "s_cmds s = s_cmds s1"
    and "e_uid e (s_now s) \<le> 10000"
    and "list_all plain_word (map (e_str16to8 e) args)" and "args \<noteq> []" and "hd (map (e_str16to8 e) args) \<noteq> ''-h''"
  shows "Dump e args s \<noteq> None \<and> Dump e args s =
    (case selected (map (e_str16to8 e) args) of
       None \<Rightarrow> Some (after 1 s, [], ERR_OK)
     | Some act \<Rightarrow> map_option (\<lambda>(s', out). (s', out, ERR_OK)) (run_action e act (map (e_str16to8 e) args) (after 1 s)))"
proof -
  define ws where "ws = map (e_str16to8 e) args"
  have ws: "ws \<noteq> []" "list_all plain_word ws" "hd ws \<noteq> ''-h''" using assms(5-7) by (simp_all add: ws_def)
  have d: "register_all service_commands [] = Some (s_cmds s)"
    using InitDumpCmd_cmds [OF assms(1,2)] assms(3) by simp
  obtain key where key: "title_of ws = Some key" "map_option cmd_action (map_find (s_cmds s) key) = selected ws"
    using selected_action [OF d ws(2,1)] by blast
  have "Dispatch ws (s_cmds s) = Some ([], selected ws, selected ws \<noteq> None)"
    using Dispatch_runs [OF ws(1,3) key(1), of "s_cmds s"] by (simp add: key(2) [symmetric])
  then have eq: "Dump e args s =
    (case selected ws of
       None \<Rightarrow> Some (after 1 s, [], ERR_OK)
     | Some act \<Rightarrow> map_option (\<lambda>(s', out). (s', out, ERR_OK)) (run_action e act ws (after 1 s)))"
    using assms(4) unfolding Dump_def ws_def [symmetric] by (simp add: after_def Let_def split_def split: option.split)
  moreover have "Dump e args s \<noteq> None"
    unfolding eq using selected_runs [OF _ ws(1)] by (fastforce split: option.splits)
  ultimately show ?thesis unfolding ws_def [symmetric] by blast
qed

theorem Dump_selects_witness:
  "\<exists>s. Dump sample_env [[0x78]] s = Some (fst (DumpAllTimeInfo sample_env (after 1 s)), snd (DumpAllTimeInfo sample_env (after 1 s)), ERR_OK)"
proof -
  obtain s where s: "InitDumpCmd sample_service = Some s" using InitDumpCmd_returns [of sample_service] by blast
  have "s_cmds sample_service = []" by (simp add: sample_service_def)
  moreover have "map (e_str16to8 sample_env) [[0x78]] = [''x'']" by (simp add: sample_env_def) code_simp
  moreover have "e_uid sample_env t \<le> 10000" for t by (simp add: sample_env_def)
  ultimately have "Dump sample_env [[0x78]] s =
      Some (fst (DumpAllTimeInfo sample_env (after 1 s)), snd (DumpAllTimeInfo sample_env (after 1 s)), ERR_OK)"
    using Dump_selects [OF s _ refl, of sample_env "[[0x78]]"]
    by (simp add: plain_word_def selected_def split_def)
  then show ?thesis by blast
qed

text \<open>A word that contains a space can select a command whose words are then missing: the exception of
  \<open>at\<close> leaves the dump.\<close>

lemma Dump_escapes:
  assumes "register_all service_commands [] = Some (s_cmds s)" and "e_uid e (s_now s) \<le> 10000" and "s_manager s = Some m"
    and "map (e_str16to8 e) args = [''-timer -i'', n]"
  shows "Dump e args s = None"
proof -
  have "title_of [''-timer -i'', n] = Some ''-timer -i''" by (simp add: title_of_def)
  moreover have "map_find (s_cmds s) ''-timer -i'' = Some (service_commands ! 2)"
    unfolding register_all_finds [OF assms(1)]
    by (simp add: service_commands_def key_of_def GetOption_def title_of_def)
  ultimately have "Dispatch [''-timer -i'', n] (s_cmds s) = Some ([], Some DumpTimerInfoById_action, True)"
    using Dispatch_runs [of "[''-timer -i'', n]" _ "s_cmds s"] by (simp add: service_commands_def)
  then show ?thesis
    using assms(2-4) by (simp add: Dump_def after_def DumpTimerInfoById_def third_def)
qed

end
