(* ===== verification/Time_Ipc.thy ===== *)
theory Time_Ipc
  imports Time_Common Cpp_Std
begin

text \<open>
  The interface \<open>ITimeService\<close> (\<open>time_service_interface.h\<close>), and the two ends of a remote call
  to it: \<open>TimeServiceStub\<close> (\<open>time_service_stub.cpp\<close>) turns a message into a call,
  \<open>TimeServiceProxy\<close> (\<open>time_service_proxy.cpp\<close>) a call into a message. An implementation of the
  interface is a record of its virtual functions over a state \<open>'s\<close>; a function that does not
  return has the result \<open>None\<close>. A remote object is a number.

  The parcel of the IPC library is outside the program: its type is a parameter, and
  \<open>parcel_ops\<close> has its functions. What they document is \<open>parcel_documented\<close>: a successful write
  appends an item, and a read of the right kind takes the first item.
\<close>

section \<open>The interface\<close>

record 's itime_service =
  it_SetTime :: "int \<Rightarrow> 's \<Rightarrow> ('s \<times> time_error) option"
  it_SetTimeZone :: "string \<Rightarrow> 's \<Rightarrow> ('s \<times> time_error) option"
  it_GetTimeZone :: "'s \<Rightarrow> ('s \<times> (time_error + string)) option"
  it_GetWallTimeMs :: "'s \<Rightarrow> ('s \<times> (time_error + int)) option"
  it_GetWallTimeNs :: "'s \<Rightarrow> ('s \<times> (time_error + int)) option"
  it_GetBootTimeMs :: "'s \<Rightarrow> ('s \<times> (time_error + int)) option"
  it_GetBootTimeNs :: "'s \<Rightarrow> ('s \<times> (time_error + int)) option"
  it_GetMonotonicTimeMs :: "'s \<Rightarrow> ('s \<times> (time_error + int)) option"
  it_GetMonotonicTimeNs :: "'s \<Rightarrow> ('s \<times> (time_error + int)) option"
  it_GetThreadTimeMs :: "'s \<Rightarrow> ('s \<times> (time_error + int)) option"
  it_GetThreadTimeNs :: "'s \<Rightarrow> ('s \<times> (time_error + int)) option"
  it_CreateTimer :: "i32 \<Rightarrow> bool \<Rightarrow> u64 \<Rightarrow> nat option \<Rightarrow> 's \<Rightarrow> ('s \<times> u64) option"
  it_StartTimer :: "u64 \<Rightarrow> u64 \<Rightarrow> 's \<Rightarrow> ('s \<times> bool) option"
  it_StopTimer :: "u64 \<Rightarrow> 's \<Rightarrow> ('s \<times> bool) option"
  it_DestroyTimer :: "u64 \<Rightarrow> 's \<Rightarrow> ('s \<times> bool) option"
  it_NetworkTimeStatusOff :: "'s \<Rightarrow> 's option"
  it_NetworkTimeStatusOn :: "'s \<Rightarrow> 's option"
  it_ProxyTimer :: "int \<Rightarrow> bool \<Rightarrow> bool \<Rightarrow> 's \<Rightarrow> ('s \<times> bool) option"
  it_ResetAllProxy :: "'s \<Rightarrow> ('s \<times> bool) option"

definition SET_TIME :: u32 where "SET_TIME = 0"
definition SET_TIME_ZONE :: u32 where "SET_TIME_ZONE = 1"
definition GET_TIME_ZONE :: u32 where "GET_TIME_ZONE = 2"
definition GET_WALL_TIME_MILLI :: u32 where "GET_WALL_TIME_MILLI = 3"
definition GET_WALL_TIME_NANO :: u32 where "GET_WALL_TIME_NANO = 4"
definition GET_BOOT_TIME_MILLI :: u32 where "GET_BOOT_TIME_MILLI = 5"
definition GET_BOOT_TIME_NANO :: u32 where "GET_BOOT_TIME_NANO = 6"
definition GET_MONO_TIME_MILLI :: u32 where "GET_MONO_TIME_MILLI = 7"
definition GET_MONO_TIME_NANO :: u32 where "GET_MONO_TIME_NANO = 8"
definition GET_THREAD_TIME_MILLI :: u32 where "GET_THREAD_TIME_MILLI = 9"
definition GET_THREAD_TIME_NANO :: u32 where "GET_THREAD_TIME_NANO = 10"
definition CREATE_TIMER :: u32 where "CREATE_TIMER = 11"
definition START_TIMER :: u32 where "START_TIMER = 12"
definition STOP_TIMER :: u32 where "STOP_TIMER = 13"
definition DESTORY_TIMER :: u32 where "DESTORY_TIMER = 14"
definition NETWORK_TIME_ON :: u32 where "NETWORK_TIME_ON = 15"
definition NETWORK_TIME_OFF :: u32 where "NETWORK_TIME_OFF = 16"
definition PROXY_TIMER :: u32 where "PROXY_TIMER = 17"
definition RESET_ALL_PROXY :: u32 where "RESET_ALL_PROXY = 18"

lemmas message_codes =
  SET_TIME_def SET_TIME_ZONE_def GET_TIME_ZONE_def GET_WALL_TIME_MILLI_def GET_WALL_TIME_NANO_def
  GET_BOOT_TIME_MILLI_def GET_BOOT_TIME_NANO_def GET_MONO_TIME_MILLI_def GET_MONO_TIME_NANO_def
  GET_THREAD_TIME_MILLI_def GET_THREAD_TIME_NANO_def CREATE_TIMER_def START_TIMER_def STOP_TIMER_def
  DESTORY_TIMER_def NETWORK_TIME_ON_def NETWORK_TIME_OFF_def PROXY_TIMER_def RESET_ALL_PROXY_def

definition ITimeService_descriptor :: string where
  "ITimeService_descriptor = ''ohos.miscservices.time.ITimeService''"

section \<open>Parcels\<close>

text \<open>What can be written: one constructor for each \<open>Write\<close> function.\<close>

datatype parcel_item =
  P_token string | P_int64 int | P_int32 int | P_uint64 u64 | P_bool bool | P_string string | P_remote "nat option"

text \<open>
  \<open>p_write\<close> is \<open>None\<close> when the write fails. \<open>p_default\<close> is what the library's own
  \<open>OnRemoteRequest\<close> answers to a code it does not know.
\<close>

record 'p parcel_ops =
  p_new :: 'p
  p_write :: "parcel_item \<Rightarrow> 'p \<Rightarrow> 'p option"
  p_ReadInterfaceToken :: "'p \<Rightarrow> string \<times> 'p"
  p_ReadInt64 :: "'p \<Rightarrow> int \<times> 'p"
  p_ReadInt32 :: "'p \<Rightarrow> int \<times> 'p"
  p_ReadUint64 :: "'p \<Rightarrow> u64 \<times> 'p"
  p_ReadBool :: "'p \<Rightarrow> bool \<times> 'p"
  p_ReadString :: "'p \<Rightarrow> string \<times> 'p"
  p_ReadRemoteObject :: "'p \<Rightarrow> nat option \<times> 'p"
  p_default :: "u32 \<Rightarrow> 'p \<Rightarrow> 'p \<Rightarrow> 'p \<times> time_error"

text \<open>A handler gets the message, the reply so far and the service.\<close>

type_synonym ('p, 's) handler = "'p \<Rightarrow> 'p \<Rightarrow> 's \<Rightarrow> ('s \<times> 'p \<times> time_error) option"
type_synonym ('p, 's) channel = "u32 \<Rightarrow> ('p, 's) handler"

text \<open>A write whose failure the code ignores.\<close>

definition put :: "'p parcel_ops \<Rightarrow> parcel_item \<Rightarrow> 'p \<Rightarrow> 'p" where
  "put ops x p = (case p_write ops x p of None \<Rightarrow> p | Some p' \<Rightarrow> p')"

section \<open>The stub\<close>

definition OnSetTime :: "'p parcel_ops \<Rightarrow> 's itime_service \<Rightarrow> ('p, 's) handler" where
  "OnSetTime ops svc data reply s =
     (let (time, data1) = p_ReadInt64 ops data in
      map_option (\<lambda>(s', ret). (s', reply, ret)) (it_SetTime svc time s))"

definition OnSetTimeZone :: "'p parcel_ops \<Rightarrow> 's itime_service \<Rightarrow> ('p, 's) handler" where
  "OnSetTimeZone ops svc data reply s =
     (let (timeZoneId, data1) = p_ReadString ops data in
      map_option (\<lambda>(s', ret). (s', reply, ret)) (it_SetTimeZone svc timeZoneId s))"

definition OnGetTimeZone :: "'p parcel_ops \<Rightarrow> 's itime_service \<Rightarrow> ('p, 's) handler" where
  "OnGetTimeZone ops svc data reply s =
     map_option (\<lambda>(s', r). case r of
         Inl ret \<Rightarrow> (s', reply, ret)
       | Inr timeZoneId \<Rightarrow> (s', put ops (P_string timeZoneId) reply, ERR_OK)) (it_GetTimeZone svc s)"

text \<open>What the eight functions that read a clock do with the result of the call.\<close>

definition reply_times :: "'p parcel_ops \<Rightarrow> 'p \<Rightarrow> ('s \<times> (time_error + int)) option \<Rightarrow> ('s \<times> 'p \<times> time_error) option" where
  "reply_times ops reply result =
     map_option (\<lambda>(s', r). case r of
         Inl ret \<Rightarrow> (s', reply, ret)
       | Inr t \<Rightarrow> (s', put ops (P_int64 t) reply, ERR_OK)) result"

definition OnGetWallTimeMs :: "'p parcel_ops \<Rightarrow> 's itime_service \<Rightarrow> ('p, 's) handler" where
  "OnGetWallTimeMs ops svc data reply s = reply_times ops reply (it_GetWallTimeMs svc s)"
definition OnGetWallTimeNs :: "'p parcel_ops \<Rightarrow> 's itime_service \<Rightarrow> ('p, 's) handler" where
  "OnGetWallTimeNs ops svc data reply s = reply_times ops reply (it_GetWallTimeNs svc s)"
definition OnGetBootTimeMs :: "'p parcel_ops \<Rightarrow> 's itime_service \<Rightarrow> ('p, 's) handler" where
  "OnGetBootTimeMs ops svc data reply s = reply_times ops reply (it_GetBootTimeMs svc s)"
definition OnGetBootTimeNs :: "'p parcel_ops \<Rightarrow> 's itime_service \<Rightarrow> ('p, 's) handler" where
  "OnGetBootTimeNs ops svc data reply s = reply_times ops reply (it_GetBootTimeNs svc s)"
definition OnGetMonotonicTimeMs :: "'p parcel_ops \<Rightarrow> 's itime_service \<Rightarrow> ('p, 's) handler" where
  "OnGetMonotonicTimeMs ops svc data reply s = reply_times ops reply (it_GetMonotonicTimeMs svc s)"
definition OnGetMonotonicTimeNs :: "'p parcel_ops \<Rightarrow> 's itime_service \<Rightarrow> ('p, 's) handler" where
  "OnGetMonotonicTimeNs ops svc data reply s = reply_times ops reply (it_GetMonotonicTimeNs svc s)"
definition OnGetThreadTimeMs :: "'p parcel_ops \<Rightarrow> 's itime_service \<Rightarrow> ('p, 's) handler" where
  "OnGetThreadTimeMs ops svc data reply s = reply_times ops reply (it_GetThreadTimeMs svc s)"
definition OnGetThreadTimeNs :: "'p parcel_ops \<Rightarrow> 's itime_service \<Rightarrow> ('p, 's) handler" where
  "OnGetThreadTimeNs ops svc data reply s = reply_times ops reply (it_GetThreadTimeNs svc s)"

definition OnCreateTimer :: "'p parcel_ops \<Rightarrow> 's itime_service \<Rightarrow> ('p, 's) handler" where
  "OnCreateTimer ops svc data reply s =
     (let (type, d1) = p_ReadInt32 ops data; (repeat, d2) = p_ReadBool ops d1; (interval, d3) = p_ReadUint64 ops d2;
          (obj, d4) = p_ReadRemoteObject ops d3
      in if obj = None then Some (s, reply, E_TIME_PARAMETERS_INVALID)
         else map_option (\<lambda>(s', timerId).
           if timerId = 0 then (s', reply, E_TIME_DEAL_FAILED)
           else case p_write ops (P_uint64 timerId) reply of
                  None \<Rightarrow> (s', reply, E_TIME_WRITE_PARCEL_ERROR)
                | Some reply' \<Rightarrow> (s', reply', ERR_OK)) (it_CreateTimer svc (word_of_int type) repeat interval obj s))"

text \<open>A \<open>bool\<close> becomes an error code.\<close>

definition reply_bool :: "'p \<Rightarrow> ('s \<times> bool) option \<Rightarrow> ('s \<times> 'p \<times> time_error) option" where
  "reply_bool reply result = map_option (\<lambda>(s', ok). (s', reply, if \<not> ok then E_TIME_DEAL_FAILED else ERR_OK)) result"

definition OnStartTimer :: "'p parcel_ops \<Rightarrow> 's itime_service \<Rightarrow> ('p, 's) handler" where
  "OnStartTimer ops svc data reply s =
     (let (timerId, d1) = p_ReadUint64 ops data; (triggerTime, d2) = p_ReadUint64 ops d1 in
      reply_bool reply (it_StartTimer svc timerId triggerTime s))"

definition OnStopTimer :: "'p parcel_ops \<Rightarrow> 's itime_service \<Rightarrow> ('p, 's) handler" where
  "OnStopTimer ops svc data reply s =
     (let (timerId, d1) = p_ReadUint64 ops data in reply_bool reply (it_StopTimer svc timerId s))"

definition OnDestoryTimer :: "'p parcel_ops \<Rightarrow> 's itime_service \<Rightarrow> ('p, 's) handler" where
  "OnDestoryTimer ops svc data reply s =
     (let (timerId, d1) = p_ReadUint64 ops data in reply_bool reply (it_DestroyTimer svc timerId s))"

definition OnNetworkTimeStatusOff :: "'p parcel_ops \<Rightarrow> 's itime_service \<Rightarrow> ('p, 's) handler" where
  "OnNetworkTimeStatusOff ops svc data reply s = map_option (\<lambda>s'. (s', reply, ERR_OK)) (it_NetworkTimeStatusOff svc s)"

definition OnNetworkTimeStatusOn :: "'p parcel_ops \<Rightarrow> 's itime_service \<Rightarrow> ('p, 's) handler" where
  "OnNetworkTimeStatusOn ops svc data reply s = map_option (\<lambda>s'. (s', reply, ERR_OK)) (it_NetworkTimeStatusOn svc s)"

definition OnTimerProxy :: "'p parcel_ops \<Rightarrow> 's itime_service \<Rightarrow> ('p, 's) handler" where
  "OnTimerProxy ops svc data reply s =
     (let (uid, d1) = p_ReadInt32 ops data in
      if uid = 0 then Some (s, reply, E_TIME_READ_PARCEL_ERROR)
      else let (isProxy, d2) = p_ReadBool ops d1; (needRetrigger, d3) = p_ReadBool ops d2 in
        reply_bool reply (it_ProxyTimer svc uid isProxy needRetrigger s))"

definition OnAllProxyReset :: "'p parcel_ops \<Rightarrow> 's itime_service \<Rightarrow> ('p, 's) handler" where
  "OnAllProxyReset ops svc data reply s = reply_bool reply (it_ResetAllProxy svc s)"

definition memberFuncMap :: "'p parcel_ops \<Rightarrow> 's itime_service \<Rightarrow> (u32, ('p, 's) handler) std_map" where
  "memberFuncMap ops svc =
     fold (\<lambda>(code, f) m. map_assign code f m)
       [(SET_TIME, OnSetTime ops svc), (SET_TIME_ZONE, OnSetTimeZone ops svc), (GET_TIME_ZONE, OnGetTimeZone ops svc),
        (GET_WALL_TIME_MILLI, OnGetWallTimeMs ops svc), (GET_WALL_TIME_NANO, OnGetWallTimeNs ops svc),
        (GET_BOOT_TIME_MILLI, OnGetBootTimeMs ops svc), (GET_BOOT_TIME_NANO, OnGetBootTimeNs ops svc),
        (GET_MONO_TIME_MILLI, OnGetMonotonicTimeMs ops svc), (GET_MONO_TIME_NANO, OnGetMonotonicTimeNs ops svc),
        (GET_THREAD_TIME_MILLI, OnGetThreadTimeMs ops svc), (GET_THREAD_TIME_NANO, OnGetThreadTimeNs ops svc),
        (CREATE_TIMER, OnCreateTimer ops svc), (START_TIMER, OnStartTimer ops svc), (STOP_TIMER, OnStopTimer ops svc),
        (DESTORY_TIMER, OnDestoryTimer ops svc), (NETWORK_TIME_ON, OnNetworkTimeStatusOn ops svc),
        (NETWORK_TIME_OFF, OnNetworkTimeStatusOff ops svc), (PROXY_TIMER, OnTimerProxy ops svc),
        (RESET_ALL_PROXY, OnAllProxyReset ops svc)] []"

definition OnRemoteRequest :: "'p parcel_ops \<Rightarrow> 's itime_service \<Rightarrow> ('p, 's) channel" where
  "OnRemoteRequest ops svc code data reply s =
     (let (remoteDescripter, data1) = p_ReadInterfaceToken ops data in
      if ITimeService_descriptor \<noteq> remoteDescripter
      then (let (reply', ret) = p_default ops code data1 reply in Some (s, reply', ret))
      else case map_find (memberFuncMap ops svc) code of
             Some memberFunc \<Rightarrow> memberFunc data1 reply s
           | None \<Rightarrow> (let (reply', ret) = p_default ops code data1 reply in Some (s, reply', ret)))"

section \<open>The proxy\<close>

fun write_items :: "'p parcel_ops \<Rightarrow> parcel_item list \<Rightarrow> 'p \<Rightarrow> 'p option" where
  "write_items ops [] p = Some p"
| "write_items ops (x # xs) p = (case p_write ops x p of None \<Rightarrow> None | Some p' \<Rightarrow> write_items ops xs p')"

text \<open>
  Write the token and the arguments in order, stop at the first write that fails, and send the
  request: \<open>SendRequest\<close> is the channel.
\<close>

definition request :: "'p parcel_ops \<Rightarrow> ('p, 's) channel \<Rightarrow> u32 \<Rightarrow> parcel_item list \<Rightarrow> 's
  \<Rightarrow> ('s \<times> 'p \<times> time_error) option option" where
  "request ops ch code args s =
     (case write_items ops (P_token ITimeService_descriptor # args) (p_new ops) of
        None \<Rightarrow> None
      | Some data \<Rightarrow> Some (ch code data (p_new ops) s))"

definition error_of :: "'s \<Rightarrow> ('s \<times> 'p \<times> time_error) option option \<Rightarrow> ('s \<times> time_error) option" where
  "error_of s r = (case r of None \<Rightarrow> Some (s, E_TIME_WRITE_PARCEL_ERROR)
     | Some sent \<Rightarrow> map_option (\<lambda>(s', reply, result). (s', result)) sent)"

definition SetTime_proxy :: "'p parcel_ops \<Rightarrow> ('p, 's) channel \<Rightarrow> int \<Rightarrow> 's \<Rightarrow> ('s \<times> time_error) option" where
  "SetTime_proxy ops ch time s = error_of s (request ops ch SET_TIME [P_int64 time] s)"

definition SetTimeZone_proxy :: "'p parcel_ops \<Rightarrow> ('p, 's) channel \<Rightarrow> string \<Rightarrow> 's \<Rightarrow> ('s \<times> time_error) option" where
  "SetTimeZone_proxy ops ch timezoneId s = error_of s (request ops ch SET_TIME_ZONE [P_string timezoneId] s)"

definition CreateTimer_proxy ::
  "'p parcel_ops \<Rightarrow> ('p, 's) channel \<Rightarrow> i32 \<Rightarrow> bool \<Rightarrow> u64 \<Rightarrow> nat option \<Rightarrow> 's \<Rightarrow> ('s \<times> u64) option" where
  "CreateTimer_proxy ops ch type repeat interval timerCallback s =
     (case request ops ch CREATE_TIMER [P_int32 (sint type), P_bool repeat, P_uint64 interval, P_remote timerCallback] s of
        None \<Rightarrow> Some (s, 0)
      | Some sent \<Rightarrow>
          map_option (\<lambda>(s', reply, result). (s', if result \<noteq> ERR_OK then 0 else fst (p_ReadUint64 ops reply))) sent)"

definition bool_of :: "'s \<Rightarrow> ('s \<times> 'p \<times> time_error) option option \<Rightarrow> ('s \<times> bool) option" where
  "bool_of s r = (case r of None \<Rightarrow> Some (s, False)
     | Some sent \<Rightarrow> map_option (\<lambda>(s', reply, result). (s', result = ERR_OK)) sent)"

definition StartTimer_proxy :: "'p parcel_ops \<Rightarrow> ('p, 's) channel \<Rightarrow> u64 \<Rightarrow> u64 \<Rightarrow> 's \<Rightarrow> ('s \<times> bool) option" where
  "StartTimer_proxy ops ch timerId triggerTimes s =
     bool_of s (request ops ch START_TIMER [P_uint64 timerId, P_uint64 triggerTimes] s)"

definition StopTimer_proxy :: "'p parcel_ops \<Rightarrow> ('p, 's) channel \<Rightarrow> u64 \<Rightarrow> 's \<Rightarrow> ('s \<times> bool) option" where
  "StopTimer_proxy ops ch timerId s = bool_of s (request ops ch STOP_TIMER [P_uint64 timerId] s)"

definition DestroyTimer_proxy :: "'p parcel_ops \<Rightarrow> ('p, 's) channel \<Rightarrow> u64 \<Rightarrow> 's \<Rightarrow> ('s \<times> bool) option" where
  "DestroyTimer_proxy ops ch timerId s = bool_of s (request ops ch DESTORY_TIMER [P_uint64 timerId] s)"

text \<open>The functions with an output parameter, which is read from the reply on success.\<close>

definition value_of :: "('p \<Rightarrow> 'v \<times> 'p) \<Rightarrow> 's \<Rightarrow> ('s \<times> 'p \<times> time_error) option option \<Rightarrow> ('s \<times> (time_error + 'v)) option" where
  "value_of read s r = (case r of None \<Rightarrow> Some (s, Inl E_TIME_WRITE_PARCEL_ERROR)
     | Some sent \<Rightarrow>
         map_option (\<lambda>(s', reply, result). (s', if result \<noteq> ERR_OK then Inl result else Inr (fst (read reply)))) sent)"

definition GetTimeZone_proxy :: "'p parcel_ops \<Rightarrow> ('p, 's) channel \<Rightarrow> 's \<Rightarrow> ('s \<times> (time_error + string)) option" where
  "GetTimeZone_proxy ops ch s = value_of (p_ReadString ops) s (request ops ch GET_TIME_ZONE [] s)"
definition GetWallTimeMs_proxy :: "'p parcel_ops \<Rightarrow> ('p, 's) channel \<Rightarrow> 's \<Rightarrow> ('s \<times> (time_error + int)) option" where
  "GetWallTimeMs_proxy ops ch s = value_of (p_ReadInt64 ops) s (request ops ch GET_WALL_TIME_MILLI [] s)"
definition GetWallTimeNs_proxy :: "'p parcel_ops \<Rightarrow> ('p, 's) channel \<Rightarrow> 's \<Rightarrow> ('s \<times> (time_error + int)) option" where
  "GetWallTimeNs_proxy ops ch s = value_of (p_ReadInt64 ops) s (request ops ch GET_WALL_TIME_NANO [] s)"
definition GetBootTimeMs_proxy :: "'p parcel_ops \<Rightarrow> ('p, 's) channel \<Rightarrow> 's \<Rightarrow> ('s \<times> (time_error + int)) option" where
  "GetBootTimeMs_proxy ops ch s = value_of (p_ReadInt64 ops) s (request ops ch GET_BOOT_TIME_MILLI [] s)"
definition GetBootTimeNs_proxy :: "'p parcel_ops \<Rightarrow> ('p, 's) channel \<Rightarrow> 's \<Rightarrow> ('s \<times> (time_error + int)) option" where
  "GetBootTimeNs_proxy ops ch s = value_of (p_ReadInt64 ops) s (request ops ch GET_BOOT_TIME_NANO [] s)"
definition GetMonotonicTimeMs_proxy :: "'p parcel_ops \<Rightarrow> ('p, 's) channel \<Rightarrow> 's \<Rightarrow> ('s \<times> (time_error + int)) option" where
  "GetMonotonicTimeMs_proxy ops ch s = value_of (p_ReadInt64 ops) s (request ops ch GET_MONO_TIME_MILLI [] s)"
definition GetMonotonicTimeNs_proxy :: "'p parcel_ops \<Rightarrow> ('p, 's) channel \<Rightarrow> 's \<Rightarrow> ('s \<times> (time_error + int)) option" where
  "GetMonotonicTimeNs_proxy ops ch s = value_of (p_ReadInt64 ops) s (request ops ch GET_MONO_TIME_NANO [] s)"
definition GetThreadTimeMs_proxy :: "'p parcel_ops \<Rightarrow> ('p, 's) channel \<Rightarrow> 's \<Rightarrow> ('s \<times> (time_error + int)) option" where
  "GetThreadTimeMs_proxy ops ch s = value_of (p_ReadInt64 ops) s (request ops ch GET_THREAD_TIME_MILLI [] s)"
definition GetThreadTimeNs_proxy :: "'p parcel_ops \<Rightarrow> ('p, 's) channel \<Rightarrow> 's \<Rightarrow> ('s \<times> (time_error + int)) option" where
  "GetThreadTimeNs_proxy ops ch s = value_of (p_ReadInt64 ops) s (request ops ch GET_THREAD_TIME_NANO [] s)"

definition state_of :: "'s \<Rightarrow> ('s \<times> 'p \<times> time_error) option option \<Rightarrow> 's option" where
  "state_of s r = (case r of None \<Rightarrow> Some s | Some sent \<Rightarrow> map_option fst sent)"

definition NetworkTimeStatusOn_proxy :: "'p parcel_ops \<Rightarrow> ('p, 's) channel \<Rightarrow> 's \<Rightarrow> 's option" where
  "NetworkTimeStatusOn_proxy ops ch s = state_of s (request ops ch NETWORK_TIME_ON [] s)"
definition NetworkTimeStatusOff_proxy :: "'p parcel_ops \<Rightarrow> ('p, 's) channel \<Rightarrow> 's \<Rightarrow> 's option" where
  "NetworkTimeStatusOff_proxy ops ch s = state_of s (request ops ch NETWORK_TIME_OFF [] s)"

definition ProxyTimer_proxy :: "'p parcel_ops \<Rightarrow> ('p, 's) channel \<Rightarrow> int \<Rightarrow> bool \<Rightarrow> bool \<Rightarrow> 's \<Rightarrow> ('s \<times> bool) option" where
  "ProxyTimer_proxy ops ch uid isProxy needRetrigger s =
     bool_of s (request ops ch PROXY_TIMER [P_int32 uid, P_bool isProxy, P_bool needRetrigger] s)"

definition ResetAllProxy_proxy :: "'p parcel_ops \<Rightarrow> ('p, 's) channel \<Rightarrow> 's \<Rightarrow> ('s \<times> bool) option" where
  "ResetAllProxy_proxy ops ch s = bool_of s (request ops ch RESET_ALL_PROXY [] s)"

text \<open>The proxy as an implementation of the interface.\<close>

definition TimeServiceProxy :: "'p parcel_ops \<Rightarrow> ('p, 's) channel \<Rightarrow> 's itime_service" where
  "TimeServiceProxy ops ch =
     \<lparr>it_SetTime = SetTime_proxy ops ch, it_SetTimeZone = SetTimeZone_proxy ops ch,
      it_GetTimeZone = GetTimeZone_proxy ops ch,
      it_GetWallTimeMs = GetWallTimeMs_proxy ops ch, it_GetWallTimeNs = GetWallTimeNs_proxy ops ch,
      it_GetBootTimeMs = GetBootTimeMs_proxy ops ch, it_GetBootTimeNs = GetBootTimeNs_proxy ops ch,
      it_GetMonotonicTimeMs = GetMonotonicTimeMs_proxy ops ch, it_GetMonotonicTimeNs = GetMonotonicTimeNs_proxy ops ch,
      it_GetThreadTimeMs = GetThreadTimeMs_proxy ops ch, it_GetThreadTimeNs = GetThreadTimeNs_proxy ops ch,
      it_CreateTimer = CreateTimer_proxy ops ch, it_StartTimer = StartTimer_proxy ops ch,
      it_StopTimer = StopTimer_proxy ops ch, it_DestroyTimer = DestroyTimer_proxy ops ch,
      it_NetworkTimeStatusOff = NetworkTimeStatusOff_proxy ops ch, it_NetworkTimeStatusOn = NetworkTimeStatusOn_proxy ops ch,
      it_ProxyTimer = ProxyTimer_proxy ops ch, it_ResetAllProxy = ResetAllProxy_proxy ops ch\<rparr>"

end
