(* ===== verification/Ipc_Properties.thy ===== *)
theory Ipc_Properties
  imports Time_Ipc
begin

text \<open>
  A remote call is a call: through the proxy, a parcel and the stub, every function of the
  interface gives what it gives when it is called directly.
\<close>

section \<open>What the parcel documents\<close>

text \<open>\<open>contents\<close> is the items of a parcel that have not been read, in order.\<close>

definition reads :: "('p \<Rightarrow> parcel_item list) \<Rightarrow> ('v \<Rightarrow> parcel_item) \<Rightarrow> ('p \<Rightarrow> 'v \<times> 'p) \<Rightarrow> bool" where
  "reads contents item read \<longleftrightarrow>
     (\<forall>p v rest. contents p = item v # rest \<longrightarrow> fst (read p) = v \<and> contents (snd (read p)) = rest)"

definition parcel_documented :: "'p parcel_ops \<Rightarrow> ('p \<Rightarrow> parcel_item list) \<Rightarrow> bool" where
  "parcel_documented ops contents \<longleftrightarrow>
     contents (p_new ops) = [] \<and>
     (\<forall>x p p'. p_write ops x p = Some p' \<longrightarrow> contents p' = contents p @ [x]) \<and>
     reads contents P_token (p_ReadInterfaceToken ops) \<and> reads contents P_int64 (p_ReadInt64 ops) \<and>
     reads contents P_int32 (p_ReadInt32 ops) \<and> reads contents P_uint64 (p_ReadUint64 ops) \<and>
     reads contents P_bool (p_ReadBool ops) \<and> reads contents P_string (p_ReadString ops) \<and>
     reads contents P_remote (p_ReadRemoteObject ops)"

text \<open>No write fails: there is memory for the parcels.\<close>

definition parcel_room :: "'p parcel_ops \<Rightarrow> bool" where
  "parcel_room ops \<longleftrightarrow> (\<forall>x p. p_write ops x p \<noteq> None)"

lemma readsD: "reads contents item read \<Longrightarrow> contents p = item v # rest \<Longrightarrow> \<exists>p'. read p = (v, p') \<and> contents p' = rest"
  unfolding reads_def by (metis prod.collapse)

lemma contents_new: "parcel_documented ops contents \<Longrightarrow> contents (p_new ops) = []"
  by (simp add: parcel_documented_def)

lemma contents_put:
  "parcel_documented ops contents \<Longrightarrow> parcel_room ops \<Longrightarrow> contents (put ops x p) = contents p @ [x]"
  by (auto simp: parcel_documented_def parcel_room_def put_def split: option.splits)

lemma write_room: "parcel_room ops \<Longrightarrow> p_write ops x p = Some (put ops x p)"
  by (auto simp: parcel_room_def put_def split: option.splits)

lemma write_items_room:
  "parcel_documented ops contents \<Longrightarrow> parcel_room ops \<Longrightarrow>
    \<exists>p'. write_items ops xs p = Some p' \<and> contents p' = contents p @ xs"
proof (induction xs arbitrary: p)
  case (Cons x xs)
  then show ?case using Cons.IH [of "put ops x p"] by (auto simp: write_room contents_put)
qed simp

lemma documented_reads:
  assumes "parcel_documented ops contents"
  shows "contents p = P_token t # rest \<Longrightarrow> \<exists>p'. p_ReadInterfaceToken ops p = (t, p') \<and> contents p' = rest"
    and "contents p = P_int64 i # rest \<Longrightarrow> \<exists>p'. p_ReadInt64 ops p = (i, p') \<and> contents p' = rest"
    and "contents p = P_int32 i # rest \<Longrightarrow> \<exists>p'. p_ReadInt32 ops p = (i, p') \<and> contents p' = rest"
    and "contents p = P_uint64 u # rest \<Longrightarrow> \<exists>p'. p_ReadUint64 ops p = (u, p') \<and> contents p' = rest"
    and "contents p = P_bool b # rest \<Longrightarrow> \<exists>p'. p_ReadBool ops p = (b, p') \<and> contents p' = rest"
    and "contents p = P_string t # rest \<Longrightarrow> \<exists>p'. p_ReadString ops p = (t, p') \<and> contents p' = rest"
    and "contents p = P_remote r # rest \<Longrightarrow> \<exists>p'. p_ReadRemoteObject ops p = (r, p') \<and> contents p' = rest"
  using assms unfolding parcel_documented_def by (blast dest: readsD)+

section \<open>From the proxy to the handler\<close>

lemma memberFuncMap_find [simp]:
  "map_find (memberFuncMap ops svc) SET_TIME = Some (OnSetTime ops svc)"
  "map_find (memberFuncMap ops svc) SET_TIME_ZONE = Some (OnSetTimeZone ops svc)"
  "map_find (memberFuncMap ops svc) GET_TIME_ZONE = Some (OnGetTimeZone ops svc)"
  "map_find (memberFuncMap ops svc) GET_WALL_TIME_MILLI = Some (OnGetWallTimeMs ops svc)"
  "map_find (memberFuncMap ops svc) GET_WALL_TIME_NANO = Some (OnGetWallTimeNs ops svc)"
  "map_find (memberFuncMap ops svc) GET_BOOT_TIME_MILLI = Some (OnGetBootTimeMs ops svc)"
  "map_find (memberFuncMap ops svc) GET_BOOT_TIME_NANO = Some (OnGetBootTimeNs ops svc)"
  "map_find (memberFuncMap ops svc) GET_MONO_TIME_MILLI = Some (OnGetMonotonicTimeMs ops svc)"
  "map_find (memberFuncMap ops svc) GET_MONO_TIME_NANO = Some (OnGetMonotonicTimeNs ops svc)"
  "map_find (memberFuncMap ops svc) GET_THREAD_TIME_MILLI = Some (OnGetThreadTimeMs ops svc)"
  "map_find (memberFuncMap ops svc) GET_THREAD_TIME_NANO = Some (OnGetThreadTimeNs ops svc)"
  "map_find (memberFuncMap ops svc) CREATE_TIMER = Some (OnCreateTimer ops svc)"
  "map_find (memberFuncMap ops svc) START_TIMER = Some (OnStartTimer ops svc)"
  "map_find (memberFuncMap ops svc) STOP_TIMER = Some (OnStopTimer ops svc)"
  "map_find (memberFuncMap ops svc) DESTORY_TIMER = Some (OnDestoryTimer ops svc)"
  "map_find (memberFuncMap ops svc) NETWORK_TIME_ON = Some (OnNetworkTimeStatusOn ops svc)"
  "map_find (memberFuncMap ops svc) NETWORK_TIME_OFF = Some (OnNetworkTimeStatusOff ops svc)"
  "map_find (memberFuncMap ops svc) PROXY_TIMER = Some (OnTimerProxy ops svc)"
  "map_find (memberFuncMap ops svc) RESET_ALL_PROXY = Some (OnAllProxyReset ops svc)"
  by (simp_all add: memberFuncMap_def message_codes map_find_def)

text \<open>A request reaches its handler with the arguments as they were written.\<close>

lemma request_handled:
  assumes "parcel_documented ops contents" "parcel_room ops" "map_find (memberFuncMap ops svc) code = Some f"
  shows "\<exists>data. request ops (OnRemoteRequest ops svc) code args s = Some (f data (p_new ops) s) \<and> contents data = args"
proof -
  obtain d where d: "write_items ops (P_token ITimeService_descriptor # args) (p_new ops) = Some d"
    "contents d = P_token ITimeService_descriptor # args"
    using write_items_room [OF assms(1,2), of "P_token ITimeService_descriptor # args" "p_new ops"] contents_new [OF assms(1)]
    by auto
  obtain d1 where "p_ReadInterfaceToken ops d = (ITimeService_descriptor, d1)" "contents d1 = args"
    using documented_reads(1) [OF assms(1) d(2)] by blast
  then show ?thesis using assms(3) by (auto simp: request_def OnRemoteRequest_def d(1) simp del: write_items.simps)
qed

text \<open>One lemma for each kind of function.\<close>

lemma reply_times_value:
  assumes "parcel_documented ops contents" "parcel_room ops"
    and "\<And>s' e. r = Some (s', Inl e) \<Longrightarrow> e \<noteq> ERR_OK"
  shows "value_of (p_ReadInt64 ops) s (Some (reply_times ops (p_new ops) r)) = r"
proof (cases r)
  case (Some x)
  obtain s' v where x: "x = (s', v)" by (cases x)
  have c: "contents (put ops (P_int64 t) (p_new ops)) = [P_int64 t]" for t
    using contents_put [OF assms(1,2)] contents_new [OF assms(1)] by simp
  have "fst (p_ReadInt64 ops (put ops (P_int64 t) (p_new ops))) = t" for t
    using documented_reads(2) [OF assms(1) c, of t] by auto
  then show ?thesis
    using assms(3) [of s'] by (cases v) (auto simp: value_of_def reply_times_def Some x)
qed (simp add: value_of_def reply_times_def)

lemma reply_bool_of: "bool_of s (Some (reply_bool reply r)) = r"
  by (cases r) (auto simp: bool_of_def reply_bool_def split: if_splits)

text \<open>
  A service whose reading functions never fail with \<open>ERR_OK\<close>. A creation that fails answers 0.
\<close>

definition proper_errors :: "'s itime_service \<Rightarrow> bool" where
  "proper_errors svc \<longleftrightarrow>
     (\<forall>s s'. it_GetTimeZone svc s \<noteq> Some (s', Inl ERR_OK)) \<and>
     (\<forall>f \<in> {it_GetWallTimeMs svc, it_GetWallTimeNs svc, it_GetBootTimeMs svc, it_GetBootTimeNs svc,
            it_GetMonotonicTimeMs svc, it_GetMonotonicTimeNs svc, it_GetThreadTimeMs svc, it_GetThreadTimeNs svc}.
        \<forall>s s'. f s \<noteq> Some (s', Inl ERR_OK))"

text \<open>What the stub refuses itself: a timer without a callback object, and the proxy for user 0.\<close>

definition guarded :: "'s itime_service \<Rightarrow> 's itime_service" where
  "guarded svc = svc
     \<lparr>it_CreateTimer := (\<lambda>type repeat interval obj s.
        if obj = None then Some (s, 0) else it_CreateTimer svc type repeat interval obj s),
      it_ProxyTimer := (\<lambda>uid isProxy needRetrigger s.
        if uid = 0 then Some (s, False) else it_ProxyTimer svc uid isProxy needRetrigger s)\<rparr>"

text \<open>The functions that read: what is written into the reply is what is read from it.\<close>

lemma remote_clocks:
  assumes "parcel_documented ops contents" "parcel_room ops" "proper_errors svc"
  shows "GetWallTimeMs_proxy ops (OnRemoteRequest ops svc) = it_GetWallTimeMs svc"
    and "GetWallTimeNs_proxy ops (OnRemoteRequest ops svc) = it_GetWallTimeNs svc"
    and "GetBootTimeMs_proxy ops (OnRemoteRequest ops svc) = it_GetBootTimeMs svc"
    and "GetBootTimeNs_proxy ops (OnRemoteRequest ops svc) = it_GetBootTimeNs svc"
    and "GetMonotonicTimeMs_proxy ops (OnRemoteRequest ops svc) = it_GetMonotonicTimeMs svc"
    and "GetMonotonicTimeNs_proxy ops (OnRemoteRequest ops svc) = it_GetMonotonicTimeNs svc"
    and "GetThreadTimeMs_proxy ops (OnRemoteRequest ops svc) = it_GetThreadTimeMs svc"
    and "GetThreadTimeNs_proxy ops (OnRemoteRequest ops svc) = it_GetThreadTimeNs svc"
proof -
  have *: "value_of (p_ReadInt64 ops) s (request ops (OnRemoteRequest ops svc) code [] s) = get s"
    if code: "map_find (memberFuncMap ops svc) code = Some (\<lambda>data reply s. reply_times ops reply (get s))"
      and get: "get \<in> {it_GetWallTimeMs svc, it_GetWallTimeNs svc, it_GetBootTimeMs svc, it_GetBootTimeNs svc,
        it_GetMonotonicTimeMs svc, it_GetMonotonicTimeNs svc, it_GetThreadTimeMs svc, it_GetThreadTimeNs svc}"
    for code get s
  proof -
    have e: "e \<noteq> ERR_OK" if g: "get s = Some (s', Inl e)" for s' e
      using assms(3) get g unfolding proper_errors_def by blast
    obtain data where "request ops (OnRemoteRequest ops svc) code [] s = Some (reply_times ops (p_new ops) (get s))"
      using request_handled [OF assms(1,2) code, where args = "[]" and s = s] by blast
    with reply_times_value [OF assms(1,2) e] show ?thesis by simp
  qed
  have eta: "OnGetWallTimeMs ops svc = (\<lambda>data reply s. reply_times ops reply (it_GetWallTimeMs svc s))"
    "OnGetWallTimeNs ops svc = (\<lambda>data reply s. reply_times ops reply (it_GetWallTimeNs svc s))"
    "OnGetBootTimeMs ops svc = (\<lambda>data reply s. reply_times ops reply (it_GetBootTimeMs svc s))"
    "OnGetBootTimeNs ops svc = (\<lambda>data reply s. reply_times ops reply (it_GetBootTimeNs svc s))"
    "OnGetMonotonicTimeMs ops svc = (\<lambda>data reply s. reply_times ops reply (it_GetMonotonicTimeMs svc s))"
    "OnGetMonotonicTimeNs ops svc = (\<lambda>data reply s. reply_times ops reply (it_GetMonotonicTimeNs svc s))"
    "OnGetThreadTimeMs ops svc = (\<lambda>data reply s. reply_times ops reply (it_GetThreadTimeMs svc s))"
    "OnGetThreadTimeNs ops svc = (\<lambda>data reply s. reply_times ops reply (it_GetThreadTimeNs svc s))"
    by (simp_all add: fun_eq_iff OnGetWallTimeMs_def OnGetWallTimeNs_def OnGetBootTimeMs_def OnGetBootTimeNs_def
        OnGetMonotonicTimeMs_def OnGetMonotonicTimeNs_def OnGetThreadTimeMs_def OnGetThreadTimeNs_def)
  show "GetWallTimeMs_proxy ops (OnRemoteRequest ops svc) = it_GetWallTimeMs svc"
    "GetWallTimeNs_proxy ops (OnRemoteRequest ops svc) = it_GetWallTimeNs svc"
    "GetBootTimeMs_proxy ops (OnRemoteRequest ops svc) = it_GetBootTimeMs svc"
    "GetBootTimeNs_proxy ops (OnRemoteRequest ops svc) = it_GetBootTimeNs svc"
    "GetMonotonicTimeMs_proxy ops (OnRemoteRequest ops svc) = it_GetMonotonicTimeMs svc"
    "GetMonotonicTimeNs_proxy ops (OnRemoteRequest ops svc) = it_GetMonotonicTimeNs svc"
    "GetThreadTimeMs_proxy ops (OnRemoteRequest ops svc) = it_GetThreadTimeMs svc"
    "GetThreadTimeNs_proxy ops (OnRemoteRequest ops svc) = it_GetThreadTimeNs svc"
    unfolding fun_eq_iff GetWallTimeMs_proxy_def GetWallTimeNs_proxy_def GetBootTimeMs_proxy_def GetBootTimeNs_proxy_def
      GetMonotonicTimeMs_proxy_def GetMonotonicTimeNs_proxy_def GetThreadTimeMs_proxy_def GetThreadTimeNs_proxy_def
    by (rule allI, rule *, simp_all only: memberFuncMap_find eta, simp)+
qed

lemma remote_zone:
  assumes "parcel_documented ops contents" "parcel_room ops" "proper_errors svc"
  shows "GetTimeZone_proxy ops (OnRemoteRequest ops svc) = it_GetTimeZone svc"
proof
  fix s
  have c: "contents (put ops (P_string t) (p_new ops)) = [P_string t]" for t
    using contents_put [OF assms(1,2)] contents_new [OF assms(1)] by simp
  have r: "fst (p_ReadString ops (put ops (P_string t) (p_new ops))) = t" for t
    using documented_reads(6) [OF assms(1) c, of t] by auto
  have e: "e \<noteq> ERR_OK" if "it_GetTimeZone svc s = Some (s', Inl e)" for s' e
    using assms(3) that unfolding proper_errors_def by blast
  obtain d where d: "request ops (OnRemoteRequest ops svc) GET_TIME_ZONE [] s = Some (OnGetTimeZone ops svc d (p_new ops) s)"
    using request_handled [OF assms(1,2) memberFuncMap_find(3), where svc = svc and args = "[]" and s = s] by blast
  show "GetTimeZone_proxy ops (OnRemoteRequest ops svc) s = it_GetTimeZone svc s"
  proof (cases "it_GetTimeZone svc s")
    case (Some x)
    then show ?thesis using e r
      by (cases x; cases "snd x") (auto simp: GetTimeZone_proxy_def d OnGetTimeZone_def value_of_def)
  qed (simp add: GetTimeZone_proxy_def d OnGetTimeZone_def value_of_def)
qed

lemma error_of_ret: "error_of s (Some (map_option (\<lambda>(s', ret). (s', reply, ret)) r)) = r"
  by (cases r) (auto simp: error_of_def)

lemma remote_setters:
  assumes "parcel_documented ops contents" "parcel_room ops"
  shows "SetTime_proxy ops (OnRemoteRequest ops svc) = it_SetTime svc"
    and "SetTimeZone_proxy ops (OnRemoteRequest ops svc) = it_SetTimeZone svc"
proof -
  note h = request_handled [OF assms]
  note rd = documented_reads [OF assms(1)]
  show "SetTime_proxy ops (OnRemoteRequest ops svc) = it_SetTime svc"
  proof (intro ext)
    fix t s
    obtain d where "request ops (OnRemoteRequest ops svc) SET_TIME [P_int64 t] s = Some (OnSetTime ops svc d (p_new ops) s)"
      "contents d = [P_int64 t]" using h [OF memberFuncMap_find(1), where svc = svc and args = "[P_int64 t]" and s = s] by blast
    then show "SetTime_proxy ops (OnRemoteRequest ops svc) t s = it_SetTime svc t s"
      using rd(2) [of d t] by (auto simp: SetTime_proxy_def OnSetTime_def error_of_ret)
  qed
  show "SetTimeZone_proxy ops (OnRemoteRequest ops svc) = it_SetTimeZone svc"
  proof (intro ext)
    fix t s
    obtain d where "request ops (OnRemoteRequest ops svc) SET_TIME_ZONE [P_string t] s = Some (OnSetTimeZone ops svc d (p_new ops) s)"
      "contents d = [P_string t]" using h [OF memberFuncMap_find(2), where svc = svc and args = "[P_string t]" and s = s] by blast
    then show "SetTimeZone_proxy ops (OnRemoteRequest ops svc) t s = it_SetTimeZone svc t s"
      using rd(6) [of d t] by (auto simp: SetTimeZone_proxy_def OnSetTimeZone_def error_of_ret)
  qed
qed

lemma remote_timers:
  assumes "parcel_documented ops contents" "parcel_room ops"
  shows "StartTimer_proxy ops (OnRemoteRequest ops svc) = it_StartTimer svc"
    and "StopTimer_proxy ops (OnRemoteRequest ops svc) = it_StopTimer svc"
    and "DestroyTimer_proxy ops (OnRemoteRequest ops svc) = it_DestroyTimer svc"
proof -
  note h = request_handled [OF assms]
  note rd = documented_reads(4) [OF assms(1)]
  show "StartTimer_proxy ops (OnRemoteRequest ops svc) = it_StartTimer svc"
  proof (intro ext)
    fix n t s
    obtain d where d: "request ops (OnRemoteRequest ops svc) START_TIMER [P_uint64 n, P_uint64 t] s =
        Some (OnStartTimer ops svc d (p_new ops) s)" "contents d = [P_uint64 n, P_uint64 t]"
      using h [OF memberFuncMap_find(13), where svc = svc and args = "[P_uint64 n, P_uint64 t]" and s = s] by blast
    obtain d1 where d1: "p_ReadUint64 ops d = (n, d1)" "contents d1 = [P_uint64 t]" using rd [OF d(2)] by blast
    obtain d2 where "p_ReadUint64 ops d1 = (t, d2)" using rd [OF d1(2)] by blast
    then show "StartTimer_proxy ops (OnRemoteRequest ops svc) n t s = it_StartTimer svc n t s"
      using d d1 by (simp add: StartTimer_proxy_def OnStartTimer_def reply_bool_of)
  qed
  show "StopTimer_proxy ops (OnRemoteRequest ops svc) = it_StopTimer svc"
  proof (intro ext)
    fix n s
    obtain d where d: "request ops (OnRemoteRequest ops svc) STOP_TIMER [P_uint64 n] s =
        Some (OnStopTimer ops svc d (p_new ops) s)" "contents d = [P_uint64 n]"
      using h [OF memberFuncMap_find(14), where svc = svc and args = "[P_uint64 n]" and s = s] by blast
    then show "StopTimer_proxy ops (OnRemoteRequest ops svc) n s = it_StopTimer svc n s"
      using rd [OF d(2)] by (auto simp: StopTimer_proxy_def OnStopTimer_def reply_bool_of)
  qed
  show "DestroyTimer_proxy ops (OnRemoteRequest ops svc) = it_DestroyTimer svc"
  proof (intro ext)
    fix n s
    obtain d where d: "request ops (OnRemoteRequest ops svc) DESTORY_TIMER [P_uint64 n] s =
        Some (OnDestoryTimer ops svc d (p_new ops) s)" "contents d = [P_uint64 n]"
      using h [OF memberFuncMap_find(15), where svc = svc and args = "[P_uint64 n]" and s = s] by blast
    then show "DestroyTimer_proxy ops (OnRemoteRequest ops svc) n s = it_DestroyTimer svc n s"
      using rd [OF d(2)] by (auto simp: DestroyTimer_proxy_def OnDestoryTimer_def reply_bool_of)
  qed
qed

lemma remote_create:
  assumes "parcel_documented ops contents" "parcel_room ops"
  shows "CreateTimer_proxy ops (OnRemoteRequest ops svc) = it_CreateTimer (guarded svc)"
proof (intro ext)
  fix type :: i32 and rep interval obj s
  let ?args = "[P_int32 (sint type), P_bool rep, P_uint64 interval, P_remote obj]"
  obtain d where d: "request ops (OnRemoteRequest ops svc) CREATE_TIMER ?args s =
      Some (OnCreateTimer ops svc d (p_new ops) s)" "contents d = ?args"
    using request_handled [OF assms memberFuncMap_find(12), where svc = svc and args = ?args and s = s] by blast
  note rd = documented_reads [OF assms(1)]
  obtain d1 where d1: "p_ReadInt32 ops d = (sint type, d1)" "contents d1 = tl ?args" using rd(3) [OF d(2)] by auto
  obtain d2 where d2: "p_ReadBool ops d1 = (rep, d2)" "contents d2 = [P_uint64 interval, P_remote obj]"
    using rd(5) [of d1 rep] d1(2) by auto
  obtain d3 where d3: "p_ReadUint64 ops d2 = (interval, d3)" "contents d3 = [P_remote obj]" using rd(4) [OF d2(2)] by auto
  obtain d4 where d4: "p_ReadRemoteObject ops d3 = (obj, d4)" using rd(7) [OF d3(2)] by auto
  have c: "contents (put ops (P_uint64 n) (p_new ops)) = [P_uint64 n]" for n
    using contents_put [OF assms] contents_new [OF assms(1)] by simp
  have r: "fst (p_ReadUint64 ops (put ops (P_uint64 n) (p_new ops))) = n" for n
    using rd(4) [OF c, of n] by auto
  have eq: "CreateTimer_proxy ops (OnRemoteRequest ops svc) type rep interval obj s =
      map_option (\<lambda>(s', reply, result). (s', if result \<noteq> ERR_OK then 0 else fst (p_ReadUint64 ops reply)))
        (OnCreateTimer ops svc d (p_new ops) s)"
    by (simp add: CreateTimer_proxy_def d(1))
  show "CreateTimer_proxy ops (OnRemoteRequest ops svc) type rep interval obj s =
      it_CreateTimer (guarded svc) type rep interval obj s"
  proof (cases "it_CreateTimer svc type rep interval obj s")
    case (Some x)
    then show ?thesis
      unfolding eq by (cases x; cases "snd x = 0"; cases "obj = None")
        (auto simp: OnCreateTimer_def d1 d2 d3 d4 guarded_def r write_room [OF assms(2)])
  qed (simp add: eq OnCreateTimer_def d1 d2 d3 d4 guarded_def)
qed

lemma remote_proxy:
  assumes "parcel_documented ops contents" "parcel_room ops"
  shows "ProxyTimer_proxy ops (OnRemoteRequest ops svc) = it_ProxyTimer (guarded svc)"
    and "ResetAllProxy_proxy ops (OnRemoteRequest ops svc) = it_ResetAllProxy svc"
proof -
  note rd = documented_reads [OF assms(1)]
  show "ProxyTimer_proxy ops (OnRemoteRequest ops svc) = it_ProxyTimer (guarded svc)"
  proof (intro ext)
    fix uid p r s
    obtain d where d: "request ops (OnRemoteRequest ops svc) PROXY_TIMER [P_int32 uid, P_bool p, P_bool r] s =
        Some (OnTimerProxy ops svc d (p_new ops) s)" "contents d = [P_int32 uid, P_bool p, P_bool r]"
      using request_handled [OF assms memberFuncMap_find(18), where svc = svc and args = "[P_int32 uid, P_bool p, P_bool r]" and s = s]
      by blast
    obtain d1 where d1: "p_ReadInt32 ops d = (uid, d1)" "contents d1 = [P_bool p, P_bool r]" using rd(3) [OF d(2)] by auto
    obtain d2 where d2: "p_ReadBool ops d1 = (p, d2)" "contents d2 = [P_bool r]" using rd(5) [OF d1(2)] by auto
    obtain d3 where "p_ReadBool ops d2 = (r, d3)" using rd(5) [OF d2(2)] by auto
    then show "ProxyTimer_proxy ops (OnRemoteRequest ops svc) uid p r s = it_ProxyTimer (guarded svc) uid p r s"
      by (simp add: ProxyTimer_proxy_def d OnTimerProxy_def d1 d2 guarded_def reply_bool_of) (simp add: bool_of_def)
  qed
  show "ResetAllProxy_proxy ops (OnRemoteRequest ops svc) = it_ResetAllProxy svc"
  proof
    fix s
    obtain d where "request ops (OnRemoteRequest ops svc) RESET_ALL_PROXY [] s = Some (OnAllProxyReset ops svc d (p_new ops) s)"
      using request_handled [OF assms memberFuncMap_find(19), where svc = svc and args = "[]" and s = s] by blast
    then show "ResetAllProxy_proxy ops (OnRemoteRequest ops svc) s = it_ResetAllProxy svc s"
      by (simp add: ResetAllProxy_proxy_def OnAllProxyReset_def reply_bool_of)
  qed
qed

lemma remote_status:
  assumes "parcel_documented ops contents" "parcel_room ops"
  shows "NetworkTimeStatusOn_proxy ops (OnRemoteRequest ops svc) = it_NetworkTimeStatusOn svc"
    and "NetworkTimeStatusOff_proxy ops (OnRemoteRequest ops svc) = it_NetworkTimeStatusOff svc"
proof -
  have st: "state_of s (Some (map_option (\<lambda>s'. (s', reply, ERR_OK)) r)) = r" for s reply r
    by (cases r) (auto simp: state_of_def)
  show "NetworkTimeStatusOn_proxy ops (OnRemoteRequest ops svc) = it_NetworkTimeStatusOn svc"
  proof
    fix s
    obtain d where "request ops (OnRemoteRequest ops svc) NETWORK_TIME_ON [] s = Some (OnNetworkTimeStatusOn ops svc d (p_new ops) s)"
      using request_handled [OF assms memberFuncMap_find(16), where svc = svc and args = "[]" and s = s] by blast
    then show "NetworkTimeStatusOn_proxy ops (OnRemoteRequest ops svc) s = it_NetworkTimeStatusOn svc s"
      by (simp add: NetworkTimeStatusOn_proxy_def OnNetworkTimeStatusOn_def st)
  qed
  show "NetworkTimeStatusOff_proxy ops (OnRemoteRequest ops svc) = it_NetworkTimeStatusOff svc"
  proof
    fix s
    obtain d where "request ops (OnRemoteRequest ops svc) NETWORK_TIME_OFF [] s = Some (OnNetworkTimeStatusOff ops svc d (p_new ops) s)"
      using request_handled [OF assms memberFuncMap_find(17), where svc = svc and args = "[]" and s = s] by blast
    then show "NetworkTimeStatusOff_proxy ops (OnRemoteRequest ops svc) s = it_NetworkTimeStatusOff svc s"
      by (simp add: NetworkTimeStatusOff_proxy_def OnNetworkTimeStatusOff_def st)
  qed
qed

lemma proxy_is_guarded:
  assumes "parcel_documented ops contents" "parcel_room ops" "proper_errors svc"
  shows "TimeServiceProxy ops (OnRemoteRequest ops svc) = guarded svc"
proof -
  note eqs = remote_clocks [OF assms] remote_zone [OF assms] remote_setters [OF assms(1,2)] remote_timers [OF assms(1,2)]
    remote_create [OF assms(1,2)] remote_proxy [OF assms(1,2)] remote_status [OF assms(1,2)]
  show ?thesis unfolding TimeServiceProxy_def eqs by (simp add: guarded_def)
qed

section \<open>An example\<close>

text \<open>A parcel that is the list of its items, and never runs out of memory.\<close>

definition list_parcel :: "parcel_item list parcel_ops" where
  "list_parcel = \<lparr>p_new = [], p_write = (\<lambda>x p. Some (p @ [x])),
     p_ReadInterfaceToken = (\<lambda>p. case p of P_token v # r \<Rightarrow> (v, r) | _ \<Rightarrow> ([], p)),
     p_ReadInt64 = (\<lambda>p. case p of P_int64 v # r \<Rightarrow> (v, r) | _ \<Rightarrow> (0, p)),
     p_ReadInt32 = (\<lambda>p. case p of P_int32 v # r \<Rightarrow> (v, r) | _ \<Rightarrow> (0, p)),
     p_ReadUint64 = (\<lambda>p. case p of P_uint64 v # r \<Rightarrow> (v, r) | _ \<Rightarrow> (0, p)),
     p_ReadBool = (\<lambda>p. case p of P_bool v # r \<Rightarrow> (v, r) | _ \<Rightarrow> (False, p)),
     p_ReadString = (\<lambda>p. case p of P_string v # r \<Rightarrow> (v, r) | _ \<Rightarrow> ([], p)),
     p_ReadRemoteObject = (\<lambda>p. case p of P_remote v # r \<Rightarrow> (v, r) | _ \<Rightarrow> (None, p)),
     p_default = (\<lambda>code p reply. (reply, E_OTHER 1))\<rparr>"

lemma list_parcel_ok: "parcel_documented list_parcel (\<lambda>p. p)" "parcel_room list_parcel"
  by (auto simp: parcel_documented_def reads_def parcel_room_def list_parcel_def)

end
