(* ===== verification/Remote_Service.thy ===== *)
theory Remote_Service
  imports Ipc_Properties Service_Properties
begin

text \<open>
  \<open>TimeService\<close> behind its interface, and what a remote client of it gets.
\<close>

section \<open>The service as an implementation of the interface\<close>

definition TimeService_interface :: "service_env \<Rightarrow> time_service itime_service" where
  "TimeService_interface e =
     \<lparr>it_SetTime = (\<lambda>time s. Some (SetTime_service e time s)),
      it_SetTimeZone = (\<lambda>timeZoneId s. Some (SetTimeZone_service e timeZoneId s)),
      it_GetTimeZone = (\<lambda>s. Some (s, GetTimeZone_service s)),
      it_GetWallTimeMs = (\<lambda>s. Some (GetWallTimeMs_service e s)), it_GetWallTimeNs = (\<lambda>s. Some (GetWallTimeNs_service e s)),
      it_GetBootTimeMs = (\<lambda>s. Some (GetBootTimeMs_service e s)), it_GetBootTimeNs = (\<lambda>s. Some (GetBootTimeNs_service e s)),
      it_GetMonotonicTimeMs = (\<lambda>s. Some (GetMonotonicTimeMs_service e s)),
      it_GetMonotonicTimeNs = (\<lambda>s. Some (GetMonotonicTimeNs_service e s)),
      it_GetThreadTimeMs = (\<lambda>s. Some (GetThreadTimeMs_service e s)),
      it_GetThreadTimeNs = (\<lambda>s. Some (GetThreadTimeNs_service e s)),
      it_CreateTimer = CreateTimer_service e,
      it_StartTimer = (\<lambda>timerId triggerTimes s. Some (StartTimer_service e timerId triggerTimes s)),
      it_StopTimer = (\<lambda>timerId s. Some (StopTimer_service e timerId s)),
      it_DestroyTimer = (\<lambda>timerId s. Some (DestroyTimer_service e timerId s)),
      it_NetworkTimeStatusOff = (\<lambda>s. Some (NetworkTimeStatusOff_service e s)),
      it_NetworkTimeStatusOn = (\<lambda>s. Some (NetworkTimeStatusOn_service e s)),
      it_ProxyTimer = (\<lambda>uid isProxy needRetrigger s. Some (ProxyTimer_service e uid isProxy needRetrigger s)),
      it_ResetAllProxy = (\<lambda>s. Some (ResetAllProxy_service e s))\<rparr>"

lemma service_proper_errors: "proper_errors (TimeService_interface e)"
  by (auto simp: proper_errors_def TimeService_interface_def clock_ops GetTimeZone_service_def
      split: option.splits if_splits prod.splits)

text \<open>The service as a remote client sees it.\<close>

definition remote_service :: "'p parcel_ops \<Rightarrow> service_env \<Rightarrow> time_service itime_service" where
  "remote_service ops e = TimeServiceProxy ops (OnRemoteRequest ops (TimeService_interface e))"

lemma remote_service_eq:
  "parcel_documented ops contents \<Longrightarrow> parcel_room ops \<Longrightarrow> remote_service ops e = guarded (TimeService_interface e)"
  unfolding remote_service_def by (rule proxy_is_guarded [OF _ _ service_proper_errors])

section \<open>Guarantees\<close>

text \<open>C8. A remote call is a call: with parcels as the IPC library documents them and memory for them,
  the proxy over the stub of a service is that service, for all 19 functions of the interface: the same
  results, the same errors, the same effect. Only two requests are refused before they reach the service:
  a timer without a callback object, and the proxy for user 0.\<close>

theorem remote_call_is_a_call:
  assumes "parcel_documented ops contents" and "parcel_room ops" and "proper_errors svc"
  shows "TimeServiceProxy ops (OnRemoteRequest ops svc) = guarded svc"
  using assms by (rule proxy_is_guarded)

theorem remote_call_is_a_call_witness:
  "it_SetTime (TimeServiceProxy list_parcel (OnRemoteRequest list_parcel (TimeService_interface sample_env))) (-5) sample_service =
     Some (after 1 sample_service, E_TIME_PARAMETERS_INVALID)"
proof -
  have "SetTime_service sample_env (-5) sample_service = (after 1 sample_service, E_TIME_PARAMETERS_INVALID)"
    by (rule SetTime_refused(2)) (simp_all add: CheckCallingPermission_def sample_caller_def setTimePermName_def)
  then show ?thesis
    using remote_call_is_a_call [OF list_parcel_ok service_proper_errors, of sample_env]
    by (simp add: guarded_def TimeService_interface_def)
qed

text \<open>A caller without the right to control the proxy is told that it succeeded: the service returns
  the error code as a \<open>bool\<close>, which is true, so that across the proxy and the stub the client's
  \<open>ProxyTimer\<close> and \<open>ResetAllProxy\<close> answer true while the timer manager has not been asked.\<close>

theorem refused_proxy_succeeds:
  assumes "parcel_documented ops contents" and "parcel_room ops"
    and "\<not> CheckProxyCallingPermission (e_caller e (s_now s))" and "0 < e_err_offset e" and "uid \<noteq> 0"
  shows "it_ProxyTimer (remote_service ops e) uid isProxy needRetrigger s = Some (after 1 s, True) \<and>
    it_ResetAllProxy (remote_service ops e) s = Some (after 1 s, True) \<and> s_manager (after 1 s) = s_manager s"
  using assms(3-5)
  by (simp add: remote_service_eq [OF assms(1,2)] guarded_def TimeService_interface_def ProxyTimer_service_def
      ResetAllProxy_service_def as_bool_def after_def)

theorem refused_proxy_succeeds_witness:
  "it_ResetAllProxy (remote_service list_parcel (sample_env\<lparr>e_caller := \<lambda>_. refused_caller\<rparr>)) sample_service =
     Some (after 1 sample_service, True)"
  using refused_proxy_succeeds [OF list_parcel_ok, of "sample_env\<lparr>e_caller := \<lambda>_. refused_caller\<rparr>" sample_service 5]
  by (simp add: CheckProxyCallingPermission_def refused_caller_def)

end
