(* ===== verification/Process.thy ===== *)
theory Process
  imports Remote_Service
begin

text \<open>
  The process of the service as a whole: \<open>process_step\<close> has a rule for everything that happens to
  it, the calls of clients, the life of the service, the dumps, the tick, the events of the carrier and of
  the network, and the two steps of the timer manager's thread. Whatever their order, the manager only
  goes through states that \<open>Timer_Reach\<close> knows, so that its guarantees are guarantees of the process.
\<close>

section \<open>Steps\<close>

inductive process_step :: "service_env \<Rightarrow> 'fs file_system \<Rightarrow> time_service \<Rightarrow> time_service \<Rightarrow> bool" for e fsys where
  on_start: "OnStart e fsys fs s = Some (fs', s') \<Longrightarrow> process_step e fsys s s'"
| on_stop: "process_step e fsys s (OnStop s)"
| posted_task: "process_step e fsys s (run_posted_task e s)"
| tick: "process_step e fsys s (tick_event e s)"
| set_time: "process_step e fsys s (fst (SetTime_service e time s))"
| set_zone: "process_step e fsys s (fst (SetTimeZone_service e zoneId s))"
| read_clock: "read \<in> {GetWallTimeMs_service, GetWallTimeNs_service, GetBootTimeMs_service, GetBootTimeNs_service,
      GetMonotonicTimeMs_service, GetMonotonicTimeNs_service, GetThreadTimeMs_service, GetThreadTimeNs_service} \<Longrightarrow>
    process_step e fsys s (fst (read e s))"
| create: "in_i32 (e_uid e (s_now s)) \<Longrightarrow> CreateTimer_service e type repeat interval obj s = Some (s', n) \<Longrightarrow>
    process_step e fsys s s'"
| start: "process_step e fsys s (fst (StartTimer_service e n t s))"
| stop: "process_step e fsys s (fst (StopTimer_service e n s))"
| destroy: "process_step e fsys s (fst (DestroyTimer_service e n s))"
| proxy: "process_step e fsys s (fst (ProxyTimer_service e uid isProxy needRetrigger s))"
| reset: "process_step e fsys s (fst (ResetAllProxy_service e s))"
| switch_off: "process_step e fsys s (NetworkTimeStatusOff_service e s)"
| switch_on: "process_step e fsys s (NetworkTimeStatusOn_service e s)"
| dump: "Dump e args s = Some (s', text, err) \<Longrightarrow> process_step e fsys s s'"
| carrier: "process_step e fsys s (OnReceiveEvent nitz_action e action s)"
| network: "process_step e fsys s (fst (NetCapabilitiesChange e internet s))"
| daily: "process_step e fsys s (RefreshNetworkTimeByTimer e timerId s)"
| stop_ntp: "process_step e fsys s (Stop_ntp e s)"
| clock: "s_manager s = Some m \<Longrightarrow>
    process_step e fsys s (s\<lparr>s_manager := Some (looper_time_change (e_world e) result nowRtc nowElapsed (m\<lparr>ticks := k\<rparr>))\<rparr>)"
| trigger: "s_manager s = Some m \<Longrightarrow> looper_trigger (e_world e) result nowElapsed m = Some m' \<Longrightarrow>
    process_step e fsys s (s\<lparr>s_manager := Some m'\<rparr>)"

inductive process_reachable :: "service_env \<Rightarrow> 'fs file_system \<Rightarrow> time_service \<Rightarrow> bool" for e fsys where
  init: "TimeService e tz zone_file auto_file ntp k = Some s \<Longrightarrow> process_reachable e fsys s"
| step: "process_reachable e fsys s \<Longrightarrow> process_step e fsys s s' \<Longrightarrow> process_reachable e fsys s'"

text \<open>Steps after each of which the number \<open>n\<close> is not registered.\<close>

inductive process_path_without :: "service_env \<Rightarrow> 'fs file_system \<Rightarrow> u64 \<Rightarrow> time_service \<Rightarrow> time_service \<Rightarrow> bool"
  for e fsys n where
  here: "process_path_without e fsys n s s"
| there: "process_path_without e fsys n s s' \<Longrightarrow> process_step e fsys s' s'' \<Longrightarrow> service_timer s'' n = None \<Longrightarrow>
    process_path_without e fsys n s s''"

section \<open>What leaves the manager alone\<close>

named_theorems manager_frame

lemma after_manager [manager_frame, simp]: "s_manager (after k s) = s_manager s"
  by (simp add: after_def)

lemma set_rtc_manager [manager_frame]: "s_manager (fst (set_rtc_time e sec s)) = s_manager s"
  using set_rtc_time_frame [of e sec s] by auto

lemma SetTime_manager [manager_frame]: "s_manager (fst (SetTime_service e time s)) = s_manager s"
proof -
  have "s_manager t = s_manager s'" if "set_rtc_time e sec s' = (t, r)" for sec s' t r
    using set_rtc_manager [of e sec s'] that by simp
  then show ?thesis by (auto simp: SetTime_service_def Let_def split: prod.splits)
qed

lemma SetTimeZone_manager [manager_frame]: "s_manager (fst (SetTimeZone_service e zoneId s)) = s_manager s"
  by (auto simp: SetTimeZone_service_def Let_def split: prod.splits)

lemma Save_manager [manager_frame]: "s_manager (fst (SaveAutoTimeInfoToFile e info s)) = s_manager s"
  by (simp add: SaveAutoTimeInfoToFile_def Let_def)

lemma refresh_manager [manager_frame]: "s_manager (fst (refresh e server s)) = s_manager s"
  by (simp add: refresh_def Let_def split: prod.splits)

lemma SetSystemTime_manager [manager_frame]: "s_manager (SetSystemTime e s) = s_manager s"
proof -
  have "s_manager t = s_manager s'" if "refresh e server s' = (t, r)" for server s' t r
    using refresh_manager [of e server s'] that by simp
  moreover have "s_manager t = s_manager s'" if "SetTime_service e time s' = (t, r)" for time s' t r
    using SetTime_manager [of e time s'] that by simp
  ultimately show ?thesis by (auto simp: SetSystemTime_def Let_def split: prod.splits)
qed

lemma update_manager [manager_frame]: "s_manager (update_ntp f s) = s_manager s"
  by simp

lemma daily_manager [manager_frame]: "s_manager (RefreshNetworkTimeByTimer e timerId s) = s_manager s"
  by (simp add: RefreshNetworkTimeByTimer_def manager_frame case_prod_beta Let_def)

lemma switch_manager [manager_frame]:
  "s_manager (UpdateStatusOff e s) = s_manager s" "s_manager (UpdateStatusOn e s) = s_manager s"
  by (simp_all add: UpdateStatusOff_def UpdateStatusOn_def manager_frame Let_def)

lemma Monitor_manager [manager_frame]: "s_manager (fst (MonitorNetwork e s)) = s_manager s"
  by (simp add: MonitorNetwork_def Let_def)

lemma monitor_loop_manager [manager_frame]: "s_manager (fst (monitor_loop e left retry s)) = s_manager s"
proof (induction e left retry s rule: monitor_loop.induct)
  case (2 e left retry s)
  obtain t r where "MonitorNetwork e s = (t, r)" by (cases "MonitorNetwork e s")
  with 2 Monitor_manager [of e s] show ?case by (cases r) simp_all
qed simp

lemma load_manager [manager_frame]: "s_manager (fst (load_auto_time_info e s)) = s_manager s"
  by (simp add: load_auto_time_info_def manager_frame case_prod_beta Let_def split: option.splits)

lemma events_manager [manager_frame]:
  "s_manager (OnReceiveEvent nitz_action e action s) = s_manager s"
  "s_manager (fst (NetCapabilitiesChange e internet s)) = s_manager s"
  by (simp_all add: OnReceiveEvent_def memberFuncMap_nitz_def map_find_def UNKNOWN_BROADCAST_EVENT_def
      NITZ_TIME_CHANGED_BROADCAST_EVENT_def NITZ_TIMEZONE_CHANGED_BROADCAST_EVENT_def UnknownBroadcast_def
      NITZTimeChangeBroadcast_def UpdateNITZSetTime_def NetCapabilitiesChange_def manager_frame Let_def)

lemma life_manager [manager_frame]:
  "s_manager (fst (Init_service e s)) = s_manager s" "s_manager (run_posted_task e s) = s_manager s"
  "s_manager (OnStop s) = s_manager s" "s_manager (tick_event e s) = s_manager s"
  "s_manager (InitServiceHandler s) = s_manager s" "s_manager (InitNotifyHandler s) = s_manager s"
  "InitDumpCmd s = Some s' \<Longrightarrow> s_manager s' = s_manager s"
  by (auto simp: Init_service_def run_posted_task_def OnStop_def tick_event_def InitServiceHandler_def
      InitNotifyHandler_def InitDumpCmd_def Let_def split: list.splits prod.splits option.splits)

section \<open>What the process does to the manager\<close>

text \<open>
  The manager of the process goes from \<open>mo\<close> to another state by steps of \<open>Timer_Reach\<close>, after it has
  been created if need be. None of the numbers in \<open>N\<close> is registered after any of the steps.
\<close>

definition free :: "u64 set \<Rightarrow> timer_manager \<Rightarrow> bool" where
  "free N m \<longleftrightarrow> (\<forall>n \<in> N. map_find (timerEntryMap m) n = None)"

text \<open>A timer as the service creates them: one of the four types, an exact window or the default one, no flags, and a callback.\<close>

definition typed_args :: "i32 \<Rightarrow> u64 \<Rightarrow> i32 \<Rightarrow> timer_callback option \<Rightarrow> bool" where
  "typed_args type windowLength flag callback \<longleftrightarrow>
     type \<in> {RTC, RTC_WAKEUP, ELAPSED_REALTIME, ELAPSED_REALTIME_WAKEUP} \<and> windowLength \<in> {0, -1} \<and> flag = 0 \<and> callback \<noteq> None"

definition typed_entry :: "timer_entry \<Rightarrow> bool" where
  "typed_entry e \<longleftrightarrow> typed_args (te_type e) (te_windowLength e) (te_flag e) (te_callback e)"

definition adds_typed :: "timer_manager \<Rightarrow> timer_manager \<Rightarrow> bool" where
  "adds_typed m m' \<longleftrightarrow>
     (\<forall>k e. map_find (timerEntryMap m') k = Some e \<longrightarrow> map_find (timerEntryMap m) k = Some e \<or> typed_entry e)"

lemma adds_none: "timerEntryMap m' = timerEntryMap m \<Longrightarrow> adds_typed m m'"
  by (simp add: adds_typed_def)

lemma adds_registry: "same_registry m m' \<Longrightarrow> adds_typed m m'"
  by (simp add: adds_typed_def same_registry_def)

lemma adds_stop: "adds_typed m (fst (StopTimerInner w n d m))"
  using Remove_frame [of m w n]
  by (auto simp: adds_typed_def StopTimerInner_def same_registry_def Let_def split: option.splits if_splits)

lemma adds_create:
  "CreateTimer w type wl iv fl cb uid m = Some (m', n) \<Longrightarrow> typed_args type wl fl cb \<Longrightarrow> adds_typed m m'"
  by (auto simp: adds_typed_def typed_entry_def CreateTimer_def Let_def map_find_insert split: option.splits if_splits)

lemma PaserTimerPara_typed:
  "typed_args (tp_timerType (PaserTimerPara t r i)) (word_of_int (tp_windowLength (PaserTimerPara t r i)))
     (tp_flag (PaserTimerPara t r i)) (Some cb)"
  by (simp add: typed_args_def PaserTimerPara_def Let_def)

lemma adds_trigger: "looper_trigger w r now m = Some m' \<Longrightarrow> adds_typed m m'"
  by (auto simp: looper_trigger_def same_registry_def dest!: Trigger_frame intro!: adds_none split: option.splits if_splits)

lemma adds_clock: "adds_typed m (looper_time_change w r rtc el (m\<lparr>ticks := k\<rparr>))"
  using ReBatch_frame [of "m\<lparr>ticks := k\<rparr>" w True]
  by (intro adds_none) (auto simp: looper_time_change_def ReBatchAllTimers_def same_registry_def Let_def)

inductive evolves :: "world \<Rightarrow> u64 set \<Rightarrow> timer_manager option \<Rightarrow> timer_manager option \<Rightarrow> bool" for w N mo where
  same: "evolves w N mo mo"
| made: "evolves w N mo None \<Longrightarrow> evolves w N mo (Some TimerManager)"
| move: "evolves w N mo (Some m) \<Longrightarrow> step w m m' \<Longrightarrow> adds_typed m m' \<Longrightarrow> free N m' \<Longrightarrow> evolves w N mo (Some m')"

lemma evolves_typed:
  "evolves w N mo mo' \<Longrightarrow> mo' = Some m' \<Longrightarrow> (\<And>m k e. mo = Some m \<Longrightarrow> map_find (timerEntryMap m) k = Some e \<Longrightarrow> typed_entry e) \<Longrightarrow>
    map_find (timerEntryMap m') k = Some e \<Longrightarrow> typed_entry e"
proof (induction arbitrary: m' k e rule: evolves.induct)
  case (move m m'')
  then show ?case unfolding adds_typed_def by blast
qed (auto simp: TimerManager_def)

lemma free_registry: "same_registry m m' \<Longrightarrow> free N m' = free N m"
  by (simp add: free_def same_registry_def)

lemma evolves_reachable:
  "evolves w N mo mo' \<Longrightarrow> mo' = Some m' \<Longrightarrow> (\<And>m. mo = Some m \<Longrightarrow> reachable w m) \<Longrightarrow> reachable w m'"
  by (induction arbitrary: m' rule: evolves.induct) (auto intro: reachable.intros)

lemma evolves_path:
  "evolves w {n} mo mo' \<Longrightarrow> mo = Some m \<Longrightarrow> \<exists>m'. mo' = Some m' \<and> path_without w n m m'"
  by (induction rule: evolves.induct) (auto simp: free_def intro: path_without.intros)

lemma get_manager_evolves: "evolves w N (s_manager s) (snd (get_manager e s))"
proof (cases "s_manager s")
  case None
  then show ?thesis
    using get_manager_new [of s e] by (cases "snd (get_manager e s)") (auto intro: evolves.intros)
qed (auto intro: evolves.same)

text \<open>An operation that is passed on to the manager, when each of its results is one step.\<close>

lemma passed_on_evolves:
  assumes "\<And>m. step w m (fst (f m))" "\<And>m. adds_typed m (fst (f m))"
    and r: "r = (case get_manager e s of (s1, None) \<Rightarrow> (s1, False)
        | (s1, Some m) \<Rightarrow> let (m', ret) = f m in (s1\<lparr>s_manager := Some m'\<rparr>, ret))"
    and "\<And>m. s_manager (fst r) = Some m \<Longrightarrow> free N m"
  shows "evolves w N (s_manager s) (s_manager (fst r))"
proof -
  obtain s1 mo where g: "get_manager e s = (s1, mo)" by (cases "get_manager e s")
  then have ev: "evolves w N (s_manager s) mo" using get_manager_evolves [of w N s e] by simp
  show ?thesis
  proof (cases mo)
    case None
    have "s_manager s1 = None" using get_manager_state [of e s] g None by simp
    then show ?thesis using ev by (simp add: r g None)
  next
    case (Some m)
    obtain m' ret where f: "f m = (m', ret)" by (cases "f m")
    then have "r = (s1\<lparr>s_manager := Some m'\<rparr>, ret)" by (simp add: r g Some)
    moreover from this have "free N m'" using assms(4) by simp
    ultimately show ?thesis using ev assms(1,2) [of m] f by (auto simp: Some intro: evolves.move)
  qed
qed

lemma service_start_evolves:
  "(\<And>m. s_manager (fst (StartTimer_service e n t s)) = Some m \<Longrightarrow> free N m) \<Longrightarrow>
    evolves (e_world e) N (s_manager s) (s_manager (fst (StartTimer_service e n t s)))"
  by (rule passed_on_evolves [OF step.start adds_registry [OF Start_registry] StartTimer_service_def])

lemma service_destroy_evolves:
  "(\<And>m. s_manager (fst (DestroyTimer_service e n s)) = Some m \<Longrightarrow> free N m) \<Longrightarrow>
    evolves (e_world e) N (s_manager s) (s_manager (fst (DestroyTimer_service e n s)))"
  by (rule passed_on_evolves [OF step.destroy adds_stop [where d = True, folded DestroyTimer_def] DestroyTimer_service_def])

text \<open>The proxies, for a caller that may control them.\<close>

lemma proxy_allowed:
  "CheckProxyCallingPermission (e_caller e (s_now s)) \<Longrightarrow>
    ProxyTimer_service e uid p rt s = (case get_manager e (after 1 s) of (s1, None) \<Rightarrow> (s1, False)
      | (s1, Some m) \<Rightarrow> let (m', ret) = ProxyTimer uid p rt m in (s1\<lparr>s_manager := Some m'\<rparr>, ret))"
  unfolding ProxyTimer_service_def Let_def by simp

lemma reset_allowed:
  "CheckProxyCallingPermission (e_caller e (s_now s)) \<Longrightarrow>
    ResetAllProxy_service e s = (case get_manager e (after 1 s) of (s1, None) \<Rightarrow> (s1, False)
      | (s1, Some m) \<Rightarrow> let (m', ret) = ResetAllProxy m in (s1\<lparr>s_manager := Some m'\<rparr>, ret))"
  unfolding ResetAllProxy_service_def Let_def by simp

lemma service_proxy_evolves:
  assumes "\<And>m. s_manager (fst (ProxyTimer_service e uid p rt s)) = Some m \<Longrightarrow> free N m"
  shows "evolves (e_world e) N (s_manager s) (s_manager (fst (ProxyTimer_service e uid p rt s)))"
proof (cases "CheckProxyCallingPermission (e_caller e (s_now s))")
  case True
  have "evolves (e_world e) N (s_manager (after 1 s)) (s_manager (fst (ProxyTimer_service e uid p rt s)))"
    by (rule passed_on_evolves [OF step.proxy [of _ _ uid p rt] adds_none proxy_allowed [OF True] assms]) simp
  then show ?thesis by simp
qed (simp add: ProxyTimer_service_def evolves.same)

lemma service_reset_evolves:
  assumes "\<And>m. s_manager (fst (ResetAllProxy_service e s)) = Some m \<Longrightarrow> free N m"
  shows "evolves (e_world e) N (s_manager s) (s_manager (fst (ResetAllProxy_service e s)))"
proof (cases "CheckProxyCallingPermission (e_caller e (s_now s))")
  case True
  have "evolves (e_world e) N (s_manager (after 1 s)) (s_manager (fst (ResetAllProxy_service e s)))"
    by (rule passed_on_evolves [OF step.reset adds_none reset_allowed [OF True] assms]) simp
  then show ?thesis by simp
qed (simp add: ResetAllProxy_service_def evolves.same)

lemma evolves_create:
  "evolves w N mo (Some m) \<Longrightarrow> in_i32 uid \<Longrightarrow> CreateTimer w type wl iv fl cb uid m = Some (m', n) \<Longrightarrow>
    typed_args type wl fl cb \<Longrightarrow> free N m' \<Longrightarrow> evolves w N mo (Some m')"
  by (blast intro: evolves.move step.create adds_create)

lemma service_create_evolves:
  assumes "in_i32 (e_uid e (s_now s))" "CreateTimer_service e type repeat interval obj s = Some (s', n)"
    and "\<And>m. s_manager s' = Some m \<Longrightarrow> free N m"
  shows "evolves (e_world e) N (s_manager s) (s_manager s')"
proof -
  let ?s0 = "report_creation e (e_uid e (s_now s)) type interval (after 1 s)"
  obtain s1 mo where g: "get_manager e ?s0 = (s1, mo)" by (cases "get_manager e ?s0")
  have ev: "evolves (e_world e) N (s_manager s) mo"
    using get_manager_evolves [of "e_world e" N ?s0 e] g by simp
  have "s_manager s1 = mo" using get_manager_state [of e ?s0] g by simp
  with assms(2,3) g ev show ?thesis
    by (auto simp: CreateTimer_service_def Let_def intro: evolves.same evolves_create [OF _ assms(1) _ PaserTimerPara_typed]
        split: option.splits if_splits)
qed

text \<open>Registering keeps what is registered, so that a number that is free afterwards was free before.\<close>

lemma create_free: "CreateTimer w type wl iv fl cb uid m = Some (m', n) \<Longrightarrow> free N m' \<Longrightarrow> free N m"
  by (auto simp: CreateTimer_def free_def Let_def map_find_insert split: option.splits if_splits)

lemma internal_evolves:
  assumes "CreateTimer_internal e type wl iv fl cb s = Some (s', n)"
    and "typed_args type wl fl cb" "\<And>m. s_manager s' = Some m \<Longrightarrow> free N m"
  shows "evolves (e_world e) N (s_manager s) (s_manager s')"
proof -
  obtain s1 mo where g: "get_manager e s = (s1, mo)" by (cases "get_manager e s")
  have ev: "evolves (e_world e) N (s_manager s) mo"
    using get_manager_evolves [of "e_world e" N s e] g by simp
  have "s_manager s1 = mo" using get_manager_state [of e s] g by simp
  moreover have "in_i32 0" by (simp add: in_i32_def)
  ultimately show ?thesis
    using assms g ev
    by (auto simp: CreateTimer_internal_def intro: evolves_create split: option.splits)
qed

lemma start_service_free:
  "s_manager s = Some m \<Longrightarrow> (\<And>m'. s_manager (fst (StartTimer_service e n t s)) = Some m' \<Longrightarrow> free N m') \<Longrightarrow> free N m"
  using free_registry [OF Start_registry [of m "e_world e" n t], of N]
  by (auto simp: StartTimer_service_def split: prod.splits)

lemma evolves_trans: "evolves w N mo' mo'' \<Longrightarrow> evolves w N mo mo' \<Longrightarrow> evolves w N mo mo''"
  by (induction rule: evolves.induct) (auto intro: evolves.intros)

text \<open>Initializing the network time may create a timer of its own and start it.\<close>

lemma Init_ntp_parts:
  assumes "Init_ntp e s = Some s'"
  obtains (unloaded) "s_manager s' = s_manager s"
  | (loaded) s3 s4 s6 tid n t where "s_manager s3 = s_manager s" "s_manager s6 = s_manager s4"
      "CreateTimer_internal e ELAPSED_REALTIME 0 DAY_TO_MILLISECOND 0 (Some Ntp_Refresh) s3 = Some (s4, tid)"
      "s' = fst (StartTimer_service e n t s6)"
proof -
  have sub: "s_manager (SubscriberNITZTimeChangeCommonEvent e s) = s_manager s"
    by (simp add: SubscriberNITZTimeChangeCommonEvent_def)
  obtain s2 loaded where l: "load_auto_time_info e (SubscriberNITZTimeChangeCommonEvent e s) = (s2, loaded)"
    by (cases "load_auto_time_info e (SubscriberNITZTimeChangeCommonEvent e s)")
  have s2: "s_manager s2 = s_manager s"
    using load_manager [of e "SubscriberNITZTimeChangeCommonEvent e s"] by (simp add: l sub)
  show thesis
  proof (cases loaded)
    case False
    then show thesis using assms s2 by (intro that(1)) (simp add: Init_ntp_def l)
  next
    case True
    define s3 where "s3 = fst (monitor_loop e RETRY_MAX_TIMES 0 s2)"
    have s3: "s_manager s3 = s_manager s" by (simp add: s3_def monitor_loop_manager s2)
    obtain s4 tid where c: "CreateTimer_internal e ELAPSED_REALTIME 0 DAY_TO_MILLISECOND 0 (Some Ntp_Refresh) s3 = Some (s4, tid)"
      using assms True by (auto simp: Init_ntp_def l s3_def Let_def case_prod_beta split: option.splits)
    define s6 where "s6 = RefreshNextTriggerTime e (update_ntp (ntp_timerId_update (\<lambda>_. tid)) s4)"
    have s6: "s_manager s6 = s_manager s4" by (simp add: s6_def RefreshNextTriggerTime_def)
    have "s' = fst (StartTimer_service e (ntp_timerId (s_ntp s6)) (ntp_nextTriggerTime (s_ntp s6)) s6)"
      using assms True c by (simp add: Init_ntp_def l s3_def s6_def Let_def case_prod_beta)
    with s3 s6 c show thesis by (rule that(2))
  qed
qed

lemma Init_ntp_evolves:
  assumes "Init_ntp e s = Some s'" "\<And>m. s_manager s' = Some m \<Longrightarrow> free N m"
  shows "evolves (e_world e) N (s_manager s) (s_manager s')"
  using assms(1)
proof (cases rule: Init_ntp_parts)
  case unloaded
  then show ?thesis by (simp add: evolves.same)
next
  case (loaded s3 s4 s6 tid n t)
  have "free N m" if "s_manager s4 = Some m" for m
    using that assms(2) unfolding loaded(4) by (intro start_service_free [of s6 m]) (simp_all add: loaded(2))
  from internal_evolves [OF loaded(3) _ this] service_start_evolves [of e n t s6 N] assms(2) show ?thesis
    unfolding loaded by (auto simp: typed_args_def intro: evolves_trans)
qed

lemma InitTimerHandler_evolves: "evolves w N (s_manager s) (s_manager (InitTimerHandler e s))"
proof (cases "s_manager s")
  case None
  then have "s_manager (InitTimerHandler e s) = snd (get_manager e s)"
    by (simp add: InitTimerHandler_def get_manager_def split: prod.splits)
  then show ?thesis using get_manager_evolves [of w N s e] by simp
qed (simp add: InitTimerHandler_def evolves.same)

text \<open>A start of the service, as far as its manager goes.\<close>

lemma OnStart_parts:
  assumes "OnStart e fsys fs s = Some (fs', s')"
  obtains (running) "s' = s"
  | (starting) s5 s6 where "s_manager s5 = s_manager (InitTimerHandler e (InitServiceHandler s))"
      "Init_ntp e s5 = Some s6" "s_manager s' = s_manager s6"
proof (cases "s_state s = STATE_RUNNING")
  case True
  then show thesis using assms by (intro that(1)) (simp add: OnStart_def)
next
  case False
  define s3 where "s3 = InitNotifyHandler (InitTimerHandler e (InitServiceHandler s))"
  define s4 where "s4 = (after 1 s3)\<lparr>s_tick := Init_tick (e_tick_setup e (s_now s3)) (e_utc_micro e (s_now s3))
    (e_tick_id e (s_now s3)) (s_tick s3)\<rparr>"
  define z where "z = TimeZone_Init fsys (e_zone e (s_now s4)) fs (s_zone s4)"
  define s5 where "s5 = (after 1 s4)\<lparr>s_zone := snd z\<rparr>"
  have s5: "s_manager s5 = s_manager (InitTimerHandler e (InitServiceHandler s))"
    by (simp add: s5_def s4_def s3_def life_manager)
  have eq: "OnStart e fsys fs s = (case Init_ntp e s5 of None \<Rightarrow> None
      | Some s6 \<Rightarrow> let (s7, ret) = Init_service e s6 in
          if ret \<noteq> ERR_OK then Some (fst z, s7\<lparr>s_tasks := s_tasks s7 @ [INIT_INTERVAL]\<rparr>)
          else (case InitDumpCmd s7 of None \<Rightarrow> None | Some s8 \<Rightarrow> Some (fst z, s8)))"
    using False unfolding OnStart_def s5_def z_def s4_def s3_def by (simp only: Let_def case_prod_beta if_False)
  from assms obtain s6 where s6: "Init_ntp e s5 = Some s6" and s': "s_manager s' = s_manager s6"
    unfolding eq by (auto simp: Let_def case_prod_beta life_manager split: option.splits if_splits)
  show thesis by (rule that(2) [OF s5 s6 s'])
qed

lemma OnStart_evolves:
  assumes "OnStart e fsys fs s = Some (fs', s')" "\<And>m. s_manager s' = Some m \<Longrightarrow> free N m"
  shows "evolves (e_world e) N (s_manager s) (s_manager s')"
  using assms(1)
proof (cases rule: OnStart_parts)
  case running
  then show ?thesis by (simp add: evolves.same)
next
  case (starting s5 s6)
  have "evolves (e_world e) N (s_manager s) (s_manager s5)"
    using InitTimerHandler_evolves [of "e_world e" N "InitServiceHandler s" e] by (simp add: starting(1) life_manager)
  moreover have "evolves (e_world e) N (s_manager s5) (s_manager s6)"
    using assms(2) starting(3) by (intro Init_ntp_evolves [OF starting(2)]) simp
  ultimately show ?thesis unfolding starting(3) by (blast intro: evolves_trans)
qed

lemma Dump_manager:
  assumes "Dump e args s = Some (s', text, err)"
  shows "s_manager s' = s_manager s \<or> s_manager s' = snd (get_manager e (after 1 s))"
proof -
  have "s_manager t = s_manager s0 \<or> s_manager t = s_manager (fst (get_manager e s0))"
    if "run_action e action input s0 = Some (t, out)" for action input s0 t out
    using that
    by (cases action) (auto simp: DumpAllTimeInfo_def DumpTimerInfo_def DumpTimerInfoById_def
        DumpTimerTriggerById_def Let_def split: prod.splits option.splits)
  from this [of _ "map (e_str16to8 e) args" "after 1 s" s'] assms show ?thesis
    using get_manager_state [of e "after 1 s"]
    by (fastforce simp: Dump_def Let_def split: option.splits prod.splits if_splits)
qed

lemma Dump_evolves: "Dump e args s = Some (s', text, err) \<Longrightarrow> evolves w N (s_manager s) (s_manager s')"
  using Dump_manager [of e args s s'] get_manager_evolves [of w N "after 1 s" e] by (auto intro: evolves.same)

lemma reads_manager:
  "s_manager (fst (GetWallTimeMs_service e s)) = s_manager s" "s_manager (fst (GetWallTimeNs_service e s)) = s_manager s"
  "s_manager (fst (GetBootTimeMs_service e s)) = s_manager s" "s_manager (fst (GetBootTimeNs_service e s)) = s_manager s"
  "s_manager (fst (GetMonotonicTimeMs_service e s)) = s_manager s"
  "s_manager (fst (GetMonotonicTimeNs_service e s)) = s_manager s"
  "s_manager (fst (GetThreadTimeMs_service e s)) = s_manager s"
  "s_manager (fst (GetThreadTimeNs_service e s)) = s_manager s"
  by (simp_all add: clock_ops split: option.splits)

text \<open>Every step of the process takes the manager along its own steps.\<close>

lemma process_step_evolves:
  assumes "process_step e fsys s s'" "\<And>m. s_manager s' = Some m \<Longrightarrow> free N m"
  shows "evolves (e_world e) N (s_manager s) (s_manager s')"
  using assms
proof (induction rule: process_step.induct)
  case (stop s n)
  then show ?case by (intro passed_on_evolves [OF step.stop adds_stop [where d = False, folded StopTimer_def] StopTimer_service_def])
next
  case (clock s m result nowRtc nowElapsed k)
  then show ?case by (auto intro: evolves.move [OF evolves.same step.clock adds_clock])
next
  case (trigger s m result nowElapsed m')
  then show ?case by (auto intro: evolves.move [OF evolves.same step.trigger adds_trigger])
next
  case (read_clock read s)
  then show ?case by (auto simp: reads_manager intro: evolves.same)
qed (auto simp: manager_frame NetworkTimeStatusOff_service_def NetworkTimeStatusOn_service_def Stop_ntp_def
    intro: evolves.same OnStart_evolves service_create_evolves service_start_evolves service_destroy_evolves
      service_proxy_evolves service_reset_evolves Dump_evolves)

lemma process_manager_reachable:
  "process_reachable e fsys s \<Longrightarrow> s_manager s = Some m \<Longrightarrow> reachable (e_world e) m"
proof (induction arbitrary: m rule: process_reachable.induct)
  case (init tz zone_file auto_file ntp k s)
  then show ?case by (auto simp: TimeService_def split: option.splits)
next
  case (step s s')
  have "evolves (e_world e) {} (s_manager s) (s_manager s')"
    using step.hyps(2) by (rule process_step_evolves) (simp add: free_def)
  then show ?case using step.prems step.IH by (rule evolves_reachable)
qed

lemma path_without_trans: "path_without w n m' m'' \<Longrightarrow> path_without w n m m' \<Longrightarrow> path_without w n m m''"
  by (induction rule: path_without.induct) (auto intro: path_without.there)

lemma process_path_manager:
  "process_path_without e fsys n s s' \<Longrightarrow> s_manager s = Some m \<Longrightarrow>
    \<exists>m'. s_manager s' = Some m' \<and> path_without (e_world e) n m m'"
proof (induction rule: process_path_without.induct)
  case (there s s' s'')
  then obtain m' where m': "s_manager s' = Some m'" "path_without (e_world e) n m m'" by blast
  have "evolves (e_world e) {n} (s_manager s') (s_manager s'')"
    using there.hyps(2)
    by (rule process_step_evolves) (use there.hyps(3) in \<open>simp add: free_def service_timer_def registered_timer_def\<close>)
  from evolves_path [OF this m'(1)] m'(2) show ?case by (blast intro: path_without_trans)
qed (auto intro: path_without.here)

section \<open>Guarantees\<close>

text \<open>C3. Whatever happens to the process, calls of clients in any order, restarts, dumps, events of the
  carrier and the network, and the steps of the timer thread between them: its timer manager is in a state
  that the manager's own operations reach, and its invariant holds there.\<close>

theorem process_states_ok:
  assumes "process_reachable e fsys s" "s_manager s = Some m"
  shows "reachable (e_world e) m \<and> manager_inv m"
  using process_manager_reachable [OF assms] by (blast intro: reachable_inv)

lemma process_entries_typed:
  "process_reachable e fsys s \<Longrightarrow> s_manager s = Some m \<Longrightarrow> map_find (timerEntryMap m) k = Some en \<Longrightarrow> typed_entry en"
proof (induction arbitrary: m k en rule: process_reachable.induct)
  case (init tz zone_file auto_file ntp k s)
  then show ?case by (auto simp: TimeService_def split: option.splits)
next
  case (step s s')
  have "evolves (e_world e) {} (s_manager s) (s_manager s')"
    using step.hyps(2) by (rule process_step_evolves) (simp add: free_def)
  then show ?case using step.prems step.IH by (blast intro: evolves_typed)
qed

text \<open>C22. Every timer of the process is well-typed, whatever happens to the process: each registered timer has one of the
  four types that the manager knows, the exact or the default window, no flags and a callback; and so
  each scheduled alarm has one of these types, is not standalone, and has a callback, so that the
  branches of the manager for other types, standalone alarms and empty callbacks are never taken.\<close>

theorem process_timers_typed:
  assumes "process_reachable e fsys s" "s_manager s = Some m"
  shows "(\<forall>k en. map_find (timerEntryMap m) k = Some en \<longrightarrow> typed_entry en) \<and>
    (\<forall>a \<in># scheduled m. ti_type a \<in> {RTC, RTC_WAKEUP, ELAPSED_REALTIME, ELAPSED_REALTIME_WAKEUP} \<and>
       ti_flags a AND STANDALONE = 0 \<and> ti_callback a \<noteq> None)"
proof -
  note typed = process_entries_typed [OF assms]
  have "belongs (timerEntryMap m) a" if "a \<in># scheduled m" for a
    using reachable_inv [OF process_manager_reachable [OF assms]] that by (simp add: manager_inv_def)
  then show ?thesis using typed by (fastforce simp: belongs_def typed_entry_def typed_args_def)
qed

lemma sample_service_made:
  "TimeService sample_env None None None (s_ntp sample_service) (s_tick sample_service) = Some sample_service"
proof -
  have "get_wall_clock_rtc_id sample_env = Some 0"
    by (simp add: get_wall_clock_rtc_id_def sample_env_def check_rtc_def stoul_def is_space_def digit_value_def Let_def)
  then show ?thesis by (simp add: TimeService_def sample_service_def)
qed

theorem process_states_ok_witness:
  "\<exists>m. s_manager (fst (StartTimer_service sample_env 1 200000 sample_service)) = Some m \<and> manager_inv m"
proof -
  obtain s1 where "get_manager sample_env sample_service = (s1, Some TimerManager)"
    using sample_get_manager by (cases "get_manager sample_env sample_service") simp
  then have m: "s_manager (fst (StartTimer_service sample_env 1 200000 sample_service)) =
      Some (fst (StartTimer sample_world 1 200000 TimerManager))"
    by (simp add: StartTimer_service_def split: prod.splits)
  have "process_reachable sample_env tree_fs (fst (StartTimer_service sample_env 1 200000 sample_service))"
    by (rule process_reachable.step [OF process_reachable.init [OF sample_service_made] process_step.start])
  from process_states_ok [OF this m] m show ?thesis by blast
qed

text \<open>C10. A client's destroyed timer stays silent in the whole process: after the service has answered true
  to \<open>DestroyTimer\<close>, with no alarm of the timer in a proxy's queue, nothing that happens to the process makes
  the manager call the timer's callback again, as long as its number is not given to a new timer.\<close>

theorem process_destroyed_stays_silent:
  assumes "process_reachable e fsys s" "valid_sort ti_whenElapsed (w_sort (e_world e))"
    and "DestroyTimer_service e n s = (s1, True)" "s_manager s1 = Some m1"
    and "\<forall>uid. \<forall>a \<in> set (queue_of m1 uid). ti_id a \<noteq> n"
    and "process_path_without e fsys n s1 s2"
  shows "\<exists>m2. s_manager s2 = Some m2 \<and> calls_to n m2 = calls_to n m1"
proof -
  have "process_reachable e fsys s1"
    using process_reachable.step [OF assms(1) process_step.destroy [of e fsys s n]] assms(3) by simp
  then have inv: "manager_inv m1" using process_manager_reachable [OF _ assms(4)] by (blast intro: reachable_inv)
  have "service_timer s1 n = None" using service_destroy [of e n s] assms(3) by simp
  then have "gone n m1" using assms(4,5) by (simp add: gone_def service_timer_def registered_timer_def)
  moreover obtain m2 where "s_manager s2 = Some m2" "path_without (e_world e) n m1 m2"
    using process_path_manager [OF assms(6,4)] by blast
  ultimately show ?thesis using gone_path [OF _ inv _ assms(2)] by blast
qed

text \<open>A timer of a client with the number 1, in a process that has just begun.\<close>

lemma sample_client_timer:
  obtains s m where "CreateTimer_service sample_env 7 True 6000 (Some 4) sample_service = Some (s, 1)"
    "s_manager s = Some m" "map_find (timerEntryMap m) 1 \<noteq> None" "proxyMap m = []" "fired m = []"
proof -
  have d: "draw of_nat 0 = Some (1, 2)" by (subst draw.simps, subst draw.simps) simp
  let ?s0 = "report_creation sample_env 100 7 6000 (after 1 sample_service)"
  have "snd (get_manager sample_env ?s0) = Some TimerManager" by (rule sample_gets_manager) simp
  then obtain s1 where g: "get_manager sample_env ?s0 = (s1, Some TimerManager)" by (cases "get_manager sample_env ?s0") simp
  have u: "e_uid sample_env t = 100" for t by (simp add: sample_env_def)
  let ?p = "PaserTimerPara 7 True 6000"
  obtain m where m: "CreateTimer sample_world (tp_timerType ?p) (word_of_int (tp_windowLength ?p)) (tp_interval ?p)
      (tp_flag ?p) (Some (Notify_Remote 4)) (e_uid sample_env 0) TimerManager = Some (m, 1)"
    "map_find (timerEntryMap m) 1 \<noteq> None" "proxyMap m = []" "fired m = []"
    by (simp add: CreateTimer_def TimerManager_def d map_find_insert Let_def)
  show thesis
    by (rule that [of "s1\<lparr>s_manager := Some m\<rparr>" m]) (use g m in \<open>simp_all add: CreateTimer_service_def u Let_def\<close>)
qed

lemma sample_create_step:
  assumes "CreateTimer_service sample_env 7 True 6000 (Some 4) sample_service = Some (s, n)"
  shows "process_reachable sample_env tree_fs s"
proof -
  have "in_i32 (e_uid sample_env (s_now sample_service))" by (simp add: sample_env_def in_i32_def)
  then show ?thesis
    by (rule process_reachable.step [OF process_reachable.init [OF sample_service_made] process_step.create [OF _ assms]])
qed

theorem process_timers_typed_witness:
  "\<exists>s m en. CreateTimer_service sample_env 7 True 6000 (Some 4) sample_service = Some (s, 1) \<and>
    s_manager s = Some m \<and> map_find (timerEntryMap m) 1 = Some en \<and> typed_entry en"
proof -
  obtain s m where s: "CreateTimer_service sample_env 7 True 6000 (Some 4) sample_service = Some (s, 1)"
    "s_manager s = Some m" "map_find (timerEntryMap m) 1 \<noteq> None"
    by (rule sample_client_timer)
  from process_timers_typed [OF sample_create_step [OF s(1)] s(2)] s show ?thesis by blast
qed

lemma Destroy_fired: "fired (fst (DestroyTimer w n m)) = fired m"
  using Remove_frame [of m w n]
  by (auto simp: DestroyTimer_def StopTimerInner_def RemoveProxy_def same_registry_def Let_def split: option.splits)

theorem process_destroyed_stays_silent_witness:
  "\<exists>s s1 m2. process_reachable sample_env tree_fs s \<and> DestroyTimer_service sample_env 1 s = (s1, True) \<and>
    s_manager (fst (ResetAllProxy_service sample_env s1)) = Some m2 \<and> calls_to 1 m2 = []"
proof -
  obtain s m where s: "CreateTimer_service sample_env 7 True 6000 (Some 4) sample_service = Some (s, 1)"
    "s_manager s = Some m" "map_find (timerEntryMap m) 1 \<noteq> None" "proxyMap m = []" "fired m = []"
    by (rule sample_client_timer)
  have r: "process_reachable sample_env tree_fs s" by (rule sample_create_step [OF s(1)])
  define m1 where "m1 = fst (DestroyTimer sample_world 1 m)"
  define s1 where "s1 = s\<lparr>s_manager := Some m1\<rparr>"
  have d: "DestroyTimer_service sample_env 1 s = (s1, True)"
    using s(2,3) Destroy_succeeds [of sample_world 1 m]
    by (simp add: DestroyTimer_service_def m1_def s1_def case_prod_beta Let_def)
  have q: "queue_of m1 uid = []" for uid
    using Destroy_no_queue [OF s(4), of sample_world 1] by (simp add: queue_of_def m1_def)
  have f: "calls_to 1 m1 = []"
    using s(5) by (simp add: calls_to_def m1_def Destroy_fired)
  have "service_timer (fst (ResetAllProxy_service sample_env s1)) 1 = None"
    using Destroy_unregisters [of sample_world 1 m]
    by (simp add: ResetAllProxy_service_def ResetAllProxy_def reset_loop_eq s1_def m1_def registered_timer_def
        CheckProxyCallingPermission_def sample_caller_def Let_def)
  then have "process_path_without sample_env tree_fs 1 s1 (fst (ResetAllProxy_service sample_env s1))"
    by (rule process_path_without.there [OF process_path_without.here process_step.reset])
  from process_destroyed_stays_silent [OF r _ d _ _ this, of m1] r d q f show ?thesis
    by (auto simp: s1_def valid_sort_sort_key)
qed

end
