(* ===== verification/Ntp_Delivery.thy ===== *)
theory Ntp_Delivery
  imports Process Timer_Properties Ntp_Properties
begin

text \<open>
  The delivery of alarms in the process of the service, with what the callbacks do: the one that
  \<open>TimeService::CreateTimer\<close> makes for a client sends a message (it stays in \<open>fired\<close>), the one of
  \<open>NtpUpdateTime::Init\<close> refreshes the network time while \<open>DeliverTimersLocked\<close> is at its alarm.
  The refresh does not touch the manager, so the delivery is the manager's own step with the
  refreshes made in the order of the calls, and every state it reaches is one that \<open>Process\<close> knows.
\<close>

section \<open>The callbacks\<close>

text \<open>The lambda of \<open>NtpUpdateTime::Init\<close>; the other kind of callback leaves the process as it is.\<close>

definition run_callback :: "service_env \<Rightarrow> timer_callback \<Rightarrow> u64 \<Rightarrow> time_service \<Rightarrow> time_service" where
  "run_callback e cb timerId s =
     (case cb of Ntp_Refresh \<Rightarrow> RefreshNetworkTimeByTimer e timerId s | Notify_Remote _ \<Rightarrow> s)"

definition on_manager :: "(timer_manager \<Rightarrow> timer_manager) \<Rightarrow> time_service \<Rightarrow> time_service" where
  "on_manager f s = s\<lparr>s_manager := map_option f (s_manager s)\<rparr>"

definition call_back_service :: "service_env \<Rightarrow> timer_info \<Rightarrow> time_service \<Rightarrow> time_service" where
  "call_back_service e alarm s =
     (case ti_callback alarm of
        None \<Rightarrow> s
      | Some cb \<Rightarrow> run_callback e cb (ti_id alarm) (on_manager (call_back alarm) s))"

section \<open>Delivery\<close>

definition CallbackAlarm_service :: "service_env \<Rightarrow> timer_info \<Rightarrow> time_service \<Rightarrow> time_service" where
  "CallbackAlarm_service e alarm s =
     (case s_manager s of
        None \<Rightarrow> s
      | Some m \<Rightarrow>
          if ti_uid alarm \<notin> proxyUids m then call_back_service e alarm s
          else on_manager (CallbackAlarmIfNeed alarm) s)"

fun Deliver_service :: "service_env \<Rightarrow> timer_info list \<Rightarrow> time_service \<Rightarrow> time_service" where
  "Deliver_service e [] s = s"
| "Deliver_service e (alarm # triggerList) s =
     Deliver_service e triggerList
       (if ti_callback alarm \<noteq> None then CallbackAlarm_service e alarm s else s)"

definition looper_trigger_service :: "service_env \<Rightarrow> u32 \<Rightarrow> int \<Rightarrow> time_service \<Rightarrow> time_service option" where
  "looper_trigger_service e result nowElapsed s =
     (case s_manager s of
        None \<Rightarrow> None
      | Some m \<Rightarrow>
          if result \<noteq> TIME_CHANGED_MASK
          then case TriggerTimersLocked (e_world e) [] nowElapsed m of
                 None \<Rightarrow> None
               | Some (triggerList, hasWakeup, m1) \<Rightarrow>
                   Some (on_manager (RescheduleKernelTimerLocked (e_world e))
                     (Deliver_service e triggerList (s\<lparr>s_manager := Some m1\<rparr>)))
          else Some (on_manager (RescheduleKernelTimerLocked (e_world e)) s))"

text \<open>What the callbacks of a list of calls do, one after the other.\<close>

abbreviation run_calls :: "service_env \<Rightarrow> (timer_callback \<times> u64) list \<Rightarrow> time_service \<Rightarrow> time_service" where
  "run_calls e cs s \<equiv> fold (\<lambda>(cb, n). run_callback e cb n) cs s"

section \<open>The refresh and the manager do not meet\<close>

named_theorems manager_apart

lemma after_apart [manager_apart]: "after k (s\<lparr>s_manager := x\<rparr>) = (after k s)\<lparr>s_manager := x\<rparr>"
  by (simp add: after_def)

lemma set_rtc_apart [manager_apart]:
  "set_rtc_time e sec (s\<lparr>s_manager := x\<rparr>) = map_prod (s_manager_update (\<lambda>_. x)) (\<lambda>r. r) (set_rtc_time e sec s)"
  by (simp add: set_rtc_time_def after_def Let_def split: option.splits)

lemma SetTime_apart [manager_apart]:
  "SetTime_service e time (s\<lparr>s_manager := x\<rparr>) = map_prod (s_manager_update (\<lambda>_. x)) (\<lambda>r. r) (SetTime_service e time s)"
proof -
  have w: "s'\<lparr>s_manager := x, s_wall_sets := ws\<rparr> = s'\<lparr>s_wall_sets := ws, s_manager := x\<rparr>" for s' :: time_service and ws
    by simp
  show ?thesis
    by (simp add: SetTime_service_def manager_apart w Let_def case_prod_beta)
qed

lemma refresh_apart [manager_apart]:
  "refresh e server (s\<lparr>s_manager := x\<rparr>) = map_prod (s_manager_update (\<lambda>_. x)) (\<lambda>r. r) (refresh e server s)"
  by (simp add: refresh_def manager_apart Let_def case_prod_beta)

lemma SetSystemTime_apart [manager_apart]:
  "SetSystemTime e (s\<lparr>s_manager := x\<rparr>) = (SetSystemTime e s)\<lparr>s_manager := x\<rparr>"
  by (simp add: SetSystemTime_def IsNITZTimeInvalid_def manager_apart Let_def case_prod_beta)

lemma run_callback_apart [manager_apart]:
  "run_callback e cb n (s\<lparr>s_manager := x\<rparr>) = (run_callback e cb n s)\<lparr>s_manager := x\<rparr>"
  by (simp add: run_callback_def RefreshNetworkTimeByTimer_def CheckStatus_def SaveAutoTimeInfoToFile_def
      manager_apart Let_def case_prod_beta split: timer_callback.split)

lemma run_calls_apart: "run_calls e cs (s\<lparr>s_manager := x\<rparr>) = (run_calls e cs s)\<lparr>s_manager := x\<rparr>"
  by (induction cs arbitrary: s) (auto simp: run_callback_apart)

lemma run_callback_manager [simp]: "s_manager (run_callback e cb n s) = s_manager s"
  by (simp add: run_callback_def daily_manager split: timer_callback.split)

lemma run_calls_manager [simp]: "s_manager (run_calls e cs s) = s_manager s"
  by (induction cs arbitrary: s) auto

section \<open>The delivery is the manager's step and the refreshes\<close>

lemma CallbackAlarm_service_eq:
  assumes "s_manager s = Some m"
  shows "CallbackAlarm_service e a s =
    run_calls e (if ti_uid a \<in> proxyUids m then [] else call_of a) (s\<lparr>s_manager := Some (CallbackAlarmIfNeed a m)\<rparr>)"
  using assms
  by (auto simp: CallbackAlarm_service_def call_back_service_def on_manager_def call_of_def CallbackAlarmIfNeed_def
      call_back_def Let_def split: option.splits)

lemma Deliver_service_eq:
  "s_manager s = Some m \<Longrightarrow>
    Deliver_service e as s =
      (run_calls e (calls (filter (\<lambda>a. ti_uid a \<notin> proxyUids m) as)) s)\<lparr>s_manager := Some (DeliverTimersLocked as m)\<rparr>"
proof (induction as arbitrary: s m)
  case Nil
  then show ?case by simp
next
  case (Cons a as)
  show ?case
  proof (cases "ti_callback a")
    case None
    then show ?thesis using Cons by (simp add: None)
  next
    case (Some cb)
    let ?c = "if ti_uid a \<in> proxyUids m then [] else call_of a"
    define s1 where "s1 = CallbackAlarm_service e a s"
    have s1: "s1 = (run_calls e ?c s)\<lparr>s_manager := Some (CallbackAlarmIfNeed a m)\<rparr>"
      unfolding s1_def CallbackAlarm_service_eq [OF Cons.prems] run_calls_apart ..
    have "s_manager s1 = Some (CallbackAlarmIfNeed a m)" by (simp add: s1)
    from Cons.IH [OF this] show ?thesis
      by (simp add: Some s1_def [symmetric]) (simp add: s1 CallbackAlarm_fields run_calls_apart)
  qed
qed

lemma looper_trigger_service_eq:
  assumes "s_manager s = Some m"
  shows "looper_trigger_service e result now s =
    map_option (\<lambda>m'. (run_calls e (drop (length (fired m)) (fired m')) s)\<lparr>s_manager := Some m'\<rparr>)
      (looper_trigger (e_world e) result now m)"
  using assms
  by (auto simp: looper_trigger_service_def looper_trigger_def on_manager_def Deliver_service_eq run_calls_apart Deliver_spec
      same_registry_def dest!: Trigger_frame split: option.splits)

text \<open>So the delivery is steps of the process: the manager's, and one for each refresh.\<close>

lemma run_calls_reachable: "process_reachable e fsys s \<Longrightarrow> process_reachable e fsys (run_calls e cs s)"
proof (induction cs arbitrary: s)
  case (Cons c cs)
  obtain cb n where c: "c = (cb, n)" by (cases c)
  have "process_reachable e fsys (run_callback e cb n s)"
    using Cons.prems
    by (cases cb) (auto simp: run_callback_def intro: process_reachable.step process_step.daily)
  from Cons.IH [OF this] show ?case by (simp add: c)
qed simp

lemma delivery_reachable:
  assumes "process_reachable e fsys s" "looper_trigger_service e result now s = Some s'"
  shows "process_reachable e fsys s'"
proof -
  obtain m where m: "s_manager s = Some m"
    using assms(2) by (cases "s_manager s") (simp_all add: looper_trigger_service_def)
  with assms(2) obtain m' where t: "looper_trigger (e_world e) result now m = Some m'"
    and s': "s' = run_calls e (drop (length (fired m)) (fired m')) (s\<lparr>s_manager := Some m'\<rparr>)"
    by (auto simp: looper_trigger_service_eq run_calls_apart)
  have "process_reachable e fsys (s\<lparr>s_manager := Some m'\<rparr>)"
    by (rule process_reachable.step [OF assms(1) process_step.trigger [OF m t]])
  then show ?thesis unfolding s' by (rule run_calls_reachable)
qed

section \<open>The time of the network, every day\<close>

text \<open>The alarm's batch has come due, and those before it have and hold no repeating alarm.\<close>

definition leading :: "int \<Rightarrow> timer_info \<Rightarrow> timer_manager \<Rightarrow> bool" where
  "leading now a m \<longleftrightarrow>
     (\<exists>pre b post. alarmBatches m = pre @ b # post \<and> a \<in> set (b_alarms b) \<and> GetStart b \<le> now \<and>
        (\<forall>b \<in> set pre. GetStart b \<le> now \<and> (\<forall>a \<in> set (b_alarms b). \<not> repeating a)))"

lemma leading_first:
  "alarmBatches m = b # bs \<Longrightarrow> a \<in> set (b_alarms b) \<Longrightarrow> GetStart b \<le> now \<Longrightarrow> leading now a m"
  unfolding leading_def by (rule exI [of _ "[]"], rule exI [of _ b], rule exI [of _ bs]) simp

text \<open>A repeating alarm that is handed over is scheduled again, for its next time.\<close>

lemma next_scheduled:
  assumes "valid_sort ti_whenElapsed (w_sort w)" "manager_inv m" "looper_trigger w result now m = Some m'"
    and "result \<noteq> TIME_CHANGED_MASK" "leading now a m" "repeating a" "\<not> stale a" "now_ok now" "\<forall>a \<in># scheduled m. alarm_ok a"
  shows "next_alarm now a \<in># scheduled m'"
proof -
  obtain pre b post where b: "alarmBatches m = pre @ b # post" "GetStart b \<le> now" and a: "a \<in> set (b_alarms b)"
    and pre: "\<forall>b \<in> set pre. GetStart b \<le> now \<and> (\<forall>a \<in> set (b_alarms b). \<not> repeating a)"
    using assms(5) by (auto simp: leading_def)
  obtain ts hw m1 where t: "TriggerTimersLocked w [] now m = Some (ts, hw, m1)" "triggered now ` set (b_alarms b) \<subseteq> set ts"
    by (rule due_batch_triggered [OF assms(1,2,8,9) b pre])
  have m': "scheduled m' = scheduled m1"
    using assms(3,4) t(1) by (auto simp: looper_trigger_def scheduled_def)
  from Trigger_run [OF t(1)] obtain popped where ts: "ts = w_sort w (map (triggered now) popped)"
    and run: "run now ([], False, m) popped (map (triggered now) popped, hw, m1)" by auto
  have due: "\<forall>a \<in> set popped. ti_whenElapsed a \<le> now"
    using run_facts(3) [OF run] assms(2) by (simp add: manager_inv_def)
  have "triggered now a \<in> triggered now ` set popped"
    using a t(2) assms(1) by (auto simp: ts valid_sort_set)
  then obtain a' where a': "a' \<in> set popped" "triggered now a = triggered now a'" by blast
  note same = triggered_next [OF a'(2)]
  have "alarm_ok a" using a b(1) assms(9) by (auto simp: scheduled_def set_scheduled_in)
  from next_alarm_fresh(1) [OF assms(6,7) this assms(8)] due a'(1)
  have "next_alarm now a \<notin> set popped" by (auto simp: same(3))
  moreover have "next_alarm now a \<in># scheduled m + mset (map (next_alarm now) (filter repeating popped))"
    using a'(1) assms(6) by (auto simp: same(1,2))
  ultimately show ?thesis
    unfolding m' run_facts(1) [OF run, symmetric] by simp
qed

text \<open>What a refresh leaves: the switch, and the times that were set before.\<close>

lemma Save_wall [simp]: "s_wall_sets (fst (SaveAutoTimeInfoToFile e info s)) = s_wall_sets s"
  by (simp add: SaveAutoTimeInfoToFile_def after_def Let_def)

lemma SetSystemTime_keeps:
  "\<exists>more. s_wall_sets (SetSystemTime e s) = s_wall_sets s @ more"
  "auto_status (autoTimeInfo (s_ntp (SetSystemTime e s))) = auto_status (autoTimeInfo (s_ntp s))"
  using SetSystemTime_effect [of e s] by (cases "IsNITZTimeInvalid e s"; cases "network_time e s"; auto)+

lemma run_callback_keeps:
  "\<exists>more. s_wall_sets (run_callback e cb n s) = s_wall_sets s @ more" "CheckStatus (run_callback e cb n s) = CheckStatus s"
  using SetSystemTime_keeps [of e s]
  by (auto simp: run_callback_def RefreshNetworkTimeByTimer_def CheckStatus_def Save_file Let_def case_prod_beta
      split: timer_callback.split)

lemma run_calls_keeps:
  "\<exists>more. s_wall_sets (run_calls e cs s) = s_wall_sets s @ more" "CheckStatus (run_calls e cs s) = CheckStatus s"
proof (induction cs arbitrary: s)
  case (Cons c cs)
  obtain cb n where c: "c = (cb, n)" by (cases c)
  { case 1
    show ?case
      using Cons.IH(1) [of "run_callback e cb n s"] run_callback_keeps(1) [of e cb n s] by (auto simp: c)
  next
    case 2
    show ?case using Cons.IH(2) [of "run_callback e cb n s"] by (simp add: c run_callback_keeps(2)) }
qed simp_all

lemma refresh_sets:
  assumes "CheckStatus s" "\<not> IsNITZTimeInvalid e s" "network_time e s = Some local" "can_set e (s_now s + 4) local"
  shows "s_wall_sets (run_callback e Ntp_Refresh n s) = s_wall_sets s @ [timeval_of_ms local]"
  using assms SetSystemTime_effect(2) [OF assms(2,3)]
  by (simp add: run_callback_def RefreshNetworkTimeByTimer_def case_prod_beta Let_def)

text \<open>C15. The network's time is set every day. Let an alarm of the daily timer be the leading one that is due, in
  any state of the process in which the network time is on. Then the delivery returns, in a state of the
  process; it makes the refresh, and unless the carrier's time is fresh at that point, the network does not
  answer or the time may not be set, sets the time of day to the time of the network; and the alarm is scheduled again,
  for a time that has not come.\<close>

theorem daily_update:
  assumes "process_reachable e fsys s" "s_manager s = Some m" "valid_sort ti_whenElapsed (w_sort (e_world e))"
    and "map_find (timerEntryMap m) n = Some en" "te_callback en = Some Ntp_Refresh" "te_uid en \<notin> proxyUids m"
    and "leading now a m" "ti_id a = n" "repeating a" "\<not> stale a"
    and "now_ok now" "\<forall>a \<in># scheduled m. alarm_ok a" "result \<noteq> TIME_CHANGED_MASK" "CheckStatus s"
  shows "\<exists>s' m' cs cs'. looper_trigger_service e result now s = Some s' \<and> process_reachable e fsys s' \<and>
    s_manager s' = Some m' \<and> fired m' = fired m @ cs @ (Ntp_Refresh, n) # cs' \<and>
    (let s1 = run_calls e cs s in
       \<forall>local. network_time e s1 = Some local \<longrightarrow> \<not> IsNITZTimeInvalid e s1 \<longrightarrow> can_set e (s_now s1 + 4) local \<longrightarrow>
         (\<exists>before later. s_wall_sets s' = s_wall_sets s @ before @ timeval_of_ms local # later)) \<and>
    next_alarm now a \<in># scheduled m' \<and> now < ti_whenElapsed (next_alarm now a)"
proof -
  have inv: "manager_inv m" using process_manager_reachable [OF assms(1,2)] by (rule reachable_inv)
  obtain pre b post where b: "alarmBatches m = pre @ b # post" "GetStart b \<le> now" and a: "a \<in> set (b_alarms b)"
    and pre: "\<forall>b \<in> set pre. GetStart b \<le> now \<and> (\<forall>a \<in> set (b_alarms b). \<not> repeating a)"
    using assms(7) by (auto simp: leading_def)
  obtain ts m' where t: "looper_trigger (e_world e) result now m = Some m'" "triggered now ` set (b_alarms b) \<subseteq> set ts"
    and f: "fired m' = fired m @ calls (filter (\<lambda>a. ti_uid a \<notin> proxyUids m) ts)"
    by (rule due_batch_delivered [OF assms(3) inv assms(13,11,12) b pre])
  have sched: "a \<in># scheduled m" using a b(1) by (auto simp: scheduled_def set_scheduled_in)
  then have "belongs (timerEntryMap m) a" using inv by (simp add: manager_inv_def)
  then have "call_of (triggered now a) = [(Ntp_Refresh, n)]" "ti_uid a \<notin> proxyUids m"
    using assms(4-6,8) by (auto simp: belongs_def call_of_def)
  moreover have "triggered now a \<in> set ts" using a t(2) by blast
  ultimately have "(Ntp_Refresh, n) \<in> set (calls (filter (\<lambda>a. ti_uid a \<notin> proxyUids m) ts))"
    by (auto simp: calls_def intro!: bexI [of _ "triggered now a"])
  then obtain cs cs' where split: "calls (filter (\<lambda>a. ti_uid a \<notin> proxyUids m) ts) = cs @ (Ntp_Refresh, n) # cs'"
    by (meson split_list)
  define s' where "s' = (run_calls e (cs @ (Ntp_Refresh, n) # cs') s)\<lparr>s_manager := Some m'\<rparr>"
  have d: "looper_trigger_service e result now s = Some s'"
    using t(1) by (simp add: looper_trigger_service_eq [OF assms(2)] s'_def f split)
  have "ti_whenElapsed a \<le> now"
    using inv b a by (auto simp: manager_inv_def batch_inv_def GetStart_def)
  then have again: "next_alarm now a \<in># scheduled m'" "now < ti_whenElapsed (next_alarm now a)"
    using next_scheduled [OF assms(3) inv t(1) assms(13,7,9-12)]
      next_alarm_fresh(1) [OF assms(9,10) _ assms(11)] assms(12) sched by auto
  have "\<exists>before later. s_wall_sets s' = s_wall_sets s @ before @ timeval_of_ms local # later"
    if "network_time e (run_calls e cs s) = Some local" "\<not> IsNITZTimeInvalid e (run_calls e cs s)"
      "can_set e (s_now (run_calls e cs s) + 4) local" for local
  proof -
    let ?s1 = "run_calls e cs s"
    have "CheckStatus ?s1" using assms(14) by (simp add: run_calls_keeps(2))
    from refresh_sets [OF this that(2,1,3), of n]
      run_calls_keeps(1) [of e cs s] run_calls_keeps(1) [of e cs' "run_callback e Ntp_Refresh n ?s1"]
    obtain before later where "s_wall_sets s' = s_wall_sets s @ before @ timeval_of_ms local # later"
      by (auto simp: s'_def)
    then show ?thesis by blast
  qed
  with d delivery_reachable [OF assms(1) d] f split again show ?thesis
    unfolding Let_def by (intro exI [of _ s'] exI [of _ m'] exI [of _ cs] exI [of _ cs']) (simp add: s'_def)
qed

section \<open>The first day\<close>

text \<open>Initializing the network time starts the daily timer, once the file has been read or written.\<close>

lemma Init_ntp_starts:
  assumes "snd (load_auto_time_info e (SubscriberNITZTimeChangeCommonEvent e s))" "s_manager s = Some m"
    and "CreateTimer (e_world e) ELAPSED_REALTIME 0 DAY_TO_MILLISECOND 0 (Some Ntp_Refresh) 0 m = Some (m1, n)"
  shows "\<exists>s' t. Init_ntp e s = Some s' \<and> s_manager s' = Some (fst (StartTimer (e_world e) n (boot_ms e t + DAY_TO_MILLISECOND) m1)) \<and>
    CheckStatus s' = CheckStatus (fst (load_auto_time_info e (SubscriberNITZTimeChangeCommonEvent e s)))"
proof -
  obtain s2 where l: "load_auto_time_info e (SubscriberNITZTimeChangeCommonEvent e s) = (s2, True)"
    using assms(1) by (cases "load_auto_time_info e (SubscriberNITZTimeChangeCommonEvent e s)") simp
  have "s_manager (SubscriberNITZTimeChangeCommonEvent e s) = Some m"
    by (simp add: SubscriberNITZTimeChangeCommonEvent_def assms(2))
  then have m2: "s_manager s2 = Some m"
    using load_manager [of e "SubscriberNITZTimeChangeCommonEvent e s"] by (simp add: l)
  define s3 where "s3 = fst (monitor_loop e RETRY_MAX_TIMES 0 s2)"
  have s3: "s_manager s3 = Some m" by (simp add: s3_def monitor_loop_manager m2)
  have ntp: "s_ntp (fst (monitor_loop e k r x)) = s_ntp x" for k r x
    by (induction e k r x rule: monitor_loop.induct) (auto simp: MonitorNetwork_def after_def Let_def split: prod.splits net_result.splits)
  have "CreateTimer_internal e ELAPSED_REALTIME 0 DAY_TO_MILLISECOND 0 (Some Ntp_Refresh) s3 = Some (s3\<lparr>s_manager := Some m1\<rparr>, n)"
    by (simp add: CreateTimer_internal_def s3 assms(3))
  then show ?thesis
    by (intro exI [of _ "fst (StartTimer_service e n (boot_ms e (s_now s3) + DAY_TO_MILLISECOND)
          (RefreshNextTriggerTime e (update_ntp (ntp_timerId_update (\<lambda>_. n)) (s3\<lparr>s_manager := Some m1\<rparr>))))"] exI [of _ "s_now s3"])
      (simp add: Init_ntp_def l s3_def [symmetric] RefreshNextTriggerTime_def StartTimer_service_def after_def CheckStatus_def
        ntp [of RETRY_MAX_TIMES 0 s2, folded s3_def] Let_def case_prod_beta)
qed

lemma OnStart_starts:
  assumes "s_state s \<noteq> STATE_RUNNING" "\<And>t. e_publish e t"
    and init: "\<And>s5. s_manager s5 = s_manager (InitTimerHandler e (InitServiceHandler s)) \<Longrightarrow> s_auto_file s5 = s_auto_file s \<Longrightarrow>
      \<exists>s6. Init_ntp e s5 = Some s6 \<and> P (s_manager s6) (s_ntp s6)"
  shows "\<exists>fs' s'. OnStart e fsys fs s = Some (fs', s') \<and> P (s_manager s') (s_ntp s')"
proof -
  define s3 where "s3 = InitNotifyHandler (InitTimerHandler e (InitServiceHandler s))"
  define s4 where "s4 = (after 1 s3)\<lparr>s_tick := Init_tick (e_tick_setup e (s_now s3)) (e_utc_micro e (s_now s3))
    (e_tick_id e (s_now s3)) (s_tick s3)\<rparr>"
  define z where "z = TimeZone_Init fsys (e_zone e (s_now s4)) fs (s_zone s4)"
  define s5 where "s5 = (after 1 s4)\<lparr>s_zone := snd z\<rparr>"
  have "s_manager s5 = s_manager (InitTimerHandler e (InitServiceHandler s))"
    by (simp add: s5_def s4_def s3_def life_manager)
  moreover have "s_auto_file s5 = s_auto_file s"
    by (simp add: s5_def s4_def s3_def after_def InitNotifyHandler_def InitTimerHandler_def InitServiceHandler_def Let_def case_prod_beta)
  ultimately obtain s6 where s6: "Init_ntp e s5 = Some s6" "P (s_manager s6) (s_ntp s6)" using init by blast
  obtain s8 where s8: "InitDumpCmd ((after 1 s6)\<lparr>s_state := STATE_RUNNING\<rparr>) = Some s8"
    using InitDumpCmd_returns [of "(after 1 s6)\<lparr>s_state := STATE_RUNNING\<rparr>"] by blast
  have "s_manager s8 = s_manager s6" "s_ntp s8 = s_ntp s6"
    using s8 by (auto simp: InitDumpCmd_def after_def split: option.splits)
  moreover have "OnStart e fsys fs s = (case Init_ntp e s5 of None \<Rightarrow> None
      | Some s6 \<Rightarrow> let (s7, ret) = Init_service e s6 in
          if ret \<noteq> ERR_OK then Some (fst z, s7\<lparr>s_tasks := s_tasks s7 @ [INIT_INTERVAL]\<rparr>)
          else (case InitDumpCmd s7 of None \<Rightarrow> None | Some s8 \<Rightarrow> Some (fst z, s8)))"
    using assms(1) unfolding OnStart_def s5_def z_def s4_def s3_def by (simp only: Let_def case_prod_beta if_False)
  ultimately show ?thesis
    using s6 s8 assms(2) by (simp add: Init_service_def Let_def)
qed

text \<open>
  \<open>NtpUpdateTime::Stop\<close> is called by nothing, and \<open>OnStop\<close> leaves the manager alone: when the service is
  started again after it has been stopped, the daily timer of the first start is still registered beside the
  new one, and so both refresh.
\<close>

lemma restart_adds_daily_timer:
  assumes "s_state s = STATE_RUNNING" "\<And>t. e_publish e t" "s_auto_file s = Some content" "e_auto_parse e content = Some info"
    and "s_manager s = Some m" "map_find (timerEntryMap m) n = None"
    and "CreateTimer (e_world e) ELAPSED_REALTIME 0 DAY_TO_MILLISECOND 0 (Some Ntp_Refresh) 0 m = Some (m1, n)"
  shows "\<exists>fs' s' m' en. OnStart e fsys fs (OnStop s) = Some (fs', s') \<and> s_manager s' = Some m' \<and>
    te_callback en = Some Ntp_Refresh \<and> map_find (timerEntryMap m') = (map_find (timerEntryMap m))(n \<mapsto> en)"
proof -
  define en where "en = \<lparr>te_id = n, te_type = ELAPSED_REALTIME, te_windowLength = 0, te_interval = DAY_TO_MILLISECOND,
    te_flag = 0, te_callback = Some Ntp_Refresh, te_uid = 0\<rparr>"
  have en: "te_callback en = Some Ntp_Refresh" "map_find (timerEntryMap m1) = (map_find (timerEntryMap m))(n \<mapsto> en)"
    using assms(6,7) by (auto simp: en_def CreateTimer_def Let_def map_find_insert split: option.splits)
  let ?P = "\<lambda>mo ntp. \<exists>m'. mo = Some m' \<and> map_find (timerEntryMap m') = (map_find (timerEntryMap m))(n \<mapsto> en)"
  have "\<exists>s6. Init_ntp e s5 = Some s6 \<and> ?P (s_manager s6) (s_ntp s6)"
    if m: "s_manager s5 = s_manager (InitTimerHandler e (InitServiceHandler (OnStop s)))"
      and f: "s_auto_file s5 = s_auto_file (OnStop s)" for s5
  proof -
    have "s_manager s5 = Some m"
      using assms(5) unfolding m by (simp add: InitTimerHandler_def life_manager)
    moreover have "snd (load_auto_time_info e (SubscriberNITZTimeChangeCommonEvent e s5))"
      using f assms(3,4) by (simp add: load_auto_time_info_def GetAutoTimeInfoFromFile_def
          SubscriberNITZTimeChangeCommonEvent_def after_def OnStop_def split: if_splits)
    ultimately obtain s6 t where "Init_ntp e s5 = Some s6"
      "s_manager s6 = Some (fst (StartTimer (e_world e) n (boot_ms e t + DAY_TO_MILLISECOND) m1))"
      using Init_ntp_starts assms(7) by blast
    then show ?thesis
      using Start_registry [of m1 "e_world e" n "boot_ms e t + DAY_TO_MILLISECOND"] en(2) by (simp add: same_registry_def)
  qed
  then show ?thesis
    using OnStart_starts [of "OnStop s" e ?P fsys fs] assms(1,2) en(1) by (auto simp: OnStop_def)
qed

text \<open>The sample process, started: the timer 1 is the daily one, due a day after the 100 seconds of its boot.\<close>

definition sample_daily :: timer_entry where
  "sample_daily = \<lparr>te_id = 1, te_type = ELAPSED_REALTIME, te_windowLength = 0, te_interval = DAY_TO_MILLISECOND,
     te_flag = 0, te_callback = Some Ntp_Refresh, te_uid = 0\<rparr>"

definition sample_registered :: timer_manager where
  "sample_registered = TimerManager\<lparr>randomPos := 2, timerEntryMap := [(1, sample_daily)]\<rparr>"

lemma sample_starts:
  obtains s where "process_reachable sample_env tree_fs s" "CheckStatus s"
    "s_manager s = Some (fst (StartTimer sample_world 1 86500000 sample_registered))"
proof -
  have d: "draw of_nat 0 = Some (1, 2)" by (subst draw.simps, simp, subst draw.simps, simp)
  have c: "CreateTimer sample_world ELAPSED_REALTIME 0 DAY_TO_MILLISECOND 0 (Some Ntp_Refresh) 0 TimerManager =
      Some (sample_registered, 1)"
    by (simp add: CreateTimer_def d sample_registered_def sample_daily_def TimerManager_def map_insert_def Let_def)
  have ms: "boot_ms sample_env t + DAY_TO_MILLISECOND = 86500000" for t
    by (simp add: boot_ms_def DAY_TO_MILLISECOND_def NANO_TO_MILLISECOND_def)
  let ?P = "\<lambda>mo ntp. mo = Some (fst (StartTimer sample_world 1 86500000 sample_registered)) \<and>
    auto_status (autoTimeInfo ntp) = NETWORK_TIME_STATUS_ON"
  have "\<exists>s6. Init_ntp sample_env s5 = Some s6 \<and> ?P (s_manager s6) (s_ntp s6)"
    if m: "s_manager s5 = s_manager (InitTimerHandler sample_env (InitServiceHandler sample_service))"
      and f: "s_auto_file s5 = s_auto_file sample_service" for s5
  proof -
    have none: "s_manager (InitServiceHandler sample_service) = None" by (simp add: InitServiceHandler_def)
    from sample_gets_manager [OF none] have m5: "s_manager s5 = Some TimerManager"
      unfolding m by (simp add: InitTimerHandler_def get_manager_def none case_prod_beta Let_def)
    let ?l = "load_auto_time_info sample_env (SubscriberNITZTimeChangeCommonEvent sample_env s5)"
    have "snd ?l" "CheckStatus (fst ?l)"
      using f by (simp_all add: load_auto_time_info_def GetAutoTimeInfoFromFile_def SaveAutoTimeInfoToFile_def after_def
          SubscriberNITZTimeChangeCommonEvent_def sample_service_def ntp_constants sample_info_def CheckStatus_def Let_def)
    with Init_ntp_starts [of sample_env s5, OF _ m5, of sample_registered 1] c ms show ?thesis
      by (auto simp: CheckStatus_def)
  qed
  then obtain fs' s' where s': "OnStart sample_env tree_fs [] sample_service = Some (fs', s')" "?P (s_manager s') (s_ntp s')"
    using OnStart_starts [of sample_service sample_env ?P tree_fs "[]"]
    by (auto simp: sample_service_def sample_env_def)
  show thesis
    by (rule that [of s']) (use s'(2) process_reachable.step [OF process_reachable.init [OF sample_service_made]
      process_step.on_start [OF s'(1)]] in \<open>auto simp: CheckStatus_def\<close>)
qed

theorem daily_update_witness:
  "\<exists>s s' m' a. process_reachable sample_env tree_fs s \<and>
    looper_trigger_service sample_env 4 (ms_to_ns 86500000) s = Some s' \<and> process_reachable sample_env tree_fs s' \<and>
    s_manager s' = Some m' \<and> (Ntp_Refresh, 1) \<in> set (fired m') \<and> a \<in># scheduled m' \<and> ms_to_ns 86500000 < ti_whenElapsed a"
proof -
  obtain s where r: "process_reachable sample_env tree_fs s" and on: "CheckStatus s"
    and m: "s_manager s = Some (fst (StartTimer sample_world 1 86500000 sample_registered))" by (rule sample_starts)
  let ?m = "fst (StartTimer sample_world 1 86500000 sample_registered)"
  have sel: "map_find (timerEntryMap sample_registered) 1 = Some sample_daily" "alarmBatches sample_registered = []"
    "proxyUids sample_registered = {}" "ticks sample_registered = 0"
    by (simp_all add: sample_registered_def TimerManager_def map_find_def)
  have "GetBootTimeNs sample_world (ticks sample_registered + 1) \<le>
      ConvertToElapsed sample_world (ticks sample_registered + 2) (sint (86500000 :: u64)) ELAPSED_REALTIME"
    by (simp add: ConvertToElapsed_def timer_type_defs ms_to_ns_def)
  then obtain a where "alarmBatches ?m = insert_and_batch a []"
    and a: "ti_whenElapsed a = ms_to_ns 86500000" "ti_repeatInterval a = 86400000" "ti_expectedWhenElapsed a = ti_whenElapsed a"
      "ti_id a = 1"
    by (rule SetHandler_accepts [of _ _ _ _ 1 0 DAY_TO_MILLISECOND 0 "Some Ntp_Refresh" 0])
      (simp add: StartTimer_def sel sample_daily_def interval_duration_def timer_constants
        ConvertToElapsed_def timer_type_defs ms_to_ns_def request_of_def DAY_TO_MILLISECOND_def)
  then have b: "alarmBatches ?m = [Batch_seed a]"
    by (simp add: insert_and_batch_cases AddBatchLocked_def upper_bound_def ub_search.simps list_insert_def)
  have lead: "leading (ms_to_ns 86500000) a ?m" by (rule leading_first [OF b]) (simp_all add: GetStart_def a)
  have reg: "same_registry sample_registered ?m" by (rule Start_registry)
  have h: "valid_sort ti_whenElapsed (w_sort (e_world sample_env))" "map_find (timerEntryMap ?m) 1 = Some sample_daily"
    "te_callback sample_daily = Some Ntp_Refresh" "te_uid sample_daily \<notin> proxyUids ?m" "repeating a" "\<not> stale a"
    "now_ok (ms_to_ns 86500000)" "\<forall>a \<in># scheduled ?m. alarm_ok a" "(4 :: u32) \<noteq> TIME_CHANGED_MASK"
    using reg by (simp_all add: same_registry_def sel sample_daily_def valid_sort_sort_key b a
        repeating_def stale_def now_ok_def alarm_ok_def MAX_INTERVAL_def ms_to_ns_def scheduled_def TIME_CHANGED_MASK_def)
  from daily_update [OF r m h(1-4) lead a(4) h(5-9) on] obtain s' m' cs cs' where
    "looper_trigger_service sample_env 4 (ms_to_ns 86500000) s = Some s'" "process_reachable sample_env tree_fs s'"
    "s_manager s' = Some m'" "fired m' = fired ?m @ cs @ (Ntp_Refresh, 1) # cs'"
    "next_alarm (ms_to_ns 86500000) a \<in># scheduled m'" "ms_to_ns 86500000 < ti_whenElapsed (next_alarm (ms_to_ns 86500000) a)"
    by blast
  moreover from this have "(Ntp_Refresh, 1) \<in> set (fired m')" by simp
  ultimately show ?thesis using r by blast
qed

end
