(* ===== verification/Timer_Callback.thy ===== *)
theory Timer_Callback
  imports Time_Ipc
begin

text \<open>
  The client's end of a timer: \<open>TimerCallback\<close> (\<open>timer_call_back.cpp\<close>), the table of the timers
  that a client has created, and the way a notification takes to it
  (\<open>timer_call_back_proxy.cpp\<close>, \<open>timer_call_back_stub.cpp\<close>). \<open>OnTrigger\<close> is the client's own
  code, named by a number; what a notification runs is recorded in order.
\<close>

section \<open>Timer information\<close>

record itimer_info =
  ii_type :: i32
  ii_repeat :: bool
  ii_interval :: u64
  ii_wantAgent :: "nat option"
  ii_onTrigger :: nat

definition ITimerInfo :: "nat \<Rightarrow> itimer_info" where
  "ITimerInfo onTrigger = \<lparr>ii_type = 0, ii_repeat = False, ii_interval = 0, ii_wantAgent = None, ii_onTrigger = onTrigger\<rparr>"

datatype client_event = OnTrigger nat | TriggerWantAgent nat

section \<open>The table\<close>

record timer_callbacks =
  TimerInfoMap :: "(u64, itimer_info) std_map"
  cb_events :: "client_event list"

definition TimerCallback :: timer_callbacks where
  "TimerCallback = \<lparr>TimerInfoMap = [], cb_events = []\<rparr>"

definition destroy_TimerCallback :: "timer_callbacks \<Rightarrow> timer_callbacks" where
  "destroy_TimerCallback c = c\<lparr>TimerInfoMap := []\<rparr>"

definition InsertTimerCallbackInfo :: "u64 \<Rightarrow> itimer_info option \<Rightarrow> timer_callbacks \<Rightarrow> timer_callbacks \<times> bool" where
  "InsertTimerCallbackInfo timerId timerInfo c =
     (case timerInfo of
        None \<Rightarrow> (c, False)
      | Some info \<Rightarrow>
          if map_find (TimerInfoMap c) timerId \<noteq> None then (c, False)
          else (c\<lparr>TimerInfoMap := map_assign timerId info (TimerInfoMap c)\<rparr>, True))"

definition RemoveTimerCallbackInfo :: "u64 \<Rightarrow> timer_callbacks \<Rightarrow> timer_callbacks \<times> bool" where
  "RemoveTimerCallbackInfo timerId c =
     (if map_find (TimerInfoMap c) timerId \<noteq> None
      then (c\<lparr>TimerInfoMap := map_erase timerId (TimerInfoMap c)\<rparr>, True)
      else (c, False))"

definition NotifyTimer_callback :: "u64 \<Rightarrow> timer_callbacks \<Rightarrow> timer_callbacks" where
  "NotifyTimer_callback timerId c =
     (case map_find (TimerInfoMap c) timerId of
        None \<Rightarrow> c
      | Some info \<Rightarrow>
          let c1 = c\<lparr>cb_events := cb_events c @ [OnTrigger (ii_onTrigger info)]\<rparr> in
          case ii_wantAgent info of
            None \<Rightarrow> c1
          | Some agent \<Rightarrow> c1\<lparr>cb_events := cb_events c1 @ [TriggerWantAgent agent]\<rparr>)"

definition info_of :: "timer_callbacks \<Rightarrow> u64 \<Rightarrow> itimer_info option" where
  "info_of c = map_find (TimerInfoMap c)"

interpretation callbacks: registry info_of "\<lambda>k info c. fst (InsertTimerCallbackInfo k (Some info) c)"
    "\<lambda>k c. fst (RemoveTimerCallbackInfo k c)"
  by unfold_locales
    (auto simp: info_of_def InsertTimerCallbackInfo_def RemoveTimerCallbackInfo_def fun_eq_iff)

text \<open>An insertion says whether it was the first, and a removal whether there was something to remove.\<close>

lemma Insert_answer: "snd (InsertTimerCallbackInfo k (Some info) c) \<longleftrightarrow> info_of c k = None"
  by (auto simp: InsertTimerCallbackInfo_def info_of_def)

lemma info_of_notify [simp]: "info_of (NotifyTimer_callback k c) = info_of c"
  by (auto simp: NotifyTimer_callback_def info_of_def Let_def split: option.splits)

text \<open>What one notification runs.\<close>

definition events_of :: "itimer_info \<Rightarrow> client_event list" where
  "events_of info = OnTrigger (ii_onTrigger info) # (case ii_wantAgent info of None \<Rightarrow> [] | Some a \<Rightarrow> [TriggerWantAgent a])"

lemma NotifyTimer_events:
  "cb_events (NotifyTimer_callback k c) = cb_events c @ (case info_of c k of None \<Rightarrow> [] | Some info \<Rightarrow> events_of info)"
  by (auto simp: NotifyTimer_callback_def info_of_def events_of_def Let_def split: option.splits)

section \<open>The way of a notification\<close>

definition NOTIFY_TIMER :: u32 where "NOTIFY_TIMER = 1"
definition ITimerCallback_descriptor :: string where
  "ITimerCallback_descriptor = ''ohos.miscservices.time.ITimerCallback''"

text \<open>\<open>remote\<close> is whether there is a remote object. The proxy ignores how the request ends.\<close>

definition NotifyTimer_proxy :: "'p parcel_ops \<Rightarrow> ('p, 's) channel \<Rightarrow> bool \<Rightarrow> u64 \<Rightarrow> 's \<Rightarrow> 's option" where
  "NotifyTimer_proxy ops ch remote timerId s =
     (if \<not> remote then Some s
      else case p_write ops (P_token ITimerCallback_descriptor) (p_new ops) of
        None \<Rightarrow> Some s
      | Some d1 \<Rightarrow>
          (case p_write ops (P_uint64 timerId) d1 of
             None \<Rightarrow> Some s
           | Some data \<Rightarrow> map_option fst (ch NOTIFY_TIMER data (p_new ops) s)))"

definition OnTriggerStub :: "'p parcel_ops \<Rightarrow> (u64 \<Rightarrow> 's \<Rightarrow> 's) \<Rightarrow> 'p \<Rightarrow> 's \<Rightarrow> 's \<times> time_error" where
  "OnTriggerStub ops notify data s = (let (timerId, d) = p_ReadUint64 ops data in (notify timerId s, ERR_OK))"

definition OnRemoteRequest_callback :: "'p parcel_ops \<Rightarrow> (u64 \<Rightarrow> 's \<Rightarrow> 's) \<Rightarrow> ('p, 's) channel" where
  "OnRemoteRequest_callback ops notify code data reply s =
     (let (remoteDescripter, d) = p_ReadInterfaceToken ops data in
      if ITimerCallback_descriptor \<noteq> remoteDescripter then Some (s, reply, E_TIME_READ_PARCEL_ERROR)
      else if code = NOTIFY_TIMER
      then (let (s', ret) = OnTriggerStub ops notify d s in Some (s', reply, ret))
      else let (reply', ret) = p_default ops code d reply in Some (s, reply', ret))"

end
