(* ===== verification/Time_Client.thy ===== *)
theory Time_Client
  imports Timer_Callback Ipc_Properties
begin

text \<open>
  \<open>TimeServiceClient\<close> (\<open>time_service_client.cpp\<close>): the functions of the library that clients
  link with. They connect to the service when they have to, call it through a proxy \<open>svc\<close>, and turn
  its results into those of the library. The state is the client's and, behind the proxy, the
  service's; \<open>None\<close> is a remote call that does not return.
\<close>

section \<open>Connecting\<close>

text \<open>
  The results of the system ability manager, of the cast of its answer to \<open>ITimeService\<close>, and the
  client's callback object, at an instant.
\<close>

record client_env =
  ce_manager :: "nat \<Rightarrow> bool"
  ce_ability :: "nat \<Rightarrow> bool"
  ce_cast :: "nat \<Rightarrow> bool"
  ce_object :: "nat \<Rightarrow> nat option"

record client =
  c_now :: nat
  timeServiceProxy :: bool
  deathRecipients :: nat
  c_callbacks :: timer_callbacks

definition TimeServiceClient :: client where
  "TimeServiceClient = \<lparr>c_now = 0, timeServiceProxy = False, deathRecipients = 0, c_callbacks = TimerCallback\<rparr>"

text \<open>Whether the service could be connected; \<open>deathRecipients\<close> counts the recipients that are added.\<close>

definition ConnectService :: "client_env \<Rightarrow> client \<Rightarrow> client \<times> bool" where
  "ConnectService ce c =
     (let t = c_now c; c1 = c\<lparr>c_now := t + 1\<rparr> in
      if \<not> ce_manager ce t then (c1, False)
      else if \<not> ce_ability ce t then (c1, False)
      else let c2 = c1\<lparr>deathRecipients := Suc (deathRecipients c1)\<rparr> in
        if \<not> ce_cast ce t then (c2, False) else (c2, True))"

definition OnRemoteSaDied :: "client_env \<Rightarrow> client \<Rightarrow> client" where
  "OnRemoteSaDied ce c = (let (c1, ok) = ConnectService ce c in c1\<lparr>timeServiceProxy := ok\<rparr>)"

text \<open>
  The recipient is told that the service has died: the client connects again. The destructor of the
  client takes its last recipient back; \<open>remote\<close> is whether the proxy still has its remote object.
\<close>

definition OnRemoteDied :: "client_env \<Rightarrow> client \<Rightarrow> client" where
  "OnRemoteDied ce c = OnRemoteSaDied ce c"

definition destroy_TimeServiceClient :: "bool \<Rightarrow> client \<Rightarrow> client" where
  "destroy_TimeServiceClient remote c =
     (if timeServiceProxy c \<and> remote then c\<lparr>deathRecipients := deathRecipients c - 1\<rparr> else c)"

text \<open>What every function does first.\<close>

definition connected :: "client_env \<Rightarrow> client \<Rightarrow> client" where
  "connected ce c =
     (if \<not> timeServiceProxy c then (let (c1, ok) = ConnectService ce c in c1\<lparr>timeServiceProxy := ok\<rparr>) else c)"

section \<open>Calls\<close>

type_synonym ('s, 'r) client_call = "client \<times> 's \<Rightarrow> ((client \<times> 's) \<times> 'r) option"

text \<open>Connect, give \<open>failed\<close> if there is no proxy, and otherwise call.\<close>

definition with_service :: "client_env \<Rightarrow> 'r \<Rightarrow> (client \<Rightarrow> 's \<Rightarrow> ((client \<times> 's) \<times> 'r) option) \<Rightarrow> ('s, 'r) client_call" where
  "with_service ce failed call cs =
     (let (c, s) = cs; c1 = connected ce c in
      if \<not> timeServiceProxy c1 then Some ((c1, s), failed) else call c1 s)"

definition SetTime_client :: "client_env \<Rightarrow> 's itime_service \<Rightarrow> int \<Rightarrow> ('s, bool) client_call" where
  "SetTime_client ce svc time =
     with_service ce False (\<lambda>c s. map_option (\<lambda>(s', e). ((c, s'), e = ERR_OK)) (it_SetTime svc time s))"

definition SetTimeZone_client :: "client_env \<Rightarrow> 's itime_service \<Rightarrow> string \<Rightarrow> ('s, bool) client_call" where
  "SetTimeZone_client ce svc timezoneId =
     with_service ce False (\<lambda>c s. map_option (\<lambda>(s', e). ((c, s'), e = ERR_OK)) (it_SetTimeZone svc timezoneId s))"

definition CreateTimer_client :: "client_env \<Rightarrow> 's itime_service \<Rightarrow> itimer_info option \<Rightarrow> ('s, u64) client_call" where
  "CreateTimer_client ce svc TimerOptions cs =
     (case TimerOptions of
        None \<Rightarrow> Some (cs, 0)
      | Some info \<Rightarrow>
          with_service ce 0 (\<lambda>c s.
            let timerCallbackInfoObject = ce_object ce (c_now c); c1 = c\<lparr>c_now := Suc (c_now c)\<rparr> in
            if timerCallbackInfoObject = None then Some ((c1, s), 0)
            else map_option (\<lambda>(s', timerId).
              if timerId = 0 then ((c1, s'), 0)
              else let (cb, ret) = InsertTimerCallbackInfo timerId TimerOptions (c_callbacks c1);
                       c2 = c1\<lparr>c_callbacks := cb\<rparr>
                in if \<not> ret then ((c2, s'), 0) else ((c2, s'), timerId))
              (it_CreateTimer svc (ii_type info) (ii_repeat info) (ii_interval info) timerCallbackInfoObject s)) cs)"

definition StartTimer_client :: "client_env \<Rightarrow> 's itime_service \<Rightarrow> u64 \<Rightarrow> u64 \<Rightarrow> ('s, bool) client_call" where
  "StartTimer_client ce svc timerId triggerTime =
     with_service ce False (\<lambda>c s. map_option (\<lambda>(s', ok). ((c, s'), ok)) (it_StartTimer svc timerId triggerTime s))"

definition StopTimer_client :: "client_env \<Rightarrow> 's itime_service \<Rightarrow> u64 \<Rightarrow> ('s, bool) client_call" where
  "StopTimer_client ce svc timerId =
     with_service ce False (\<lambda>c s. map_option (\<lambda>(s', ok). ((c, s'), ok)) (it_StopTimer svc timerId s))"

definition DestroyTimer_client :: "client_env \<Rightarrow> 's itime_service \<Rightarrow> u64 \<Rightarrow> ('s, bool) client_call" where
  "DestroyTimer_client ce svc timerId =
     with_service ce False (\<lambda>c s. map_option (\<lambda>(s', ok).
       if ok then ((c\<lparr>c_callbacks := fst (RemoveTimerCallbackInfo timerId (c_callbacks c))\<rparr>, s'), True)
       else ((c, s'), False)) (it_DestroyTimer svc timerId s))"

definition GetTimeZone_client :: "client_env \<Rightarrow> 's itime_service \<Rightarrow> ('s, string) client_call" where
  "GetTimeZone_client ce svc =
     with_service ce [] (\<lambda>c s. map_option (\<lambda>(s', r). ((c, s'), case r of Inl e \<Rightarrow> [] | Inr timeZoneId \<Rightarrow> timeZoneId))
       (it_GetTimeZone svc s))"

text \<open>What the functions that read a clock make of a result.\<close>

definition or_minus_one :: "client \<Rightarrow> ('s \<times> (time_error + int)) option \<Rightarrow> ((client \<times> 's) \<times> int) option" where
  "or_minus_one c r = map_option (\<lambda>(s', r). ((c, s'), case r of Inl e \<Rightarrow> -1 | Inr t \<Rightarrow> t)) r"

definition GetWallTimeMs_client :: "client_env \<Rightarrow> 's itime_service \<Rightarrow> ('s, int) client_call" where
  "GetWallTimeMs_client ce svc = with_service ce (-1) (\<lambda>c s. or_minus_one c (it_GetWallTimeMs svc s))"
definition GetWallTimeNs_client :: "client_env \<Rightarrow> 's itime_service \<Rightarrow> ('s, int) client_call" where
  "GetWallTimeNs_client ce svc = with_service ce (-1) (\<lambda>c s. or_minus_one c (it_GetWallTimeNs svc s))"
definition GetBootTimeMs_client :: "client_env \<Rightarrow> 's itime_service \<Rightarrow> ('s, int) client_call" where
  "GetBootTimeMs_client ce svc = with_service ce (-1) (\<lambda>c s. or_minus_one c (it_GetBootTimeMs svc s))"
definition GetBootTimeNs_client :: "client_env \<Rightarrow> 's itime_service \<Rightarrow> ('s, int) client_call" where
  "GetBootTimeNs_client ce svc = with_service ce (-1) (\<lambda>c s. or_minus_one c (it_GetBootTimeNs svc s))"
definition GetMonotonicTimeMs_client :: "client_env \<Rightarrow> 's itime_service \<Rightarrow> ('s, int) client_call" where
  "GetMonotonicTimeMs_client ce svc = with_service ce (-1) (\<lambda>c s. or_minus_one c (it_GetMonotonicTimeMs svc s))"
definition GetMonotonicTimeNs_client :: "client_env \<Rightarrow> 's itime_service \<Rightarrow> ('s, int) client_call" where
  "GetMonotonicTimeNs_client ce svc = with_service ce (-1) (\<lambda>c s. or_minus_one c (it_GetMonotonicTimeNs svc s))"
definition GetThreadTimeMs_client :: "client_env \<Rightarrow> 's itime_service \<Rightarrow> ('s, int) client_call" where
  "GetThreadTimeMs_client ce svc = with_service ce (-1) (\<lambda>c s. or_minus_one c (it_GetThreadTimeMs svc s))"
definition GetThreadTimeNs_client :: "client_env \<Rightarrow> 's itime_service \<Rightarrow> ('s, int) client_call" where
  "GetThreadTimeNs_client ce svc = with_service ce (-1) (\<lambda>c s. or_minus_one c (it_GetThreadTimeNs svc s))"

definition NetworkTimeStatusOff_client :: "client_env \<Rightarrow> 's itime_service \<Rightarrow> ('s, unit) client_call" where
  "NetworkTimeStatusOff_client ce svc =
     with_service ce () (\<lambda>c s. map_option (\<lambda>s'. ((c, s'), ())) (it_NetworkTimeStatusOff svc s))"

definition NetworkTimeStatusOn_client :: "client_env \<Rightarrow> 's itime_service \<Rightarrow> ('s, unit) client_call" where
  "NetworkTimeStatusOn_client ce svc =
     with_service ce () (\<lambda>c s. map_option (\<lambda>s'. ((c, s'), ())) (it_NetworkTimeStatusOn svc s))"

definition ProxyTimer_client :: "client_env \<Rightarrow> 's itime_service \<Rightarrow> int \<Rightarrow> bool \<Rightarrow> bool \<Rightarrow> ('s, bool) client_call" where
  "ProxyTimer_client ce svc uid isProxy needRetrigger =
     with_service ce False (\<lambda>c s. map_option (\<lambda>(s', ok). ((c, s'), ok)) (it_ProxyTimer svc uid isProxy needRetrigger s))"

definition ResetAllProxy_client :: "client_env \<Rightarrow> 's itime_service \<Rightarrow> ('s, bool) client_call" where
  "ResetAllProxy_client ce svc =
     with_service ce False (\<lambda>c s. map_option (\<lambda>(s', ok). ((c, s'), ok)) (it_ResetAllProxy svc s))"

section \<open>Laws\<close>

lemma connected_callbacks [simp]: "c_callbacks (connected ce c) = c_callbacks c"
  by (auto simp: connected_def ConnectService_def Let_def)

text \<open>A creation registers the information under its number, or changes nothing in the table.\<close>

lemma CreateTimer_client_table:
  assumes "CreateTimer_client ce svc (Some info) (c, s) = Some ((c', s'), n)" and "n \<noteq> 0"
  shows "c_callbacks c' = fst (InsertTimerCallbackInfo n (Some info) (c_callbacks c))" and "info_of (c_callbacks c) n = None"
proof -
  have "c_callbacks c' = fst (InsertTimerCallbackInfo n (Some info) (c_callbacks c)) \<and>
      snd (InsertTimerCallbackInfo n (Some info) (c_callbacks c))"
    using assms
    by (auto simp: CreateTimer_client_def with_service_def Let_def split: if_splits prod.splits)
  then show "c_callbacks c' = fst (InsertTimerCallbackInfo n (Some info) (c_callbacks c))"
    "info_of (c_callbacks c) n = None" by (simp_all add: Insert_answer)
qed

lemma DestroyTimer_client_table:
  assumes "DestroyTimer_client ce svc n (c, s) = Some ((c', s'), ok)"
  shows "info_of (c_callbacks c') = (if ok then (info_of (c_callbacks c))(n := None) else info_of (c_callbacks c))"
  using assms callbacks.lookup_unregister
  by (auto simp: DestroyTimer_client_def with_service_def Let_def split: if_splits prod.splits)

text \<open>A notification arrives: the proxy over the stub of a callback object is the object.\<close>

lemma notification_arrives:
  assumes "parcel_documented ops contents" "parcel_room ops"
  shows "NotifyTimer_proxy ops (OnRemoteRequest_callback ops notify) True n s = Some (notify n s)"
proof -
  define d1 where "d1 = put ops (P_token ITimerCallback_descriptor) (p_new ops)"
  define d2 where "d2 = put ops (P_uint64 n) d1"
  have c: "contents d2 = [P_token ITimerCallback_descriptor, P_uint64 n]"
    by (simp add: d1_def d2_def contents_put [OF assms] contents_new [OF assms(1)])
  obtain d3 where d3: "p_ReadInterfaceToken ops d2 = (ITimerCallback_descriptor, d3)" "contents d3 = [P_uint64 n]"
    using documented_reads(1) [OF assms(1) c] by blast
  obtain d4 where "p_ReadUint64 ops d3 = (n, d4)" using documented_reads(4) [OF assms(1) d3(2)] by blast
  then show ?thesis
    by (simp add: NotifyTimer_proxy_def write_room [OF assms(2)] OnRemoteRequest_callback_def OnTriggerStub_def
        d1_def [symmetric] d2_def [symmetric] d3)
qed

section \<open>Guarantees\<close>

text \<open>A client hears of its timer until it has destroyed it: once \<open>CreateTimer\<close> has answered a
  number, a notification of the service with this number, sent through the parcels of the IPC library,
  runs \<open>OnTrigger\<close> of the options it was created with, and then their want agent, once each; the
  creation of another timer does not change that; and after \<open>DestroyTimer\<close> has answered true a
  notification that was still on its way runs nothing.\<close>

theorem notified_until_destroyed:
  assumes "parcel_documented ops contents" and "parcel_room ops"
    and "CreateTimer_client ce svc (Some info) (c0, s0) = Some ((c1, s1), n)" and "n \<noteq> 0"
    and "CreateTimer_client ce svc (Some other) (c1, s1') = Some ((c2, s2), k)" and "k \<noteq> 0"
    and "DestroyTimer_client ce svc n (c2, s2') = Some ((c3, s3), True)"
  shows "list_all2 (\<lambda>c evs. map_option cb_events
      (NotifyTimer_proxy ops (OnRemoteRequest_callback ops NotifyTimer_callback) True n (c_callbacks c)) =
        Some (cb_events (c_callbacks c) @ evs))
    [c1, c2, c3] [events_of info, events_of info, []]"
proof -
  note t1 = CreateTimer_client_table [OF assms(3,4)] and t2 = CreateTimer_client_table [OF assms(5,6)]
  have c1: "info_of (c_callbacks c1) n = Some info"
    using callbacks.register_fresh [OF t1(2), of info] t1(1) by simp
  have c2: "info_of (c_callbacks c2) n = Some info"
    using callbacks.register_other [of n k other "c_callbacks c1"] c1 t2 by fastforce
  have c3: "info_of (c_callbacks c3) n = None"
    using DestroyTimer_client_table [OF assms(7)] by simp
  show ?thesis by (simp add: notification_arrives [OF assms(1,2)] NotifyTimer_events c1 c2 c3)
qed

text \<open>An example: a service that numbers its timers, and a client with two of them.\<close>

definition counting_service :: "nat itime_service" where
  "counting_service = (TimeServiceProxy list_parcel (\<lambda>code data reply s. None))
     \<lparr>it_CreateTimer := (\<lambda>type repeat interval obj s. Some (Suc s, of_nat (Suc s))),
      it_DestroyTimer := (\<lambda>timerId s. Some (s, True))\<rparr>"

definition ready_env :: client_env where
  "ready_env = \<lparr>ce_manager = (\<lambda>t. True), ce_ability = (\<lambda>t. True), ce_cast = (\<lambda>t. True), ce_object = Some\<rparr>"

theorem notified_until_destroyed_witness:
  "\<exists>c1 c2 c3. CreateTimer_client ready_env counting_service (Some (ITimerInfo 7)) (TimeServiceClient, 0) = Some ((c1, 1), 1) \<and>
     CreateTimer_client ready_env counting_service (Some (ITimerInfo 8)) (c1, 1) = Some ((c2, 2), 2) \<and>
     DestroyTimer_client ready_env counting_service 1 (c2, 2) = Some ((c3, 2), True) \<and>
     map_option cb_events (NotifyTimer_proxy list_parcel (OnRemoteRequest_callback list_parcel NotifyTimer_callback) True 1
       (c_callbacks c2)) = Some [OnTrigger 7]"
proof -
  note run = CreateTimer_client_def DestroyTimer_client_def with_service_def connected_def ConnectService_def
    counting_service_def ready_env_def TimeServiceClient_def InsertTimerCallbackInfo_def RemoveTimerCallbackInfo_def
    TimerCallback_def Let_def
  obtain c1 where 1: "CreateTimer_client ready_env counting_service (Some (ITimerInfo 7)) (TimeServiceClient, 0) = Some ((c1, 1), 1)"
      "timeServiceProxy c1" "c_callbacks c1 = \<lparr>TimerInfoMap = [(1, ITimerInfo 7)], cb_events = []\<rparr>"
    by (simp add: run)
  obtain c2 where 2: "CreateTimer_client ready_env counting_service (Some (ITimerInfo 8)) (c1, 1) = Some ((c2, 2), 2)"
      "timeServiceProxy c2" "cb_events (c_callbacks c2) = []"
    using 1(2,3) by (simp add: run map_find_def numeral_2_eq_2)
  obtain c3 where 3: "DestroyTimer_client ready_env counting_service 1 (c2, 2) = Some ((c3, 2), True)"
    using 2(2) by (simp add: run)
  from notified_until_destroyed [OF list_parcel_ok 1(1) _ 2(1) _ 3] 2(3) show ?thesis
    using 1(1) 2(1) 3 by (auto simp: events_of_def ITimerInfo_def)
qed

end
