(* ===== verification/Js_Engine.thy ===== *)
theory Js_Engine
  imports Prelude
begin

text \<open>
  What the JavaScript bindings use of the engine: the Node-API. It is outside the program, so the
  type of the values is a parameter and \<open>js_engine\<close> has the functions; \<open>None\<close> is a call that
  fails and leaves its output as it was. Calls whose failure would mean a broken engine (reading the
  arguments, \<open>napi_typeof\<close>, queueing work) are taken to succeed. What the script sees, in order, is
  a log. \<open>js_base\<close> is what the two modules have in common; each extends it.
\<close>

section \<open>The engine\<close>

datatype napi_valuetype =
  napi_undefined | napi_null | napi_boolean | napi_number | napi_string | napi_symbol
  | napi_object | napi_function | napi_external

text \<open>
  A reference is the value it keeps alive. \<open>js_string\<close> gets the size of the buffer and gives the
  bytes before the terminating zero. \<open>js_call0\<close> calls a method without arguments.
  \<open>js_works_after_throw\<close> is whether a promise can be made while an exception is pending.
\<close>

record 'v js_engine =
  js_undefined :: 'v
  js_null :: 'v
  js_typeof :: "'v \<Rightarrow> napi_valuetype"
  js_has :: "'v \<Rightarrow> string \<Rightarrow> bool"
  js_get :: "'v \<Rightarrow> string \<Rightarrow> 'v"
  js_int32 :: "'v \<Rightarrow> i32 option"
  js_int64 :: "'v \<Rightarrow> int option"
  js_bool :: "'v \<Rightarrow> bool option"
  js_string :: "nat \<Rightarrow> 'v \<Rightarrow> string"
  js_unwrap :: "'v \<Rightarrow> nat option"
  js_call0 :: "'v \<Rightarrow> 'v \<Rightarrow> 'v"
  js_reference :: "'v \<Rightarrow> 'v option"
  js_of_int :: "int \<Rightarrow> 'v"
  js_of_date :: "int \<Rightarrow> 'v"
  js_of_string :: "string \<Rightarrow> 'v"
  js_object_with :: "string \<Rightarrow> 'v \<Rightarrow> 'v"
  js_works_after_throw :: bool

text \<open>\<open>napi_get_cb_info\<close>: an argument that was not given is undefined.\<close>

definition js_arg :: "'v js_engine \<Rightarrow> 'v list \<Rightarrow> nat \<Rightarrow> 'v" where
  "js_arg eng args i = (if i < length args then args ! i else js_undefined eng)"

section \<open>What the script sees\<close>

datatype 'v js_event = Js_throw string | Js_promise nat | Js_resolve nat 'v | Js_reject nat 'v | Js_call 'v "'v list"

record 'v js_base =
  js_log :: "'v js_event list"
  js_promises :: nat
  js_pending :: bool

text \<open>What a function returns to the engine; \<open>Return_nothing\<close> is the null pointer.\<close>

datatype 'v js_return = Return_nothing | Return_value 'v | Return_promise nat

definition js_emit :: "'v js_event \<Rightarrow> ('v, 'z) js_base_scheme \<Rightarrow> ('v, 'z) js_base_scheme" where
  "js_emit e st = st\<lparr>js_log := js_log st @ [e]\<rparr>"

text \<open>An assertion that fails: the exception is pending until the function returns.\<close>

definition js_throw :: "string \<Rightarrow> ('v, 'z) js_base_scheme \<Rightarrow> ('v, 'z) js_base_scheme" where
  "js_throw msg st = (js_emit (Js_throw msg) st)\<lparr>js_pending := True\<rparr>"

definition js_create_promise :: "'v js_engine \<Rightarrow> ('v, 'z) js_base_scheme \<Rightarrow> ('v, 'z) js_base_scheme \<times> nat option" where
  "js_create_promise eng st =
     (if js_pending st \<and> \<not> js_works_after_throw eng then (st, None)
      else ((js_emit (Js_promise (js_promises st)) st)\<lparr>js_promises := Suc (js_promises st)\<rparr>, Some (js_promises st)))"

definition js_settle :: "(nat \<Rightarrow> 'v js_event) \<Rightarrow> nat option \<Rightarrow> ('v, 'z) js_base_scheme \<Rightarrow> ('v, 'z) js_base_scheme" where
  "js_settle how deferred st = (case deferred of None \<Rightarrow> st | Some d \<Rightarrow> js_emit (how d) st)"

text \<open>The function returns: a pending exception is thrown to the script instead of the result.\<close>

definition js_return_to_script :: "('v, 'z) js_base_scheme \<times> 'v js_return \<Rightarrow> ('v, 'z) js_base_scheme \<times> 'v js_return option" where
  "js_return_to_script r = (let (st, v) = r in (st\<lparr>js_pending := False\<rparr>, if js_pending st then None else Some v))"

section \<open>What a module exports\<close>

text \<open>
  A module's functions and values, and the object \<open>exports\<close> that it fills: \<open>napi_define_properties\<close>
  goes through the table of descriptors in order. The object of a module that is just loaded is empty.
\<close>

datatype ('f, 'v) js_export = Js_function 'f | Js_property 'v

definition napi_define_properties ::
  "(string \<times> ('f, 'v) js_export) list \<Rightarrow> (string \<rightharpoonup> ('f, 'v) js_export) \<Rightarrow> string \<rightharpoonup> ('f, 'v) js_export" where
  "napi_define_properties desc exports = foldl (\<lambda>obj (name, x). obj(name \<mapsto> x)) exports desc"

section \<open>Settling\<close>

text \<open>How often a promise has been settled.\<close>

fun settles :: "nat \<Rightarrow> 'v js_event \<Rightarrow> nat" where
  "settles d (Js_resolve d' v) = (if d = d' then 1 else 0)"
| "settles d (Js_reject d' v) = (if d = d' then 1 else 0)"
| "settles d _ = 0"

definition settled :: "nat \<Rightarrow> 'v js_event list \<Rightarrow> nat" where
  "settled d log = sum_list (map (settles d) log)"

lemma settled_append [simp]: "settled d (xs @ ys) = settled d xs + settled d ys"
  by (simp add: settled_def)

lemma settled_Nil [simp]: "settled d [] = 0"
  by (simp add: settled_def)

lemma settled_Cons [simp]: "settled d (e # log) = settles d e + settled d log"
  by (simp add: settled_def)

text \<open>Work that is outstanding, as the promises it has to settle.\<close>

definition deferreds :: "nat option list \<Rightarrow> nat multiset" where
  "deferreds ds = mset (List.map_filter (\<lambda>d. d) ds)"

lemma deferreds_simps [simp]:
  "deferreds [] = {#}" "deferreds (None # ds) = deferreds ds" "deferreds (Some d # ds) = add_mset d (deferreds ds)"
  "deferreds (ds @ es) = deferreds ds + deferreds es"
  by (simp_all add: deferreds_def List.map_filter_def)

text \<open>Every promise that was made has been settled once or is owed once, and no other has or is.\<close>

definition promises_kept :: "nat \<Rightarrow> 'v js_event list \<Rightarrow> nat multiset \<Rightarrow> bool" where
  "promises_kept made log owed \<longleftrightarrow> (\<forall>d. settled d log + count owed d = (if d < made then 1 else 0))"

lemma kept_at_most_once: "promises_kept made log owed \<Longrightarrow> settled d log \<le> 1"
  unfolding promises_kept_def by (metis add_leE le_refl zero_le_one)

lemma kept_once: "promises_kept made log owed \<Longrightarrow> d < made \<Longrightarrow> d \<notin># owed \<Longrightarrow> settled d log = 1"
  unfolding promises_kept_def by (metis add.right_neutral not_in_iff)

section \<open>A module with asynchronous work\<close>

text \<open>
  A module owes its script every promise it has made: \<open>owed\<close> are the promises that outstanding work
  has still to settle. A step makes promises, and settles a promise only when it stops owing it.
\<close>

locale async_module =
  fixes made :: "'s \<Rightarrow> nat" and log_of :: "'s \<Rightarrow> 'v js_event list" and owed :: "'s \<Rightarrow> nat multiset"
    and step :: "'s \<Rightarrow> 's \<Rightarrow> bool"
  assumes made_grows: "step s s' \<Longrightarrow> made s \<le> made s'"
    and step_balance: "step s s' \<Longrightarrow>
      settled d (log_of s') + count (owed s') d =
      settled d (log_of s) + count (owed s) d + (if made s \<le> d \<and> d < made s' then 1 else 0)"
begin

lemma kept_step: "promises_kept (made s) (log_of s) (owed s) \<Longrightarrow> step s s' \<Longrightarrow>
    promises_kept (made s') (log_of s') (owed s')"
  unfolding promises_kept_def using step_balance [of s s'] made_grows [of s s'] by auto

lemma kept_steps: "step\<^sup>*\<^sup>* s s' \<Longrightarrow> promises_kept (made s) (log_of s) (owed s) \<Longrightarrow>
    promises_kept (made s') (log_of s') (owed s')"
  by (induction rule: rtranclp_induct) (auto intro: kept_step)

end

section \<open>Reading arguments\<close>

text \<open>
  A function that reads arguments ends with \<open>Inl\<close> when it returns the null pointer: with the text of
  the error that an assertion has thrown, or with \<open>None\<close> when nothing was thrown.
\<close>

definition js_then :: "string option + 'a \<Rightarrow> ('a \<Rightarrow> string option + 'b) \<Rightarrow> string option + 'b" where
  "js_then r f = (case r of Inl e \<Rightarrow> Inl e | Inr x \<Rightarrow> f x)"

definition js_assert :: "bool \<Rightarrow> string \<Rightarrow> string option + unit" where
  "js_assert ok msg = (if ok then Inr () else Inl (Some msg))"

lemma js_then_Inr [simp]: "js_then r f = Inr y \<longleftrightarrow> (\<exists>x. r = Inr x \<and> f x = Inr y)"
  by (cases r) (simp_all add: js_then_def)

lemma js_assert_Inr [simp]: "js_assert ok msg = Inr u \<longleftrightarrow> ok"
  by (simp add: js_assert_def)

definition js_raise :: "string option \<Rightarrow> ('v, 'z) js_base_scheme \<Rightarrow> ('v, 'z) js_base_scheme" where
  "js_raise e st = (case e of None \<Rightarrow> st | Some msg \<Rightarrow> js_throw msg st)"

definition or_else :: "'a option \<Rightarrow> 'a \<Rightarrow> 'a" where
  "or_else x d = (case x of None \<Rightarrow> d | Some y \<Rightarrow> y)"

lemma or_else_simps [simp]: "or_else None d = d" "or_else (Some y) d = y"
  by (simp_all add: or_else_def)

section \<open>An example\<close>

datatype js_value =
  V_undefined | V_null | V_number int | V_boolean bool | V_string string | V_object "(string \<times> js_value) list" | V_function nat

fun value_type :: "js_value \<Rightarrow> napi_valuetype" where
  "value_type V_undefined = napi_undefined"
| "value_type V_null = napi_null"
| "value_type (V_number n) = napi_number"
| "value_type (V_boolean b) = napi_boolean"
| "value_type (V_string t) = napi_string"
| "value_type (V_object ps) = napi_object"
| "value_type (V_function f) = napi_function"

fun value_properties :: "js_value \<Rightarrow> string \<rightharpoonup> js_value" where
  "value_properties (V_object ps) = map_of ps"
| "value_properties v = Map.empty"

definition sample_engine :: "js_value js_engine" where
  "sample_engine = \<lparr>js_undefined = V_undefined, js_null = V_null, js_typeof = value_type,
     js_has = (\<lambda>v k. value_properties v k \<noteq> None), js_get = (\<lambda>v k. or_else (value_properties v k) V_undefined),
     js_int32 = (\<lambda>v. case v of V_number n \<Rightarrow> Some (word_of_int n) | _ \<Rightarrow> None),
     js_int64 = (\<lambda>v. case v of V_number n \<Rightarrow> Some n | _ \<Rightarrow> None),
     js_bool = (\<lambda>v. case v of V_boolean b \<Rightarrow> Some b | _ \<Rightarrow> None),
     js_string = (\<lambda>n v. case v of V_string t \<Rightarrow> take (n - 1) t | _ \<Rightarrow> []),
     js_unwrap = (\<lambda>v. None), js_call0 = (\<lambda>this f. V_undefined),
     js_reference = (\<lambda>v. case v of V_function f \<Rightarrow> Some v | V_object ps \<Rightarrow> Some v | _ \<Rightarrow> None),
     js_of_int = V_number, js_of_date = (\<lambda>t. V_object [(''time'', V_number t)]), js_of_string = V_string,
     js_object_with = (\<lambda>k v. V_object [(k, v)]), js_works_after_throw = True\<rparr>"

lemma sample_engine_sel [simp]:
  "js_null sample_engine = V_null" "js_typeof sample_engine = value_type" "js_of_int sample_engine = V_number"
  "js_has sample_engine v k \<longleftrightarrow> value_properties v k \<noteq> None"
  "js_get sample_engine v k = or_else (value_properties v k) V_undefined"
  "js_int32 sample_engine (V_number n) = Some (word_of_int n)" "js_int64 sample_engine (V_number n) = Some n"
  "js_bool sample_engine (V_boolean b) = Some b" "js_works_after_throw sample_engine"
  by (simp_all add: sample_engine_def)

end
