(* ===== verification/Js_Timer.thy ===== *)
theory Js_Timer
  imports Js_Engine Time_Client
begin

text \<open>
  The JavaScript module \<open>systemTimer\<close> (\<open>system_timer.cpp\<close>, \<open>timer_type.h\<close>): four functions that
  read their arguments, queue work for a worker thread, and give null or a promise. The work calls the
  client library; when it is done the engine runs its completion, which calls the script's callback or
  settles the promise. A context of asynchronous work is in allocated memory, named by a number:
  \<open>jt_live\<close> are the numbers that have not been freed. \<open>None\<close> is undefined behaviour of the module
  (a null pointer or a freed context is read, or the end of a vector), or a call that does not return.
\<close>

definition NO_ERROR :: int where "NO_ERROR = 0"
definition ERROR :: int where "ERROR = -1"
definition CREATE_MAX_PARA :: nat where "CREATE_MAX_PARA = 2"
definition START_MAX_PARA :: nat where "START_MAX_PARA = 3"
definition STOP_MAX_PARA :: nat where "STOP_MAX_PARA = 2"
definition DESTROY_MAX_PARA :: nat where "DESTROY_MAX_PARA = 2"

lemmas js_constants = NO_ERROR_def ERROR_def CREATE_MAX_PARA_def START_MAX_PARA_def STOP_MAX_PARA_def DESTROY_MAX_PARA_def

section \<open>Results\<close>

record 'v callback_promise_info =
  cp_callback :: "'v option"
  cp_deferred :: "nat option"
  cp_isCallback :: bool
  cp_errorCode :: int

definition GetCallbackErrorValue :: "'v js_engine \<Rightarrow> int \<Rightarrow> 'v" where
  "GetCallbackErrorValue eng errCode = js_object_with eng ''code'' (js_of_int eng errCode)"

definition SetPromise :: "nat option \<Rightarrow> int \<Rightarrow> 'v \<Rightarrow> ('v, 'z) js_base_scheme \<Rightarrow> ('v, 'z) js_base_scheme" where
  "SetPromise deferred errorCode result st =
     (if errorCode = NO_ERROR then js_settle (\<lambda>d. Js_resolve d result) deferred st
      else js_settle (\<lambda>d. Js_reject d result) deferred st)"

definition SetCallback :: "'v js_engine \<Rightarrow> 'v option \<Rightarrow> int \<Rightarrow> 'v \<Rightarrow> ('v, 'z) js_base_scheme \<Rightarrow> ('v, 'z) js_base_scheme" where
  "SetCallback eng callbackIn errorCode result st =
     (case callbackIn of
        None \<Rightarrow> st
      | Some callback \<Rightarrow> js_emit (Js_call callback [GetCallbackErrorValue eng errorCode, result]) st)"

definition JSParaError :: "'v js_engine \<Rightarrow> 'v option \<Rightarrow> ('v, 'z) js_base_scheme \<Rightarrow> ('v, 'z) js_base_scheme \<times> 'v js_return" where
  "JSParaError eng callback st =
     (if callback \<noteq> None then (st, Return_value (js_null eng))
      else let (st1, promise) = js_create_promise eng st in
        (SetPromise promise ERROR (js_null eng) st1,
         case promise of None \<Rightarrow> Return_nothing | Some p \<Rightarrow> Return_promise p))"

definition ReturnCallbackPromise ::
  "'v js_engine \<Rightarrow> 'v callback_promise_info \<Rightarrow> 'v \<Rightarrow> ('v, 'z) js_base_scheme \<Rightarrow> ('v, 'z) js_base_scheme" where
  "ReturnCallbackPromise eng info result st =
     (if cp_isCallback info then SetCallback eng (cp_callback info) (cp_errorCode info) result st
      else SetPromise (cp_deferred info) (cp_errorCode info) result st)"

section \<open>Timer instances\<close>

text \<open>The part of \<open>ITimerInfoInstance\<close> that the client library reads, and the script's callback.\<close>

record 'v js_instance =
  ji_type :: i32
  ji_repeat :: bool
  ji_interval :: u64
  ji_wantAgent :: "nat option"
  ji_callback :: "'v option"

definition ITimerInfoInstance :: "'v js_instance" where
  "ITimerInfoInstance =
     (let base = ITimerInfo 0 in
      \<lparr>ji_type = ii_type base, ji_repeat = ii_repeat base, ji_interval = ii_interval base,
       ji_wantAgent = ii_wantAgent base, ji_callback = None\<rparr>)"

definition SetCallbackInfo :: "'v option \<Rightarrow> 'v js_instance \<Rightarrow> 'v js_instance" where
  "SetCallbackInfo ref inst = inst\<lparr>ji_callback := ref\<rparr>"
definition SetType :: "i32 \<Rightarrow> 'v js_instance \<Rightarrow> 'v js_instance" where "SetType type inst = inst\<lparr>ji_type := type\<rparr>"
definition SetRepeat :: "bool \<Rightarrow> 'v js_instance \<Rightarrow> 'v js_instance" where "SetRepeat rep inst = inst\<lparr>ji_repeat := rep\<rparr>"
definition SetInterval :: "u64 \<Rightarrow> 'v js_instance \<Rightarrow> 'v js_instance" where
  "SetInterval interval inst = inst\<lparr>ji_interval := interval\<rparr>"
definition SetWantAgent :: "nat option \<Rightarrow> 'v js_instance \<Rightarrow> 'v js_instance" where
  "SetWantAgent agent inst = inst\<lparr>ji_wantAgent := agent\<rparr>"

lemmas instance_setters = SetCallbackInfo_def SetType_def SetRepeat_def SetInterval_def SetWantAgent_def

text \<open>What the client library is given: the instance, named by its number.\<close>

definition as_info :: "nat \<Rightarrow> 'v js_instance \<Rightarrow> itimer_info" where
  "as_info k inst = \<lparr>ii_type = ji_type inst, ii_repeat = ji_repeat inst, ii_interval = ji_interval inst,
     ii_wantAgent = ji_wantAgent inst, ii_onTrigger = k\<rparr>"

section \<open>Arguments\<close>

definition expect_type :: "'v js_engine \<Rightarrow> napi_valuetype \<Rightarrow> 'v \<Rightarrow> string \<Rightarrow> string option + unit" where
  "expect_type eng expected v msg = js_assert (js_typeof eng v = expected) msg"

text \<open>The optional properties of the options, one after the other.\<close>

definition interval_option :: "'v js_engine \<Rightarrow> 'v \<Rightarrow> 'v js_instance \<Rightarrow> string option + 'v js_instance" where
  "interval_option eng value inst =
     (if js_has eng value ''interval''
      then let result = js_get eng value ''interval'' in
        js_then (expect_type eng napi_number result ''Wrong argument type. Number expected.'') (\<lambda>_.
        let interval = or_else (js_int64 eng result) 0 in
        js_then (js_assert (0 \<le> interval) ''Wrong argument number. Positive number expected.'') (\<lambda>_.
        Inr (SetInterval (word_of_int interval) inst)))
      else Inr inst)"

definition agent_option :: "'v js_engine \<Rightarrow> 'v \<Rightarrow> 'v js_instance \<Rightarrow> string option + 'v js_instance" where
  "agent_option eng value inst =
     (if js_has eng value ''wantAgent''
      then let result = js_get eng value ''wantAgent'' in
        js_then (expect_type eng napi_object result ''Wrong argument type. Object expected.'') (\<lambda>_.
        case js_unwrap eng result of None \<Rightarrow> Inl None | Some agent \<Rightarrow> Inr (SetWantAgent (Some agent) inst))
      else Inr inst)"

definition callback_option :: "'v js_engine \<Rightarrow> 'v \<Rightarrow> 'v js_instance \<Rightarrow> string option + 'v js_instance" where
  "callback_option eng value inst =
     (if js_has eng value ''callback''
      then let result = js_get eng value ''callback'' in
        js_then (expect_type eng napi_function result ''Wrong argument type. Function expected.'') (\<lambda>_.
        Inr (SetCallbackInfo (js_reference eng result) inst))
      else Inr inst)"

definition GetTimerOptions :: "'v js_engine \<Rightarrow> 'v \<Rightarrow> 'v js_instance \<Rightarrow> string option + 'v js_instance" where
  "GetTimerOptions eng value inst =
     js_then (js_assert (js_has eng value ''type'') ''type expected.'') (\<lambda>_.
     let result = js_get eng value ''type'' in
     js_then (expect_type eng napi_number result ''Wrong argument type. Number expected.'') (\<lambda>_.
     let inst1 = SetType (or_else (js_int32 eng result) 0) inst in
     js_then (js_assert (js_has eng value ''repeat'') ''repeat expected.'') (\<lambda>_.
     let result = js_get eng value ''repeat'' in
     js_then (expect_type eng napi_boolean result ''Wrong argument type. Bool expected.'') (\<lambda>_.
     let inst2 = SetRepeat (or_else (js_bool eng result) False) inst1 in
     js_then (interval_option eng value inst2) (\<lambda>inst3.
     js_then (agent_option eng value inst3) (\<lambda>inst4.
     callback_option eng value inst4))))))"

text \<open>The last argument, a callback, when it is given: a reference to it.\<close>

definition callback_argument :: "'v js_engine \<Rightarrow> nat \<Rightarrow> 'v list \<Rightarrow> string option + 'v option" where
  "callback_argument eng maxPara args =
     (if length args \<ge> maxPara
      then let v = js_arg eng args (maxPara - 1) in
        js_then (expect_type eng napi_function v ''Wrong argument type. Function expected.'') (\<lambda>_.
        Inr (js_reference eng v))
      else Inr None)"

text \<open>An argument that has to be a number that is not negative.\<close>

definition number_argument :: "'v js_engine \<Rightarrow> 'v list \<Rightarrow> nat \<Rightarrow> string \<Rightarrow> string option + u64" where
  "number_argument eng args i msg =
     (let v = js_arg eng args i in
      js_then (expect_type eng napi_number v ''Wrong argument type. Number expected.'') (\<lambda>_.
      let n = or_else (js_int64 eng v) 0 in
      js_then (js_assert (0 \<le> n) msg) (\<lambda>_. Inr (word_of_int n))))"

definition ParseParametersByCreateTimer :: "'v js_engine \<Rightarrow> 'v list \<Rightarrow> 'v js_instance \<Rightarrow> string option + 'v js_instance \<times> 'v option" where
  "ParseParametersByCreateTimer eng args inst =
     js_then (js_assert (length args \<ge> CREATE_MAX_PARA - 1) ''Wrong number of arguments'') (\<lambda>_.
     js_then (expect_type eng napi_object (js_arg eng args 0) ''Wrong argument type. Object expected.'') (\<lambda>_.
     js_then (GetTimerOptions eng (js_arg eng args 0) inst) (\<lambda>inst'.
     js_then (callback_argument eng CREATE_MAX_PARA args) (\<lambda>callback. Inr (inst', callback)))))"

definition ParseParametersByStartTimer :: "'v js_engine \<Rightarrow> 'v list \<Rightarrow> string option + u64 \<times> u64 \<times> 'v option" where
  "ParseParametersByStartTimer eng args =
     js_then (js_assert (length args \<ge> START_MAX_PARA - 1) ''Wrong number of arguments'') (\<lambda>_.
     js_then (number_argument eng args 0 ''Wrong argument timer. Positive number expected.'') (\<lambda>timerId.
     js_then (number_argument eng args 1 ''Wrong argument triggerTime. Positive number expected.'') (\<lambda>triggerTime.
     js_then (callback_argument eng START_MAX_PARA args) (\<lambda>callback. Inr (timerId, triggerTime, callback)))))"

definition ParseParametersByStopTimer :: "'v js_engine \<Rightarrow> 'v list \<Rightarrow> string option + u64 \<times> 'v option" where
  "ParseParametersByStopTimer eng args =
     js_then (js_assert (length args \<ge> STOP_MAX_PARA - 1) ''Wrong number of arguments'') (\<lambda>_.
     js_then (number_argument eng args 0 ''Wrong argument timer. Positive number expected.'') (\<lambda>timerId.
     js_then (callback_argument eng STOP_MAX_PARA args) (\<lambda>callback. Inr (timerId, callback))))"

definition ParseParametersByDestroyTimer :: "'v js_engine \<Rightarrow> 'v list \<Rightarrow> string option + u64 \<times> 'v option" where
  "ParseParametersByDestroyTimer eng args =
     js_then (js_assert (length args \<ge> DESTROY_MAX_PARA - 1) ''Wrong number of arguments'') (\<lambda>_.
     js_then (number_argument eng args 0 ''Wrong argument timer. Positive number expected.'') (\<lambda>timerId.
     js_then (callback_argument eng DESTROY_MAX_PARA args) (\<lambda>callback. Inr (timerId, callback))))"

section \<open>The module\<close>

text \<open>
  The four structures \<open>AsyncCallbackInfoCreate\<close> to \<open>AsyncCallbackInfoDestroy\<close> in one record: \<open>ai_instance\<close> is the number of the
  timer instance, \<open>ai_isOK\<close> the answer of the client library.
\<close>

record 'v async_info =
  ai_callback :: "'v option"
  ai_deferred :: "nat option"
  ai_instance :: nat
  ai_timerId :: u64
  ai_triggerTime :: u64
  ai_isOK :: bool
  ai_isCallback :: bool
  ai_errorCode :: int

definition AsyncCallbackInfo :: "'v async_info" where
  "AsyncCallbackInfo = \<lparr>ai_callback = None, ai_deferred = None, ai_instance = 0, ai_timerId = 0,
     ai_triggerTime = 0, ai_isOK = False, ai_isCallback = False, ai_errorCode = NO_ERROR\<rparr>"

datatype js_operation = Op_createTimer | Op_startTimer | Op_stopTimer | Op_destroyTimer

text \<open>
  \<open>jt_queued\<close> is work that no thread has run yet, \<open>jt_executed\<close> work whose completion is to come,
  with the number of its context; \<open>asyncCallbackInfoCreateInfo\<close> has the contexts of created timers,
  with the timers' numbers; \<open>jt_uv\<close> is the callbacks that have been posted to the event loop.
\<close>

record 'v js_timers = "'v js_base" +
  jt_instances :: "'v js_instance list"
  jt_next :: nat
  jt_live :: "nat set"
  jt_queued :: "(js_operation \<times> nat \<times> 'v async_info) list"
  jt_executed :: "(js_operation \<times> nat \<times> 'v async_info) list"
  asyncCallbackInfoCreateInfo :: "(nat \<times> u64) option list"
  jt_uv :: "'v list"

definition js_timers_start :: "'v js_timers" where
  "js_timers_start = \<lparr>js_log = [], js_promises = 0, js_pending = False, jt_instances = [], jt_next = 0, jt_live = {},
     jt_queued = [], jt_executed = [], asyncCallbackInfoCreateInfo = [], jt_uv = []\<rparr>"

section \<open>Calls\<close>

text \<open>The context gets the callback, or a promise is made. The four functions are the same.\<close>

definition padding ::
  "'v js_engine \<Rightarrow> 'v option \<Rightarrow> 'v async_info \<Rightarrow> ('v, 'z) js_base_scheme \<Rightarrow> ('v, 'z) js_base_scheme \<times> 'v async_info \<times> nat option" where
  "padding eng callback ai st =
     (if callback \<noteq> None then (st, ai\<lparr>ai_callback := callback, ai_isCallback := True\<rparr>, None)
      else let (st1, deferred) = js_create_promise eng st in
        case deferred of
          None \<Rightarrow> (st1, ai, None)
        | Some d \<Rightarrow> (st1, ai\<lparr>ai_deferred := Some d, ai_isCallback := False\<rparr>, Some d))"

definition PaddingAsyncCallbackInfoIsByCreateTimer ::
  "'v js_engine \<Rightarrow> 'v option \<Rightarrow> 'v async_info \<Rightarrow> ('v, 'z) js_base_scheme \<Rightarrow> ('v, 'z) js_base_scheme \<times> 'v async_info \<times> nat option" where
  "PaddingAsyncCallbackInfoIsByCreateTimer = padding"
definition PaddingAsyncCallbackInfoIsByStartTimer ::
  "'v js_engine \<Rightarrow> 'v option \<Rightarrow> 'v async_info \<Rightarrow> ('v, 'z) js_base_scheme \<Rightarrow> ('v, 'z) js_base_scheme \<times> 'v async_info \<times> nat option" where
  "PaddingAsyncCallbackInfoIsByStartTimer = padding"
definition PaddingAsyncCallbackInfoIsByStopTimer ::
  "'v js_engine \<Rightarrow> 'v option \<Rightarrow> 'v async_info \<Rightarrow> ('v, 'z) js_base_scheme \<Rightarrow> ('v, 'z) js_base_scheme \<times> 'v async_info \<times> nat option" where
  "PaddingAsyncCallbackInfoIsByStopTimer = padding"
definition PaddingAsyncCallbackInfoIsByDestroyTimer ::
  "'v js_engine \<Rightarrow> 'v option \<Rightarrow> 'v async_info \<Rightarrow> ('v, 'z) js_base_scheme \<Rightarrow> ('v, 'z) js_base_scheme \<times> 'v async_info \<times> nat option" where
  "PaddingAsyncCallbackInfoIsByDestroyTimer = padding"

lemmas padding_defs = PaddingAsyncCallbackInfoIsByCreateTimer_def PaddingAsyncCallbackInfoIsByStartTimer_def
  PaddingAsyncCallbackInfoIsByStopTimer_def PaddingAsyncCallbackInfoIsByDestroyTimer_def

text \<open>The context is allocated and its work queued; the function gives null or the promise.\<close>

definition queue_work ::
  "'v js_engine \<Rightarrow> js_operation \<Rightarrow> 'v js_timers \<times> 'v async_info \<times> nat option \<Rightarrow> 'v js_timers \<times> 'v js_return" where
  "queue_work eng op r =
     (let (st, ai, promise) = r; p = jt_next st in
      (st\<lparr>jt_next := Suc p, jt_live := insert p (jt_live st), jt_queued := jt_queued st @ [(op, p, ai)]\<rparr>,
       if ai_isCallback ai then Return_value (js_null eng)
       else case promise of None \<Rightarrow> Return_nothing | Some d \<Rightarrow> Return_promise d))"

text \<open>\<open>room\<close> is whether the context could be allocated.\<close>

definition CreateTimer_js :: "'v js_engine \<Rightarrow> bool \<Rightarrow> 'v list \<Rightarrow> 'v js_timers \<Rightarrow> 'v js_timers \<times> 'v js_return" where
  "CreateTimer_js eng room args st =
     (case ParseParametersByCreateTimer eng args ITimerInfoInstance of
        Inl e \<Rightarrow> JSParaError eng None (js_raise e st)
      | Inr (inst, callback) \<Rightarrow>
          if \<not> room then JSParaError eng callback st
          else let k = length (jt_instances st); st1 = st\<lparr>jt_instances := jt_instances st @ [inst]\<rparr> in
            queue_work eng Op_createTimer
              (PaddingAsyncCallbackInfoIsByCreateTimer eng callback (AsyncCallbackInfo\<lparr>ai_instance := k\<rparr>) st1))"

definition StartTimer_js :: "'v js_engine \<Rightarrow> bool \<Rightarrow> 'v list \<Rightarrow> 'v js_timers \<Rightarrow> 'v js_timers \<times> 'v js_return" where
  "StartTimer_js eng room args st =
     (case ParseParametersByStartTimer eng args of
        Inl e \<Rightarrow> JSParaError eng None (js_raise e st)
      | Inr (timerId, triggerTime, callback) \<Rightarrow>
          if \<not> room then JSParaError eng callback st
          else queue_work eng Op_startTimer
            (PaddingAsyncCallbackInfoIsByStartTimer eng callback
              (AsyncCallbackInfo\<lparr>ai_timerId := timerId, ai_triggerTime := triggerTime\<rparr>) st))"

definition StopTimer_js :: "'v js_engine \<Rightarrow> bool \<Rightarrow> 'v list \<Rightarrow> 'v js_timers \<Rightarrow> 'v js_timers \<times> 'v js_return" where
  "StopTimer_js eng room args st =
     (case ParseParametersByStopTimer eng args of
        Inl e \<Rightarrow> JSParaError eng None (js_raise e st)
      | Inr (timerId, callback) \<Rightarrow>
          if \<not> room then JSParaError eng callback st
          else queue_work eng Op_stopTimer
            (PaddingAsyncCallbackInfoIsByStopTimer eng callback (AsyncCallbackInfo\<lparr>ai_timerId := timerId\<rparr>) st))"

definition DestroyTimer_js :: "'v js_engine \<Rightarrow> bool \<Rightarrow> 'v list \<Rightarrow> 'v js_timers \<Rightarrow> 'v js_timers \<times> 'v js_return" where
  "DestroyTimer_js eng room args st =
     (case ParseParametersByDestroyTimer eng args of
        Inl e \<Rightarrow> JSParaError eng None (js_raise e st)
      | Inr (timerId, callback) \<Rightarrow>
          if \<not> room then JSParaError eng callback st
          else queue_work eng Op_destroyTimer
            (PaddingAsyncCallbackInfoIsByDestroyTimer eng callback (AsyncCallbackInfo\<lparr>ai_timerId := timerId\<rparr>) st))"

section \<open>Work\<close>

text \<open>What a worker thread does with a context: the call of the client library, over the states of the
  client and the service. \<open>info\<close> is the timer instance of the context.\<close>

fun execute_call ::
  "client_env \<Rightarrow> 's itime_service \<Rightarrow> js_operation \<Rightarrow> itimer_info \<Rightarrow> 'v async_info \<Rightarrow> client \<times> 's \<Rightarrow> ((client \<times> 's) \<times> 'v async_info) option" where
  "execute_call ce svc Op_createTimer info ai cs =
     map_option (\<lambda>(cs', timerId). (cs', ai\<lparr>ai_timerId := timerId\<rparr>)) (CreateTimer_client ce svc (Some info) cs)"
| "execute_call ce svc Op_startTimer info ai cs =
     map_option (\<lambda>(cs', ok). (cs', ai\<lparr>ai_isOK := ok\<rparr>)) (StartTimer_client ce svc (ai_timerId ai) (ai_triggerTime ai) cs)"
| "execute_call ce svc Op_stopTimer info ai cs =
     map_option (\<lambda>(cs', ok). (cs', ai\<lparr>ai_isOK := ok\<rparr>)) (StopTimer_client ce svc (ai_timerId ai) cs)"
| "execute_call ce svc Op_destroyTimer info ai cs =
     map_option (\<lambda>(cs', ok). (cs', ai\<lparr>ai_isOK := ok\<rparr>)) (DestroyTimer_client ce svc (ai_timerId ai) cs)"

definition execute_work ::
  "client_env \<Rightarrow> 's itime_service \<Rightarrow> nat \<Rightarrow> 'v js_timers \<times> (client \<times> 's) \<Rightarrow> ('v js_timers \<times> (client \<times> 's)) option" where
  "execute_work ce svc i r =
     (let (st, cs) = r; (op, p, ai) = jt_queued st ! i;
          info = as_info (ai_instance ai) (jt_instances st ! ai_instance ai)
      in map_option (\<lambda>(cs', ai').
           let st1 = st\<lparr>jt_queued := take i (jt_queued st) @ drop (Suc i) (jt_queued st),
                        jt_executed := jt_executed st @ [(op, p, ai')]\<rparr>
           in (if op = Op_createTimer \<and> ai_timerId ai' > 0
               then st1\<lparr>asyncCallbackInfoCreateInfo := asyncCallbackInfoCreateInfo st1 @ [Some (p, ai_timerId ai')]\<rparr>
               else st1, cs'))
         (execute_call ce svc op info ai cs))"

text \<open>
  The loop over the created timers when one has been destroyed: \<open>i\<close> is the iterator. The iterator that
  \<open>erase\<close> gives points to the next element, or to the end, and that is what is freed and nulled.
\<close>

function destroy_loop :: "u64 \<Rightarrow> nat \<Rightarrow> (nat \<times> u64) option list \<Rightarrow> nat set \<Rightarrow> ((nat \<times> u64) option list \<times> nat set) option" where
  "destroy_loop timerId i infos live =
     (if i \<ge> length infos then Some (infos, live)
      else case infos ! i of
        None \<Rightarrow> None
      | Some (p, t) \<Rightarrow>
          if p \<notin> live then None
          else if t = timerId then
            let infos' = take i infos @ drop (Suc i) infos in
            if i \<ge> length infos' then None
            else (case infos' ! i of
                    None \<Rightarrow> destroy_loop timerId (Suc i) infos' live
                  | Some (q, _) \<Rightarrow>
                      if q \<notin> live then None
                      else destroy_loop timerId (Suc i) (infos'[i := None]) (live - {q}))
          else destroy_loop timerId (Suc i) infos live)"
  by pat_completeness auto
termination by (relation "measure (\<lambda>(timerId, i, infos, live). length infos - i)") auto

declare destroy_loop.simps [simp del]

definition info_of_context :: "'v async_info \<Rightarrow> 'v callback_promise_info" where
  "info_of_context ai = \<lparr>cp_callback = ai_callback ai, cp_deferred = ai_deferred ai,
     cp_isCallback = ai_isCallback ai, cp_errorCode = ai_errorCode ai\<rparr>"

text \<open>The completions. \<open>p\<close> is the context's number; the context of a created timer is kept.\<close>

definition complete_create :: "'v js_engine \<Rightarrow> 'v async_info \<Rightarrow> 'v js_timers \<Rightarrow> 'v js_timers" where
  "complete_create eng ai st = ReturnCallbackPromise eng (info_of_context ai) (js_of_int eng (sint (ai_timerId ai))) st"

definition complete_simple :: "'v js_engine \<Rightarrow> nat \<Rightarrow> 'v async_info \<Rightarrow> 'v js_timers \<Rightarrow> 'v js_timers" where
  "complete_simple eng p ai st =
     (let ai1 = (if \<not> ai_isOK ai then ai\<lparr>ai_errorCode := ERROR\<rparr> else ai);
          st1 = ReturnCallbackPromise eng (info_of_context ai1) (js_null eng) st
      in st1\<lparr>jt_live := jt_live st1 - {p}\<rparr>)"

definition complete_destroy :: "'v js_engine \<Rightarrow> nat \<Rightarrow> 'v async_info \<Rightarrow> 'v js_timers \<Rightarrow> 'v js_timers option" where
  "complete_destroy eng p ai st =
     (if ai_isOK ai
      then map_option (\<lambda>(infos, live). complete_simple eng p ai (st\<lparr>asyncCallbackInfoCreateInfo := infos, jt_live := live\<rparr>))
             (destroy_loop (ai_timerId ai) 0 (asyncCallbackInfoCreateInfo st) (jt_live st))
      else Some (complete_simple eng p ai st))"

definition complete_work :: "'v js_engine \<Rightarrow> nat \<Rightarrow> 'v js_timers \<Rightarrow> 'v js_timers option" where
  "complete_work eng i st =
     (let (op, p, ai) = jt_executed st ! i;
          st1 = st\<lparr>jt_executed := take i (jt_executed st) @ drop (Suc i) (jt_executed st)\<rparr>
      in if p \<notin> jt_live st then None
         else case op of
           Op_createTimer \<Rightarrow> Some (complete_create eng ai st1)
         | Op_destroyTimer \<Rightarrow> complete_destroy eng p ai st1
         | _ \<Rightarrow> Some (complete_simple eng p ai st1))"

section \<open>Triggers\<close>

text \<open>\<open>OnTrigger\<close> of the instance \<open>k\<close>, called by the client library, and the task it posts.\<close>

definition OnTrigger_js :: "nat \<Rightarrow> 'v js_timers \<Rightarrow> 'v js_timers" where
  "OnTrigger_js k st =
     (case ji_callback (jt_instances st ! k) of None \<Rightarrow> st | Some ref \<Rightarrow> st\<lparr>jt_uv := jt_uv st @ [ref]\<rparr>)"

definition run_uv_task :: "'v js_engine \<Rightarrow> 'v js_timers \<Rightarrow> 'v js_timers" where
  "run_uv_task eng st =
     (case jt_uv st of
        [] \<Rightarrow> st
      | ref # rest \<Rightarrow> SetCallback eng (Some ref) NO_ERROR (js_null eng) (st\<lparr>jt_uv := rest\<rparr>))"

section \<open>What the module exports\<close>

definition TIMER_TYPE_REALTIME :: nat where "TIMER_TYPE_REALTIME = 0"
definition TIMER_TYPE_WAKEUP :: nat where "TIMER_TYPE_WAKEUP = 1"
definition TIMER_TYPE_EXACT :: nat where "TIMER_TYPE_EXACT = 2"
definition TIMER_TYPE_IDLE :: nat where "TIMER_TYPE_IDLE = 3"

type_synonym 'v js_function = "bool \<Rightarrow> 'v list \<Rightarrow> 'v js_timers \<Rightarrow> 'v js_timers \<times> 'v js_return"

definition CreateNapiNumber :: "'v js_engine \<Rightarrow> nat \<Rightarrow> 'v" where
  "CreateNapiNumber eng objName = js_of_int eng (int objName)"

definition SystemtimerInit ::
  "'v js_engine \<Rightarrow> (string \<rightharpoonup> ('v js_function, 'v) js_export) \<Rightarrow> string \<rightharpoonup> ('v js_function, 'v) js_export" where
  "SystemtimerInit eng exports =
     napi_define_properties
       [(''createTimer'', Js_function (CreateTimer_js eng)),
        (''startTimer'', Js_function (StartTimer_js eng)),
        (''stopTimer'', Js_function (StopTimer_js eng)),
        (''destroyTimer'', Js_function (DestroyTimer_js eng)),
        (''TIMER_TYPE_REALTIME'', Js_property (CreateNapiNumber eng (push_bit TIMER_TYPE_REALTIME 1))),
        (''TIMER_TYPE_WAKEUP'', Js_property (CreateNapiNumber eng (push_bit TIMER_TYPE_WAKEUP 1))),
        (''TIMER_TYPE_EXACT'', Js_property (CreateNapiNumber eng (push_bit TIMER_TYPE_EXACT 1))),
        (''TIMER_TYPE_IDLE'', Js_property (CreateNapiNumber eng (push_bit TIMER_TYPE_IDLE 1)))] exports"

end
