(* ===== verification/Js_Time.thy ===== *)
theory Js_Time
  imports Js_Engine Time_Client
begin

text \<open>
  The JavaScript module \<open>systemTime\<close> (\<open>js_systemtime.cpp\<close>): setting the time, the date and the time
  zone, and reading clocks. It is built like \<open>systemTimer\<close>, with its own copy of the helpers; a context
  belongs to its work alone, so that it is part of it.
\<close>

definition SET_TIME_MAX_PARA :: nat where "SET_TIME_MAX_PARA = 2"
definition SET_TIMEZONE_MAX_PARA :: nat where "SET_TIMEZONE_MAX_PARA = 2"
definition MAX_TIME_ZONE_ID :: nat where "MAX_TIME_ZONE_ID = 1024"
definition INVALID_TIME :: int where "INVALID_TIME = -1"
definition Time_NO_ERROR :: int where "Time_NO_ERROR = 0"
definition Time_ERROR :: int where "Time_ERROR = -1"

lemmas js_time_constants = SET_TIME_MAX_PARA_def SET_TIMEZONE_MAX_PARA_def MAX_TIME_ZONE_ID_def INVALID_TIME_def
  Time_NO_ERROR_def Time_ERROR_def

section \<open>Results\<close>

record 'v time_callback_promise_info =
  tcp_callback :: "'v option"
  tcp_deferred :: "nat option"
  tcp_isCallback :: bool
  tcp_errorCode :: int

definition TimeGetCallbackErrorValue :: "'v js_engine \<Rightarrow> int \<Rightarrow> 'v" where
  "TimeGetCallbackErrorValue eng errCode = js_object_with eng ''code'' (js_of_int eng errCode)"

definition TimeSetPromise :: "nat option \<Rightarrow> int \<Rightarrow> 'v \<Rightarrow> ('v, 'z) js_base_scheme \<Rightarrow> ('v, 'z) js_base_scheme" where
  "TimeSetPromise deferred errorCode result st =
     (if errorCode = Time_NO_ERROR then js_settle (\<lambda>d. Js_resolve d result) deferred st
      else js_settle (\<lambda>d. Js_reject d result) deferred st)"

definition TimeSetCallback :: "'v js_engine \<Rightarrow> 'v option \<Rightarrow> int \<Rightarrow> 'v \<Rightarrow> ('v, 'z) js_base_scheme \<Rightarrow> ('v, 'z) js_base_scheme" where
  "TimeSetCallback eng callbackIn errorCode result st =
     (case callbackIn of
        None \<Rightarrow> st
      | Some callback \<Rightarrow> js_emit (Js_call callback [TimeGetCallbackErrorValue eng errorCode, result]) st)"

definition TimeReturnCallbackPromise ::
  "'v js_engine \<Rightarrow> 'v time_callback_promise_info \<Rightarrow> 'v \<Rightarrow> ('v, 'z) js_base_scheme \<Rightarrow> ('v, 'z) js_base_scheme" where
  "TimeReturnCallbackPromise eng info result st =
     (if tcp_isCallback info then TimeSetCallback eng (tcp_callback info) (tcp_errorCode info) result st
      else TimeSetPromise (tcp_deferred info) (tcp_errorCode info) result st)"

definition TimeJSParaError :: "'v js_engine \<Rightarrow> 'v option \<Rightarrow> ('v, 'z) js_base_scheme \<Rightarrow> ('v, 'z) js_base_scheme \<times> 'v js_return" where
  "TimeJSParaError eng callback st =
     (if callback \<noteq> None then (st, Return_value (js_null eng))
      else let (st1, promise) = js_create_promise eng st in
        (TimeSetPromise promise Time_ERROR (js_null eng) st1,
         case promise of None \<Rightarrow> Return_nothing | Some p \<Rightarrow> Return_promise p))"

section \<open>Contexts\<close>

datatype js_time_operation =
  Op_SetTime | Op_SetTimeZone | Op_GetCurrentTime | Op_GetRealActiveTime | Op_GetRealTime | Op_GetDate | Op_GetTimeZone

record 'v async_context =
  ac_time :: int
  ac_timeZone :: string
  ac_deferred :: "nat option"
  ac_callbackRef :: "'v option"
  ac_isCallback :: bool
  ac_isOK :: bool
  ac_isNano :: bool
  ac_errorCode :: int

definition AsyncContext :: "'v async_context" where
  "AsyncContext = \<lparr>ac_time = INVALID_TIME, ac_timeZone = [], ac_deferred = None, ac_callbackRef = None,
     ac_isCallback = False, ac_isOK = False, ac_isNano = False, ac_errorCode = Time_NO_ERROR\<rparr>"

text \<open>Work that no thread has run yet, and work whose completion is to come.\<close>

record 'v js_time = "'v js_base" +
  jm_queued :: "(js_time_operation \<times> 'v async_context) list"
  jm_executed :: "(js_time_operation \<times> 'v async_context) list"

definition js_time_start :: "'v js_time" where
  "js_time_start = \<lparr>js_log = [], js_promises = 0, js_pending = False, jm_queued = [], jm_executed = []\<rparr>"

definition TimePaddingAsyncCallbackInfo ::
  "'v js_engine \<Rightarrow> 'v option \<Rightarrow> 'v async_context \<Rightarrow> ('v, 'z) js_base_scheme
   \<Rightarrow> ('v, 'z) js_base_scheme \<times> 'v async_context \<times> nat option" where
  "TimePaddingAsyncCallbackInfo eng callback ac st =
     (if callback \<noteq> None then (st, ac\<lparr>ac_callbackRef := callback, ac_isCallback := True\<rparr>, None)
      else let (st1, deferred) = js_create_promise eng st in
        case deferred of
          None \<Rightarrow> (st1, ac, None)
        | Some d \<Rightarrow> (st1, ac\<lparr>ac_deferred := Some d, ac_isCallback := False\<rparr>, Some d))"

section \<open>Arguments\<close>

definition type_is :: "'v js_engine \<Rightarrow> 'v \<Rightarrow> napi_valuetype \<Rightarrow> bool" where
  "type_is eng v t \<longleftrightarrow> js_typeof eng v = t"

text \<open>The last argument, a callback, when it is given: a reference to it.\<close>

definition time_callback_argument :: "'v js_engine \<Rightarrow> nat \<Rightarrow> 'v list \<Rightarrow> string option + 'v option" where
  "time_callback_argument eng maxPara args =
     (if length args \<ge> maxPara
      then let v = js_arg eng args 1 in
        js_then (js_assert (type_is eng v napi_function) ''Wrong argument type. Function expected.'') (\<lambda>_.
        Inr (js_reference eng v))
      else Inr None)"

text \<open>The time in milliseconds, or a date; the time of a date may be negative.\<close>

definition time_argument :: "'v js_engine \<Rightarrow> 'v \<Rightarrow> int \<Rightarrow> string option + int" where
  "time_argument eng v before =
     (if type_is eng v napi_number
      then let t = or_else (js_int64 eng v) before in
        js_then (js_assert (0 \<le> t) ''Wrong argument timer. Positive number expected.'') (\<lambda>_. Inr t)
      else
        js_then (js_assert (js_has eng v ''getTime'') ''type expected.'') (\<lambda>_.
        let result = js_call0 eng v (js_get eng v ''getTime'') in
        js_then (js_assert (type_is eng result napi_number) ''type mismatch'') (\<lambda>_.
        Inr (or_else (js_int64 eng result) before))))"

definition ParseParametersBySetTime :: "'v js_engine \<Rightarrow> 'v list \<Rightarrow> int \<Rightarrow> string option + int \<times> 'v option" where
  "ParseParametersBySetTime eng args before =
     js_then (js_assert (length args \<ge> SET_TIME_MAX_PARA - 1) ''Wrong number of arguments'') (\<lambda>_.
     let v = js_arg eng args 0 in
     js_then (js_assert (type_is eng v napi_number \<or> type_is eng v napi_object) ''Wrong argument type. string expected.'') (\<lambda>_.
     js_then (time_argument eng v before) (\<lambda>t.
     js_then (time_callback_argument eng SET_TIME_MAX_PARA args) (\<lambda>callback. Inr (t, callback)))))"

text \<open>The bytes that fit into the buffer, up to the first zero.\<close>

definition ParseParametersBySetTimezone :: "'v js_engine \<Rightarrow> 'v list \<Rightarrow> string option + string \<times> 'v option" where
  "ParseParametersBySetTimezone eng args =
     js_then (js_assert (length args \<ge> SET_TIMEZONE_MAX_PARA - 1) ''Wrong number of arguments'') (\<lambda>_.
     let v = js_arg eng args 0 in
     js_then (js_assert (type_is eng v napi_string) ''Wrong argument type. string expected.'') (\<lambda>_.
     let timeZoneChars = js_string eng (MAX_TIME_ZONE_ID - 1) v;
         timezoneId = takeWhile (\<lambda>c. c \<noteq> CHR 0x00) timeZoneChars in
     js_then (time_callback_argument eng SET_TIMEZONE_MAX_PARA args) (\<lambda>callback. Inr (timezoneId, callback))))"

definition ParseParametersGet :: "'v js_engine \<Rightarrow> 'v list \<Rightarrow> string option + 'v option" where
  "ParseParametersGet eng args =
     (if length args = 1
      then let v = js_arg eng args 0 in
        js_then (js_assert (type_is eng v napi_function) ''Wrong argument type. Function expected.'') (\<lambda>_.
        Inr (js_reference eng v))
      else Inr None)"

text \<open>The callback, and whether nanoseconds are wanted; it never fails.\<close>

definition ParseParametersGetNA :: "'v js_engine \<Rightarrow> 'v list \<Rightarrow> string option + 'v option \<times> bool" where
  "ParseParametersGetNA eng args =
     (if length args = 1
      then let v = js_arg eng args 0 in
        if type_is eng v napi_function then Inr (js_reference eng v, False)
        else if type_is eng v napi_boolean then Inr (None, or_else (js_bool eng v) False)
        else Inr (None, False)
      else if length args = 2
      then Inr (js_reference eng (js_arg eng args 1), or_else (js_bool eng (js_arg eng args 0)) False)
      else Inr (None, False))"

section \<open>Calls\<close>

text \<open>What the seven functions do once the arguments are read: \<open>ac\<close> is the new context.\<close>

definition start_async ::
  "'v js_engine \<Rightarrow> bool \<Rightarrow> js_time_operation \<Rightarrow> 'v option \<Rightarrow> 'v async_context \<Rightarrow> 'v js_time \<Rightarrow> 'v js_time \<times> 'v js_return" where
  "start_async eng room op callback ac st =
     (if \<not> room then TimeJSParaError eng callback st
      else let (st1, ac1, promise) = TimePaddingAsyncCallbackInfo eng callback ac st in
        (st1\<lparr>jm_queued := jm_queued st1 @ [(op, ac1)]\<rparr>,
         if ac_isCallback ac1 then Return_value (js_null eng)
         else case promise of None \<Rightarrow> Return_nothing | Some d \<Rightarrow> Return_promise d))"

type_synonym 'v js_time_function = "bool \<Rightarrow> 'v list \<Rightarrow> 'v js_time \<Rightarrow> 'v js_time \<times> 'v js_return"

definition JSSystemTimeSetTime :: "'v js_engine \<Rightarrow> 'v js_time_function" where
  "JSSystemTimeSetTime eng room args st =
     (case ParseParametersBySetTime eng args INVALID_TIME of
        Inl e \<Rightarrow> TimeJSParaError eng None (js_raise e st)
      | Inr (t, callback) \<Rightarrow> start_async eng room Op_SetTime callback (AsyncContext\<lparr>ac_time := t\<rparr>) st)"

definition JSSystemTimeSetTimeZone :: "'v js_engine \<Rightarrow> 'v js_time_function" where
  "JSSystemTimeSetTimeZone eng room args st =
     (case ParseParametersBySetTimezone eng args of
        Inl e \<Rightarrow> TimeJSParaError eng None (js_raise e st)
      | Inr (timezoneId, callback) \<Rightarrow>
          start_async eng room Op_SetTimeZone callback (AsyncContext\<lparr>ac_timeZone := timezoneId\<rparr>) st)"

definition JSSystemTimeGetCurrentTime :: "'v js_engine \<Rightarrow> 'v js_time_function" where
  "JSSystemTimeGetCurrentTime eng room args st =
     (case ParseParametersGetNA eng args of
        Inl e \<Rightarrow> TimeJSParaError eng None (js_raise e st)
      | Inr (callback, isNano) \<Rightarrow> start_async eng room Op_GetCurrentTime callback (AsyncContext\<lparr>ac_isNano := isNano\<rparr>) st)"

definition JSSystemTimeGetRealActiveTime :: "'v js_engine \<Rightarrow> 'v js_time_function" where
  "JSSystemTimeGetRealActiveTime eng room args st =
     (case ParseParametersGetNA eng args of
        Inl e \<Rightarrow> TimeJSParaError eng None (js_raise e st)
      | Inr (callback, isNano) \<Rightarrow> start_async eng room Op_GetRealActiveTime callback (AsyncContext\<lparr>ac_isNano := isNano\<rparr>) st)"

definition JSSystemTimeGetRealTime :: "'v js_engine \<Rightarrow> 'v js_time_function" where
  "JSSystemTimeGetRealTime eng room args st =
     (case ParseParametersGetNA eng args of
        Inl e \<Rightarrow> TimeJSParaError eng None (js_raise e st)
      | Inr (callback, isNano) \<Rightarrow> start_async eng room Op_GetRealTime callback (AsyncContext\<lparr>ac_isNano := isNano\<rparr>) st)"

definition JSSystemTimeGetDate :: "'v js_engine \<Rightarrow> 'v js_time_function" where
  "JSSystemTimeGetDate eng room args st =
     (case ParseParametersGet eng args of
        Inl e \<Rightarrow> TimeJSParaError eng None (js_raise e st)
      | Inr callback \<Rightarrow> start_async eng room Op_GetDate callback AsyncContext st)"

definition JSSystemTimeGetTimeZone :: "'v js_engine \<Rightarrow> 'v js_time_function" where
  "JSSystemTimeGetTimeZone eng room args st =
     (case ParseParametersGet eng args of
        Inl e \<Rightarrow> TimeJSParaError eng None (js_raise e st)
      | Inr callback \<Rightarrow> start_async eng room Op_GetTimeZone callback AsyncContext st)"

definition SystemTimeExport ::
  "'v js_engine \<Rightarrow> (string \<rightharpoonup> ('v js_time_function, 'v) js_export) \<Rightarrow> string \<rightharpoonup> ('v js_time_function, 'v) js_export" where
  "SystemTimeExport eng exports =
     napi_define_properties
       [(''setTime'', Js_function (JSSystemTimeSetTime eng)),
        (''setDate'', Js_function (JSSystemTimeSetTime eng)),
        (''setTimezone'', Js_function (JSSystemTimeSetTimeZone eng)),
        (''getCurrentTime'', Js_function (JSSystemTimeGetCurrentTime eng)),
        (''getRealActiveTime'', Js_function (JSSystemTimeGetRealActiveTime eng)),
        (''getRealTime'', Js_function (JSSystemTimeGetRealTime eng)),
        (''getDate'', Js_function (JSSystemTimeGetDate eng)),
        (''getTimezone'', Js_function (JSSystemTimeGetTimeZone eng))] exports"

section \<open>Work\<close>

text \<open>The calls of the client library on a worker thread.\<close>

fun execute_time_call ::
  "client_env \<Rightarrow> 's itime_service \<Rightarrow> js_time_operation \<Rightarrow> 'v async_context \<Rightarrow> client \<times> 's \<Rightarrow> ((client \<times> 's) \<times> 'v async_context) option" where
  "execute_time_call ce svc Op_SetTime ac cs =
     map_option (\<lambda>(cs', ok). (cs', ac\<lparr>ac_isOK := ok\<rparr>)) (SetTime_client ce svc (ac_time ac) cs)"
| "execute_time_call ce svc Op_SetTimeZone ac cs =
     map_option (\<lambda>(cs', ok). (cs', ac\<lparr>ac_isOK := ok\<rparr>)) (SetTimeZone_client ce svc (ac_timeZone ac) cs)"
| "execute_time_call ce svc Op_GetCurrentTime ac cs =
     map_option (\<lambda>(cs', t). (cs', ac\<lparr>ac_time := t\<rparr>))
       (if ac_isNano ac then GetWallTimeNs_client ce svc cs else GetWallTimeMs_client ce svc cs)"
| "execute_time_call ce svc Op_GetRealActiveTime ac cs =
     map_option (\<lambda>(cs', t). (cs', ac\<lparr>ac_time := t\<rparr>))
       (if ac_isNano ac then GetMonotonicTimeNs_client ce svc cs else GetMonotonicTimeMs_client ce svc cs)"
| "execute_time_call ce svc Op_GetRealTime ac cs =
     map_option (\<lambda>(cs', t). (cs', ac\<lparr>ac_time := t\<rparr>))
       (if ac_isNano ac then GetBootTimeNs_client ce svc cs else GetBootTimeMs_client ce svc cs)"
| "execute_time_call ce svc Op_GetDate ac cs =
     map_option (\<lambda>(cs', t). (cs', ac\<lparr>ac_time := t\<rparr>)) (GetWallTimeMs_client ce svc cs)"
| "execute_time_call ce svc Op_GetTimeZone ac cs =
     map_option (\<lambda>(cs', z). (cs', ac\<lparr>ac_timeZone := z\<rparr>)) (GetTimeZone_client ce svc cs)"

definition execute_time_work ::
  "client_env \<Rightarrow> 's itime_service \<Rightarrow> nat \<Rightarrow> 'v js_time \<times> (client \<times> 's) \<Rightarrow> ('v js_time \<times> (client \<times> 's)) option" where
  "execute_time_work ce svc i r =
     (let (st, cs) = r; (op, ac) = jm_queued st ! i in
      map_option (\<lambda>(cs', ac').
        (st\<lparr>jm_queued := take i (jm_queued st) @ drop (Suc i) (jm_queued st),
            jm_executed := jm_executed st @ [(op, ac')]\<rparr>, cs'))
        (execute_time_call ce svc op ac cs))"

text \<open>The error code and the result of a completion: \<open>getCurrentTime\<close> has no error.\<close>

fun completion_error :: "js_time_operation \<Rightarrow> 'v async_context \<Rightarrow> int" where
  "completion_error Op_SetTime ac = (if \<not> ac_isOK ac then Time_ERROR else ac_errorCode ac)"
| "completion_error Op_SetTimeZone ac = (if \<not> ac_isOK ac then Time_ERROR else ac_errorCode ac)"
| "completion_error Op_GetCurrentTime ac = ac_errorCode ac"
| "completion_error Op_GetTimeZone ac = (if ac_timeZone ac = [] then Time_ERROR else ac_errorCode ac)"
| "completion_error op ac = (if ac_time ac < 0 then Time_ERROR else ac_errorCode ac)"

fun completion_result :: "'v js_engine \<Rightarrow> js_time_operation \<Rightarrow> 'v async_context \<Rightarrow> 'v" where
  "completion_result eng Op_SetTime ac = js_null eng"
| "completion_result eng Op_SetTimeZone ac = js_null eng"
| "completion_result eng Op_GetDate ac = js_of_date eng (ac_time ac)"
| "completion_result eng Op_GetTimeZone ac = js_of_string eng (ac_timeZone ac)"
| "completion_result eng op ac = js_of_int eng (ac_time ac)"

definition complete_time_work :: "'v js_engine \<Rightarrow> nat \<Rightarrow> 'v js_time \<Rightarrow> 'v js_time" where
  "complete_time_work eng i st =
     (let (op, ac) = jm_executed st ! i;
          info = \<lparr>tcp_callback = ac_callbackRef ac, tcp_deferred = ac_deferred ac,
                  tcp_isCallback = ac_isCallback ac, tcp_errorCode = completion_error op ac\<rparr>
      in TimeReturnCallbackPromise eng info (completion_result eng op ac)
           (st\<lparr>jm_executed := take i (jm_executed st) @ drop (Suc i) (jm_executed st)\<rparr>))"

end
