(* ===== verification/Js_Module.thy ===== *)
theory Js_Module
  imports Js_Timer Js_Time Service_Timers
begin

text \<open>
  The registration of the two JavaScript modules (\<open>timer_init.cpp\<close>, the end of
  \<open>js_systemtime.cpp\<close>), the object of timer types that is no longer exported (\<open>timer_type.cpp\<close>), and
  what the exported numbers mean to the service.
\<close>

section \<open>The modules\<close>

record ('f, 'v) napi_module =
  nm_version :: nat
  nm_flags :: nat
  nm_filename :: "string option"
  nm_register_func :: "(string \<rightharpoonup> ('f, 'v) js_export) \<Rightarrow> string \<rightharpoonup> ('f, 'v) js_export"
  nm_modname :: string

definition Init_module ::
  "'v js_engine \<Rightarrow> (string \<rightharpoonup> ('v js_function, 'v) js_export) \<Rightarrow> string \<rightharpoonup> ('v js_function, 'v) js_export" where
  "Init_module eng exports = SystemtimerInit eng exports"

definition timer_module :: "'v js_engine \<Rightarrow> ('v js_function, 'v) napi_module" where
  "timer_module eng = \<lparr>nm_version = 1, nm_flags = 0, nm_filename = None, nm_register_func = Init_module eng,
     nm_modname = ''systemTimer''\<rparr>"

definition system_time_module :: "'v js_engine \<Rightarrow> ('v js_time_function, 'v) napi_module" where
  "system_time_module eng = \<lparr>nm_version = 1, nm_flags = 0, nm_filename = None, nm_register_func = SystemTimeExport eng,
     nm_modname = ''systemTime''\<rparr>"

text \<open>The constructors of the two libraries run when they are loaded: a module joins those that the
  engine knows.\<close>

definition RegisterModule :: "'v js_engine \<Rightarrow> ('v js_function, 'v) napi_module list \<Rightarrow> ('v js_function, 'v) napi_module list" where
  "RegisterModule eng modules = modules @ [timer_module eng]"

definition SystemTimeRegister ::
  "'v js_engine \<Rightarrow> ('v js_time_function, 'v) napi_module list \<Rightarrow> ('v js_time_function, 'v) napi_module list" where
  "SystemTimeRegister eng modules = modules @ [system_time_module eng]"

text \<open>What a script gets when it imports a module by its name.\<close>

definition import_module :: "string \<Rightarrow> ('f, 'v) napi_module list \<Rightarrow> (string \<rightharpoonup> ('f, 'v) js_export) option" where
  "import_module name modules =
     map_option (\<lambda>m. nm_register_func m Map.empty) (List.find (\<lambda>m. nm_modname m = name) modules)"

section \<open>The object of timer types\<close>

text \<open>\<open>object_of\<close> is the engine's object with these properties.\<close>

definition SetNamedPropertyByInteger :: "'v js_engine \<Rightarrow> nat \<Rightarrow> string \<Rightarrow> (string \<times> 'v) list \<Rightarrow> (string \<times> 'v) list" where
  "SetNamedPropertyByInteger eng objName propName dstObj = dstObj @ [(propName, js_of_int eng (int objName))]"

definition TimerTypeInit ::
  "'v js_engine \<Rightarrow> ((string \<times> 'v) list \<Rightarrow> 'v) \<Rightarrow> (string \<rightharpoonup> ('f, 'v) js_export) \<Rightarrow> string \<rightharpoonup> ('f, 'v) js_export" where
  "TimerTypeInit eng object_of exports =
     (let obj = SetNamedPropertyByInteger eng (push_bit TIMER_TYPE_REALTIME 1) ''TIMER_TYPE_REALTIME'' [];
          obj = SetNamedPropertyByInteger eng (push_bit TIMER_TYPE_WAKEUP 1) ''TIMER_TYPE_WAKEUP'' obj;
          obj = SetNamedPropertyByInteger eng (push_bit TIMER_TYPE_EXACT 1) ''TIMER_TYPE_EXACT'' obj;
          obj = SetNamedPropertyByInteger eng (push_bit TIMER_TYPE_IDLE 1) ''TIMER_TYPE_IDLE'' obj
      in napi_define_properties [(''systemTimer'', Js_property (object_of obj))] exports)"

section \<open>What a script finds\<close>

text \<open>The names that the modules export.\<close>

lemma define_dom: "dom (napi_define_properties desc exports) = dom exports \<union> fst ` set desc"
  unfolding napi_define_properties_def
  by (induction desc arbitrary: exports) (auto split: if_splits)

lemma exported_names:
  "map_option dom (import_module ''systemTimer'' (RegisterModule eng [])) =
    Some {''createTimer'', ''startTimer'', ''stopTimer'', ''destroyTimer'', ''TIMER_TYPE_REALTIME'',
      ''TIMER_TYPE_WAKEUP'', ''TIMER_TYPE_EXACT'', ''TIMER_TYPE_IDLE''}"
  "map_option dom (import_module ''systemTime'' (SystemTimeRegister eng [])) =
    Some {''setTime'', ''setDate'', ''setTimezone'', ''getCurrentTime'', ''getRealActiveTime'', ''getRealTime'',
      ''getDate'', ''getTimezone''}"
  by (simp_all add: import_module_def RegisterModule_def SystemTimeRegister_def timer_module_def system_time_module_def
      Init_module_def SystemtimerInit_def SystemTimeExport_def define_dom)

text \<open>The functions that a script can call.\<close>

lemma exported_functions:
  "import_module ''systemTimer'' (RegisterModule eng []) = Some exports \<Longrightarrow> exports name = Some (Js_function f) \<Longrightarrow>
    f \<in> {CreateTimer_js eng, StartTimer_js eng, StopTimer_js eng, DestroyTimer_js eng}"
  "import_module ''systemTime'' (SystemTimeRegister eng []) = Some texports \<Longrightarrow> texports name = Some (Js_function tf) \<Longrightarrow>
    tf \<in> {JSSystemTimeSetTime eng, JSSystemTimeSetTimeZone eng, JSSystemTimeGetCurrentTime eng,
      JSSystemTimeGetRealActiveTime eng, JSSystemTimeGetRealTime eng, JSSystemTimeGetDate eng, JSSystemTimeGetTimeZone eng}"
  by (auto simp: import_module_def RegisterModule_def SystemTimeRegister_def timer_module_def system_time_module_def
      Init_module_def SystemtimerInit_def SystemTimeExport_def napi_define_properties_def split: if_splits)

text \<open>The numbers that a script finds under the names of the timer types.\<close>

definition type_number :: "string \<Rightarrow> i32" where
  "type_number name =
     (if name = ''TIMER_TYPE_REALTIME'' then 1 else if name = ''TIMER_TYPE_WAKEUP'' then 2
      else if name = ''TIMER_TYPE_EXACT'' then 4 else if name = ''TIMER_TYPE_IDLE'' then 8 else 0)"

lemma exported_numbers:
  assumes "name \<in> {''TIMER_TYPE_REALTIME'', ''TIMER_TYPE_WAKEUP'', ''TIMER_TYPE_EXACT'', ''TIMER_TYPE_IDLE''}"
  shows "Init_module eng exports name = Some (Js_property (js_of_int eng (uint (type_number name))))"
  using assms
  by (auto simp: Init_module_def SystemtimerInit_def napi_define_properties_def CreateNapiNumber_def type_number_def
      TIMER_TYPE_REALTIME_def TIMER_TYPE_WAKEUP_def TIMER_TYPE_EXACT_def TIMER_TYPE_IDLE_def)

text \<open>A script that joins some of the exported types gets a timer of these types; \<open>TIMER_TYPE_IDLE\<close> makes no difference.\<close>

lemma exported_types_decode:
  fixes realtime wakeup exact idle :: bool
  defines "bits \<equiv> (if realtime then type_number ''TIMER_TYPE_REALTIME'' else 0) OR
      (if wakeup then type_number ''TIMER_TYPE_WAKEUP'' else 0) OR
      (if exact then type_number ''TIMER_TYPE_EXACT'' else 0) OR (if idle then type_number ''TIMER_TYPE_IDLE'' else 0)"
  shows "PaserTimerPara bits rep interval =
    \<lparr>tp_timerType = (if realtime then (if wakeup then ELAPSED_REALTIME_WAKEUP else ELAPSED_REALTIME)
        else if wakeup then RTC_WAKEUP else RTC),
     tp_windowLength = (if exact then 0 else -1), tp_interval = (if rep then interval else 0), tp_flag = 0\<rparr>"
  by (cases realtime; cases wakeup; cases exact; cases idle)
    (simp_all add: bits_def type_number_def PaserTimerPara_def TIMER_TYPE_REALTIME_MASK_def
      TIMER_TYPE_REALTIME_WAKEUP_MASK_def TIMER_TYPE_EXACT_MASK_def)

end
