(* ===== verification/Js_Properties.thy ===== *)
theory Js_Properties
  imports Js_Module
begin

text \<open>
  What a script can rely on: its promises are settled once, whatever order the engine and the worker
  threads run its work in.
\<close>

section \<open>Results\<close>

lemmas base_defs = js_emit_def js_throw_def js_raise_def js_settle_def js_create_promise_def

lemma settled_emit [simp]: "settled d (js_log (js_emit e st)) = settled d (js_log st) + settles d e"
  by (simp add: js_emit_def)

lemma settled_raise [simp]:
  "settled d (js_log (js_raise e st)) = settled d (js_log st)" "js_promises (js_raise e st) = js_promises st"
  by (auto simp: base_defs split: option.splits)

text \<open>An error in the arguments makes a promise at most, and rejects it.\<close>

lemma JSParaError_balance:
  "js_promises st \<le> js_promises (fst (JSParaError eng cb st))"
  "settled d (js_log (fst (JSParaError eng cb st))) =
    settled d (js_log st) + (if js_promises st \<le> d \<and> d < js_promises (fst (JSParaError eng cb st)) then 1 else 0)"
  by (auto simp: JSParaError_def SetPromise_def base_defs js_constants Let_def)

lemma TimeJSParaError_eq: "TimeJSParaError = JSParaError"
  by (intro ext) (simp add: TimeJSParaError_def JSParaError_def TimeSetPromise_def SetPromise_def
      js_constants js_time_constants)

lemma TimeReturn_eq:
  "TimeReturnCallbackPromise eng \<lparr>tcp_callback = cb, tcp_deferred = d, tcp_isCallback = i, tcp_errorCode = er\<rparr> =
    ReturnCallbackPromise eng \<lparr>cp_callback = cb, cp_deferred = d, cp_isCallback = i, cp_errorCode = er\<rparr>"
  by (intro ext) (simp add: TimeReturnCallbackPromise_def ReturnCallbackPromise_def TimeSetPromise_def SetPromise_def
      TimeSetCallback_def SetCallback_def TimeGetCallbackErrorValue_def GetCallbackErrorValue_def
      js_constants js_time_constants split: option.split)

text \<open>What a context owes.\<close>

definition owes :: "bool \<Rightarrow> nat option \<Rightarrow> nat option" where
  "owes isCallback deferred = (if isCallback then None else deferred)"

lemma Return_settles:
  "settled d (js_log (ReturnCallbackPromise eng info v st)) =
    settled d (js_log st) + count (deferreds [owes (cp_isCallback info) (cp_deferred info)]) d"
  "js_promises (ReturnCallbackPromise eng info v st) = js_promises st"
  by (auto simp: ReturnCallbackPromise_def SetCallback_def SetPromise_def owes_def base_defs split: option.splits)

lemma deferreds_remove:
  "i < length xs \<Longrightarrow> deferreds (map f xs) = deferreds (map f (take i xs @ drop (Suc i) xs)) + deferreds [f (xs ! i)]"
proof -
  assume "i < length xs"
  then have "map f xs = map f (take i xs) @ f (xs ! i) # map f (drop (Suc i) xs)"
    by (subst id_take_nth_drop [of i xs]) simp_all
  then show ?thesis by (cases "f (xs ! i)") simp_all
qed

section \<open>The timers' module keeps its promises\<close>

definition owed_timers :: "'v js_timers \<Rightarrow> nat multiset" where
  "owed_timers st = deferreds (map (\<lambda>(op, p, ai). owes (ai_isCallback ai) (ai_deferred ai)) (jt_queued st @ jt_executed st))"

text \<open>
  What happens, in any order: the script calls a function; a worker thread runs some work; the engine
  runs some completion, or a task of the event loop; the service notifies the client of a timer; and the
  service goes on by itself.
\<close>

inductive timers_step ::
  "'v js_engine \<Rightarrow> client_env \<Rightarrow> 's itime_service \<Rightarrow> 'v js_timers \<times> client \<times> 's \<Rightarrow> 'v js_timers \<times> client \<times> 's \<Rightarrow> bool"
  for eng ce svc where
  call: "import_module ''systemTimer'' (RegisterModule eng []) = Some exports \<Longrightarrow> exports name = Some (Js_function f) \<Longrightarrow>
    timers_step eng ce svc (st, cs) (fst (js_return_to_script (f room args st)), cs)"
| execute: "i < length (jt_queued st) \<Longrightarrow> execute_work ce svc i (st, cs) = Some r \<Longrightarrow> timers_step eng ce svc (st, cs) r"
| complete: "i < length (jt_executed st) \<Longrightarrow> complete_work eng i st = Some st' \<Longrightarrow> timers_step eng ce svc (st, cs) (st', cs)"
| notify: "info_of (c_callbacks c) n = Some info \<Longrightarrow>
    timers_step eng ce svc (st, c, s)
      (OnTrigger_js (ii_onTrigger info) st, c\<lparr>c_callbacks := NotifyTimer_callback n (c_callbacks c)\<rparr>, s)"
| task: "timers_step eng ce svc (st, cs) (run_uv_task eng st, cs)"
| serve: "timers_step eng ce svc (st, c, s) (st, c, s')"

text \<open>A state's balance: what is owed after a step, and what has been settled by it.\<close>

definition timers_balance :: "'v js_timers \<Rightarrow> 'v js_timers \<Rightarrow> bool" where
  "timers_balance st st' \<longleftrightarrow> js_promises st \<le> js_promises st' \<and>
     (\<forall>d. settled d (js_log st') + count (owed_timers st') d =
        settled d (js_log st) + count (owed_timers st) d + (if js_promises st \<le> d \<and> d < js_promises st' then 1 else 0))"

lemma balance_same:
  "js_promises st' = js_promises st \<Longrightarrow> (\<And>d. settled d (js_log st') = settled d (js_log st)) \<Longrightarrow>
    jt_queued st' = jt_queued st \<Longrightarrow> jt_executed st' = jt_executed st \<Longrightarrow> timers_balance st st'"
  by (auto simp: timers_balance_def owed_timers_def)

text \<open>The fields of the module that the common operations leave alone.\<close>

lemma base_queues [simp]:
  "jt_queued (js_emit e st) = jt_queued st" "jt_executed (js_emit e st) = jt_executed st"
  "jt_queued (js_raise x st) = jt_queued st" "jt_executed (js_raise x st) = jt_executed st"
  "jt_queued (fst (js_create_promise eng st)) = jt_queued st"
  "jt_executed (fst (js_create_promise eng st)) = jt_executed st"
  "jt_queued (fst (JSParaError eng cb st)) = jt_queued st" "jt_executed (fst (JSParaError eng cb st)) = jt_executed st"
  "jt_queued (ReturnCallbackPromise eng info v st) = jt_queued st"
  "jt_executed (ReturnCallbackPromise eng info v st) = jt_executed st"
  by (auto simp: base_defs JSParaError_def SetPromise_def SetCallback_def ReturnCallbackPromise_def Let_def
      split: option.splits prod.splits)

lemma balance_error: "timers_balance st (fst (JSParaError eng cb (js_raise e st)))"
  using JSParaError_balance [where st = "js_raise e st" and eng = eng and cb = cb] by (simp add: timers_balance_def owed_timers_def)

lemma balance_no_room: "timers_balance st (fst (JSParaError eng cb st))"
  using JSParaError_balance [where st = st and eng = eng and cb = cb] by (simp add: timers_balance_def owed_timers_def)

lemma balance_queue:
  assumes "ai_deferred ai = None" "\<not> ai_isCallback ai" "jt_queued st0 = jt_queued st" "jt_executed st0 = jt_executed st"
    "js_log st0 = js_log st" "js_promises st0 = js_promises st"
  shows "timers_balance st (fst (queue_work eng op (padding eng cb ai st0)))"
  using assms
  by (auto simp: timers_balance_def owed_timers_def queue_work_def padding_def js_create_promise_def js_emit_def owes_def
      Let_def split: option.splits)

lemma call_balance:
  assumes "import_module ''systemTimer'' (RegisterModule eng []) = Some exports" "exports name = Some (Js_function f)"
  shows "timers_balance st (fst (f room args st))"
proof -
  note q = balance_queue [OF _ _ refl refl refl refl] balance_queue
  note fin = balance_error balance_no_room q
  from exported_functions(1) [OF assms] consider "f = CreateTimer_js eng" | "f = StartTimer_js eng" | "f = StopTimer_js eng"
    | "f = DestroyTimer_js eng" by blast
  then show ?thesis
  proof cases
    case 1
    show ?thesis unfolding 1 CreateTimer_js_def padding_defs Let_def
      by (auto simp: AsyncCallbackInfo_def intro: fin split: sum.split prod.split)
  next
    case 2
    show ?thesis unfolding 2 StartTimer_js_def padding_defs
      by (auto simp: AsyncCallbackInfo_def intro: fin split: sum.split prod.split)
  next
    case 3
    show ?thesis unfolding 3 StopTimer_js_def padding_defs
      by (auto simp: AsyncCallbackInfo_def intro: fin split: sum.split prod.split)
  next
    case 4
    show ?thesis unfolding 4 DestroyTimer_js_def padding_defs
      by (auto simp: AsyncCallbackInfo_def intro: fin split: sum.split prod.split)
  qed
qed

lemma execute_balance:
  assumes "i < length (jt_queued st)" "execute_work ce svc i (st, cs) = Some (st', cs')"
  shows "timers_balance st st'"
proof -
  obtain op p ai where w: "jt_queued st ! i = (op, p, ai)" by (metis prod_cases3)
  obtain ai' where c: "execute_call ce svc op (as_info (ai_instance ai) (jt_instances st ! ai_instance ai)) ai cs = Some (cs', ai')"
    and q: "jt_queued st' = take i (jt_queued st) @ drop (Suc i) (jt_queued st)"
      "jt_executed st' = jt_executed st @ [(op, p, ai')]" "js_log st' = js_log st" "js_promises st' = js_promises st"
    using assms(2) by (auto simp: execute_work_def w Let_def split: if_splits)
  have "ai_isCallback ai' = ai_isCallback ai \<and> ai_deferred ai' = ai_deferred ai"
    using c by (cases op) auto
  then show ?thesis
    using deferreds_remove [OF assms(1), where f = "\<lambda>(op, p, ai). owes (ai_isCallback ai) (ai_deferred ai)"]
    by (simp add: timers_balance_def owed_timers_def q w)
qed

lemma simple_balance:
  "settled d (js_log (complete_simple eng p ai st)) =
    settled d (js_log st) + count (deferreds [owes (ai_isCallback ai) (ai_deferred ai)]) d"
  "js_promises (complete_simple eng p ai st) = js_promises st"
  "jt_queued (complete_simple eng p ai st) = jt_queued st" "jt_executed (complete_simple eng p ai st) = jt_executed st"
  by (simp_all add: complete_simple_def Let_def Return_settles info_of_context_def)

lemma complete_balance:
  assumes "i < length (jt_executed st)" "complete_work eng i st = Some st'"
  shows "timers_balance st st'"
proof -
  obtain op p ai where w: "jt_executed st ! i = (op, p, ai)" by (metis prod_cases3)
  let ?o = "\<lambda>(op, p, ai). owes (ai_isCallback ai) (ai_deferred ai)"
  have "settled d (js_log st') = settled d (js_log st) + count (deferreds [?o (op, p, ai)]) d"
    "js_promises st' = js_promises st" "jt_queued st' = jt_queued st"
    "jt_executed st' = take i (jt_executed st) @ drop (Suc i) (jt_executed st)" for d
    using assms(2)
    by (auto simp: complete_work_def w Let_def complete_create_def complete_destroy_def Return_settles simple_balance
        info_of_context_def split: if_splits js_operation.splits)
  then show ?thesis
    using deferreds_remove [OF assms(1), where f = ?o] by (simp add: timers_balance_def owed_timers_def w)
qed

lemma timers_step_balance: "timers_step eng ce svc r r' \<Longrightarrow> timers_balance (fst r) (fst r')"
proof (induction rule: timers_step.induct)
  case (call exports name f st cs room args)
  then show ?case using call_balance [OF call, of st room args]
    by (cases "f room args st") (simp add: js_return_to_script_def timers_balance_def owed_timers_def)
next
  case (execute i st cs r)
  then show ?case by (cases r) (simp add: execute_balance)
next
  case (complete i st st' cs)
  then show ?case by (simp add: complete_balance)
next
  case (notify c n info st s)
  then show ?case by (auto simp: OnTrigger_js_def intro: balance_same split: option.split)
next
  case (task st cs)
  then show ?case by (auto simp: run_uv_task_def SetCallback_def js_emit_def intro: balance_same split: list.split)
next
  case (serve st c s s')
  then show ?case by (auto intro: balance_same)
qed

interpretation timers: async_module "\<lambda>r. js_promises (fst r)" "\<lambda>r. js_log (fst r)" "\<lambda>r. owed_timers (fst r)"
    "timers_step eng ce svc" for eng ce svc
  by unfold_locales (use timers_step_balance in \<open>fastforce simp: timers_balance_def\<close>)+

section \<open>The time module keeps its promises\<close>

definition owed_time :: "'v js_time \<Rightarrow> nat multiset" where
  "owed_time st = deferreds (map (\<lambda>(op, ac). owes (ac_isCallback ac) (ac_deferred ac)) (jm_queued st @ jm_executed st))"

inductive time_step ::
  "'v js_engine \<Rightarrow> client_env \<Rightarrow> 's itime_service \<Rightarrow> 'v js_time \<times> client \<times> 's \<Rightarrow> 'v js_time \<times> client \<times> 's \<Rightarrow> bool"
  for eng ce svc where
  call: "import_module ''systemTime'' (SystemTimeRegister eng []) = Some exports \<Longrightarrow> exports name = Some (Js_function f) \<Longrightarrow>
    time_step eng ce svc (st, cs) (fst (js_return_to_script (f room args st)), cs)"
| execute: "i < length (jm_queued st) \<Longrightarrow> execute_time_work ce svc i (st, cs) = Some r \<Longrightarrow> time_step eng ce svc (st, cs) r"
| complete: "i < length (jm_executed st) \<Longrightarrow> time_step eng ce svc (st, cs) (complete_time_work eng i st, cs)"
| serve: "time_step eng ce svc (st, c, s) (st, c, s')"

definition time_balance :: "'v js_time \<Rightarrow> 'v js_time \<Rightarrow> bool" where
  "time_balance st st' \<longleftrightarrow> js_promises st \<le> js_promises st' \<and>
     (\<forall>d. settled d (js_log st') + count (owed_time st') d =
        settled d (js_log st) + count (owed_time st) d + (if js_promises st \<le> d \<and> d < js_promises st' then 1 else 0))"

lemma base_time_queues [simp]:
  "jm_queued (js_raise x st) = jm_queued st" "jm_executed (js_raise x st) = jm_executed st"
  "jm_queued (fst (JSParaError eng cb st)) = jm_queued st" "jm_executed (fst (JSParaError eng cb st)) = jm_executed st"
  "jm_queued (ReturnCallbackPromise eng info v st) = jm_queued st"
  "jm_executed (ReturnCallbackPromise eng info v st) = jm_executed st"
  by (auto simp: base_defs JSParaError_def SetPromise_def SetCallback_def ReturnCallbackPromise_def Let_def
      split: option.splits prod.splits)

lemma time_balance_error:
  "time_balance st (fst (JSParaError eng cb (js_raise e st)))" "time_balance st (fst (JSParaError eng cb st))"
  using JSParaError_balance [where st = "js_raise e st" and eng = eng and cb = cb]
    JSParaError_balance [where st = st and eng = eng and cb = cb]
  by (simp_all add: time_balance_def owed_time_def)

lemma time_balance_start:
  assumes "ac_deferred ac = None" "\<not> ac_isCallback ac"
  shows "time_balance st (fst (start_async eng room op cb ac st))"
proof (cases room)
  case True
  then show ?thesis using assms
    by (auto simp: time_balance_def owed_time_def start_async_def TimePaddingAsyncCallbackInfo_def js_create_promise_def
        js_emit_def owes_def Let_def split: option.splits)
qed (simp add: start_async_def TimeJSParaError_eq time_balance_error)

lemma time_call_balance:
  assumes "import_module ''systemTime'' (SystemTimeRegister eng []) = Some exports" "exports name = Some (Js_function f)"
  shows "time_balance st (fst (f room args st))"
  using exported_functions(2) [OF assms] time_balance_error(1) [of st eng None] time_balance_start [of _ st eng room]
  by (auto simp: JSSystemTimeSetTime_def JSSystemTimeSetTimeZone_def JSSystemTimeGetCurrentTime_def
      JSSystemTimeGetRealActiveTime_def JSSystemTimeGetRealTime_def JSSystemTimeGetDate_def JSSystemTimeGetTimeZone_def
      TimeJSParaError_eq AsyncContext_def split: sum.split)

lemma time_step_balance: "time_step eng ce svc r r' \<Longrightarrow> time_balance (fst r) (fst r')"
proof (induction rule: time_step.induct)
  case (call exports name f st cs room args)
  then show ?case using time_call_balance [OF call, of st room args]
    by (cases "f room args st") (simp add: js_return_to_script_def time_balance_def owed_time_def)
next
  case (execute i st cs r)
  obtain op ac where w: "jm_queued st ! i = (op, ac)" by (cases "jm_queued st ! i")
  from execute(2) obtain ac' cs' where c: "execute_time_call ce svc op ac cs = Some (cs', ac')"
    and r: "r = (st\<lparr>jm_queued := take i (jm_queued st) @ drop (Suc i) (jm_queued st),
      jm_executed := jm_executed st @ [(op, ac')]\<rparr>, cs')"
    by (auto simp: execute_time_work_def w)
  have "ac_isCallback ac' = ac_isCallback ac \<and> ac_deferred ac' = ac_deferred ac"
    using c by (cases op) auto
  then show ?case
    using deferreds_remove [OF execute(1), where f = "\<lambda>(op, ac). owes (ac_isCallback ac) (ac_deferred ac)"]
    by (simp add: time_balance_def owed_time_def r w)
next
  case (complete i st cs)
  obtain op ac where w: "jm_executed st ! i = (op, ac)" by (cases "jm_executed st ! i")
  show ?case
    using deferreds_remove [OF complete, where f = "\<lambda>(op, ac). owes (ac_isCallback ac) (ac_deferred ac)"]
    by (simp add: time_balance_def owed_time_def complete_time_work_def w TimeReturn_eq Return_settles)
qed (simp add: time_balance_def)

interpretation time_module: async_module "\<lambda>r. js_promises (fst r)" "\<lambda>r. js_log (fst r)" "\<lambda>r. owed_time (fst r)"
    "time_step eng ce svc" for eng ce svc
  by unfold_locales (use time_step_balance in \<open>fastforce simp: time_balance_def\<close>)+

section \<open>Guarantees\<close>

text \<open>C25. A script's promises are settled once: in every state that the two modules reach, in whatever order
  the script calls, the worker threads run work, the engine runs completions and the service notifies,
  each promise that was made has either been resolved or rejected, once, or is the promise of exactly one
  piece of work that is still outstanding; and nothing else is ever settled.\<close>

theorem js_promises_kept:
  assumes "(timers_step eng ce svc)\<^sup>*\<^sup>* (js_timers_start, cs0) (t, cs)"
    and "(time_step eng ce' svc')\<^sup>*\<^sup>* (js_time_start, cs0') (m, cs')"
  shows "promises_kept (js_promises t) (js_log t) (owed_timers t) \<and> promises_kept (js_promises m) (js_log m) (owed_time m)"
proof
  have "promises_kept (js_promises js_timers_start) (js_log js_timers_start) (owed_timers js_timers_start)"
    by (simp add: promises_kept_def js_timers_start_def owed_timers_def)
  then show "promises_kept (js_promises t) (js_log t) (owed_timers t)" using timers.kept_steps [OF assms(1)] by simp
  have "promises_kept (js_promises js_time_start) (js_log js_time_start) (owed_time js_time_start)"
    by (simp add: promises_kept_def js_time_start_def owed_time_def)
  then show "promises_kept (js_promises m) (js_log m) (owed_time m)" using time_module.kept_steps [OF assms(2)] by simp
qed

text \<open>A call without arguments is thrown back, and makes one promise, which is rejected.\<close>

theorem js_promises_kept_witness:
  "settled 0 (js_log (fst (js_return_to_script (StartTimer_js sample_engine True [] js_timers_start)))) = 1 \<and>
   js_promises (fst (js_return_to_script (StartTimer_js sample_engine True [] js_timers_start))) = 1"
proof -
  let ?t = "fst (js_return_to_script (StartTimer_js sample_engine True [] js_timers_start))"
  obtain exports where "import_module ''systemTimer'' (RegisterModule sample_engine []) = Some exports"
      "exports ''startTimer'' = Some (Js_function (StartTimer_js sample_engine))"
    by (simp add: import_module_def RegisterModule_def timer_module_def Init_module_def SystemtimerInit_def
        napi_define_properties_def)
  then have "timers_step sample_engine ready_env counting_service (js_timers_start, TimeServiceClient, 0) (?t, TimeServiceClient, 0)"
    by (rule timers_step.call)
  then have "promises_kept (js_promises ?t) (js_log ?t) (owed_timers ?t)"
    using js_promises_kept [OF r_into_rtranclp rtranclp.rtrancl_refl] by blast
  moreover have "owed_timers ?t = {#} \<and> js_promises ?t = 1"
    by (simp add: StartTimer_js_def ParseParametersByStartTimer_def js_constants js_then_def js_assert_def JSParaError_def
        SetPromise_def base_defs js_timers_start_def js_return_to_script_def owed_timers_def)
  ultimately show ?thesis by (auto dest: kept_once)
qed

end
