(* ===== verification/Js_Script.thy ===== *)
theory Js_Script
  imports Js_Properties Remote_Service
begin

text \<open>
  What the calls of a script do: to the service, through the client library and the remote call, and to
  the module's own list of created timers.
\<close>

section \<open>Whole calls\<close>

text \<open>A call of a script that nothing interferes with: the call, its work and its completion.\<close>

definition script_call ::
  "'v js_engine \<Rightarrow> client_env \<Rightarrow> 's itime_service \<Rightarrow> 'v js_function \<Rightarrow> 'v list \<Rightarrow> 'v js_timers \<times> client \<times> 's
   \<Rightarrow> ('v js_timers \<times> client \<times> 's) option" where
  "script_call eng ce svc f args r =
     (let (st, cs) = r; st1 = fst (js_return_to_script (f True args st)) in
      case execute_work ce svc (length (jt_queued st1) - 1) (st1, cs) of
        None \<Rightarrow> None
      | Some (st2, cs2) \<Rightarrow> map_option (\<lambda>st3. (st3, cs2)) (complete_work eng (length (jt_executed st2) - 1) st2))"

definition script_time_call ::
  "'v js_engine \<Rightarrow> client_env \<Rightarrow> 's itime_service \<Rightarrow> 'v js_time_function \<Rightarrow> 'v list \<Rightarrow> 'v js_time \<times> client \<times> 's
   \<Rightarrow> ('v js_time \<times> client \<times> 's) option" where
  "script_time_call eng ce svc f args r =
     (let (st, cs) = r; st1 = fst (js_return_to_script (f True args st)) in
      map_option (\<lambda>(st2, cs2). (complete_time_work eng (length (jm_executed st2) - 1) st2, cs2))
        (execute_time_work ce svc (length (jm_queued st1) - 1) (st1, cs)))"

text \<open>A value that is the number \<open>n\<close>.\<close>

definition is_number :: "'v js_engine \<Rightarrow> 'v \<Rightarrow> int \<Rightarrow> bool" where
  "is_number eng v n \<longleftrightarrow> js_typeof eng v = napi_number \<and> js_int64 eng v = Some n"

lemma number_argument_is:
  "is_number eng (js_arg eng args i) n \<Longrightarrow> 0 \<le> n \<Longrightarrow> number_argument eng args i msg = Inr (word_of_int n)"
  by (simp add: number_argument_def is_number_def expect_type_def js_assert_def js_then_def)

lemma connected_proxy [simp]: "timeServiceProxy c \<Longrightarrow> connected ce c = c"
  by (simp add: connected_def)

text \<open>One step of the loop over the created timers.\<close>

lemma destroy_loop_skip:
  "i < length infos \<Longrightarrow> infos ! i = Some (p, t) \<Longrightarrow> p \<in> mem \<Longrightarrow> t \<noteq> n \<Longrightarrow>
    destroy_loop n i infos mem = destroy_loop n (Suc i) infos mem"
  by (subst destroy_loop.simps) simp

lemma destroy_loop_none:
  assumes "\<forall>j. i \<le> j \<and> j < length infos \<longrightarrow> (\<exists>p t. infos ! j = Some (p, t) \<and> p \<in> mem \<and> t \<noteq> n)"
  shows "destroy_loop n i infos mem = Some (infos, mem)"
  using assms
proof (induction "length infos - i" arbitrary: i)
  case 0
  then show ?case by (subst destroy_loop.simps) simp
next
  case (Suc x)
  then have i: "i < length infos" by simp
  then obtain p t where "infos ! i = Some (p, t)" "p \<in> mem" "t \<noteq> n" using Suc.prems by blast
  then show ?case using destroy_loop_skip [OF i] Suc by simp
qed

lemma destroy_loop_reach:
  assumes "\<forall>j < k. \<exists>p t. infos ! j = Some (p, t) \<and> p \<in> mem \<and> t \<noteq> n" and "k < length infos" and "i \<le> k"
  shows "destroy_loop n i infos mem = destroy_loop n k infos mem"
  using assms(3)
proof (induction "k - i" arbitrary: i)
  case (Suc x)
  then have "i < k" by simp
  moreover from this obtain p t where "infos ! i = Some (p, t)" "p \<in> mem" "t \<noteq> n" using assms(1) by blast
  ultimately show ?case using destroy_loop_skip [of i infos p t mem n] assms(2) Suc by simp
qed simp

text \<open>What the loop does at the timer that has been destroyed.\<close>

lemma destroy_loop_frees_next:
  assumes "Suc k < length ps" and "fst (ps ! k) \<in> mem" and "fst (ps ! Suc k) \<in> mem"
  shows "destroy_loop (snd (ps ! k)) k (map Some ps) mem =
    destroy_loop (snd (ps ! k)) (Suc k) (map Some (take k ps) @ None # map Some (drop (k + 2) ps)) (mem - {fst (ps ! Suc k)})"
proof -
  have "drop (Suc k) ps = ps ! Suc k # drop (k + 2) ps" and "\<not> Suc (length ps - 2) \<le> k"
    using assms(1) by (simp_all add: Cons_nth_drop_Suc)
  with assms show ?thesis
    by (cases "ps ! k"; cases "ps ! Suc k"; subst destroy_loop.simps)
      (simp_all add: Let_def take_map drop_map nth_append list_update_append)
qed

section \<open>Calls that reach the service\<close>

text \<open>A call whose arguments are right, with a promise: what is queued, what the worker thread makes of
  it, and what the completion logs.\<close>

lemma script_time_call_run:
  assumes f: "f True args st = start_async eng True op None ac st"
    and e: "execute_time_call ce svc op (ac\<lparr>ac_deferred := Some (js_promises st), ac_isCallback := False\<rparr>) cs = Some (cs', ac')"
    and "\<not> js_pending st" and kept: "ac_deferred ac' = Some (js_promises st)" "\<not> ac_isCallback ac'"
  shows "\<exists>st'. script_time_call eng ce svc f args (st, cs) = Some (st', cs') \<and>
    js_log st' = js_log st @ [Js_promise (js_promises st),
      (if completion_error op ac' = 0 then Js_resolve else Js_reject) (js_promises st) (completion_result eng op ac')]"
  using assms(3) e kept
  by (simp add: script_time_call_def f start_async_def TimePaddingAsyncCallbackInfo_def js_create_promise_def
      js_emit_def js_return_to_script_def execute_time_work_def nth_append complete_time_work_def TimeReturn_eq
      ReturnCallbackPromise_def SetPromise_def js_settle_def js_constants Let_def)

lemma script_call_run:
  assumes f: "f True args st = queue_work eng op (padding eng None ai sta)" and "js_log sta = js_log st"
    "js_promises sta = js_promises st" "\<not> js_pending sta" "op \<noteq> Op_destroyTimer"
    and e: "execute_call ce svc op (as_info (ai_instance ai) (jt_instances sta ! ai_instance ai))
      (ai\<lparr>ai_deferred := Some (js_promises st), ai_isCallback := False\<rparr>) cs = Some (cs', ai')"
    and kept: "ai_deferred ai' = Some (js_promises st)" "\<not> ai_isCallback ai'" "ai_errorCode ai' = NO_ERROR"
  shows "\<exists>st'. script_call eng ce svc f args (st, cs) = Some (st', cs') \<and>
    js_log st' = js_log st @ [Js_promise (js_promises st),
      (if op = Op_createTimer then Js_resolve (js_promises st) (js_of_int eng (sint (ai_timerId ai')))
       else (if ai_isOK ai' then Js_resolve else Js_reject) (js_promises st) (js_null eng))]"
proof -
  define p where "p = jt_next sta"
  define st2 where "st2 = sta\<lparr>js_log := js_log st @ [Js_promise (js_promises st)], js_promises := Suc (js_promises st),
    jt_next := Suc p, jt_live := insert p (jt_live sta)\<rparr>"
  have call: "fst (js_return_to_script (f True args st)) =
      st2\<lparr>jt_queued := jt_queued sta @ [(op, p, ai\<lparr>ai_deferred := Some (js_promises st), ai_isCallback := False\<rparr>)]\<rparr>"
    using assms(2-4)
    by (simp add: f queue_work_def padding_def js_create_promise_def js_emit_def js_return_to_script_def st2_def p_def Let_def)
  define infos where "infos = asyncCallbackInfoCreateInfo sta @
    (if op = Op_createTimer \<and> ai_timerId ai' > 0 then [Some (p, ai_timerId ai')] else [])"
  have work: "execute_work ce svc (length (jt_queued sta)) (fst (js_return_to_script (f True args st)), cs) =
      Some (st2\<lparr>jt_executed := jt_executed sta @ [(op, p, ai')], asyncCallbackInfoCreateInfo := infos\<rparr>, cs')"
    using e by (simp add: call execute_work_def nth_append st2_def infos_def Let_def)
  have "length (jt_queued (fst (js_return_to_script (f True args st)))) - 1 = length (jt_queued sta)" by (simp add: call)
  then have "script_call eng ce svc f args (st, cs) = map_option (\<lambda>st3. (st3, cs'))
      (complete_work eng (length (jt_executed sta))
        (st2\<lparr>jt_executed := jt_executed sta @ [(op, p, ai')], asyncCallbackInfoCreateInfo := infos\<rparr>))"
    by (simp only: script_call_def Let_def prod.case work option.case) simp
  then show ?thesis
    using kept assms(5)
    by (cases op)
      (simp_all add: st2_def complete_work_def nth_append complete_create_def
        complete_simple_def info_of_context_def ReturnCallbackPromise_def SetPromise_def js_settle_def js_emit_def
        js_constants Let_def)
qed

text \<open>Setting the time, and reading it.\<close>

lemma script_sets:
  assumes "parcel_documented ops contents" and "parcel_room ops" and "timeServiceProxy c" and "\<not> js_pending st"
    and "is_number eng v t" and "0 \<le> t"
  shows "\<exists>st'. script_time_call eng ce (remote_service ops e) (JSSystemTimeSetTime eng) [v] (st, c, s) =
      Some (st', c, fst (SetTime_service e t s)) \<and>
    js_log st' = js_log st @ [Js_promise (js_promises st),
      (if snd (SetTime_service e t s) = ERR_OK then Js_resolve else Js_reject) (js_promises st) (js_null eng)]"
proof -
  obtain s' r where r: "SetTime_service e t s = (s', r)" by (cases "SetTime_service e t s")
  define ac where "ac = (AsyncContext :: 'b async_context)\<lparr>ac_time := t\<rparr>"
  define ac' where "ac' = ac\<lparr>ac_deferred := Some (js_promises st), ac_isCallback := False, ac_isOK := r = ERR_OK\<rparr>"
  have "ParseParametersBySetTime eng [v] INVALID_TIME = Inr (t, None)"
    using assms(5,6) by (simp add: ParseParametersBySetTime_def is_number_def type_is_def time_argument_def
        time_callback_argument_def js_arg_def js_time_constants)
  then have call: "JSSystemTimeSetTime eng True [v] st = start_async eng True Op_SetTime None ac st"
    by (simp add: JSSystemTimeSetTime_def ac_def)
  have work: "execute_time_call ce (remote_service ops e) Op_SetTime
      (ac\<lparr>ac_deferred := Some (js_promises st), ac_isCallback := False\<rparr>) (c, s) = Some ((c, s'), ac')"
    using assms(3) r by (simp add: SetTime_client_def with_service_def remote_service_eq [OF assms(1,2)] guarded_def
        TimeService_interface_def ac_def ac'_def)
  have "\<exists>st'. script_time_call eng ce (remote_service ops e) (JSSystemTimeSetTime eng) [v] (st, c, s) = Some (st', c, s') \<and>
      js_log st' = js_log st @ [Js_promise (js_promises st),
        (if completion_error Op_SetTime ac' = 0 then Js_resolve else Js_reject) (js_promises st)
          (completion_result eng Op_SetTime ac')]"
    by (rule script_time_call_run [where f = "JSSystemTimeSetTime eng" and ac = ac, OF call work assms(4)])
      (simp_all add: ac'_def)
  then show ?thesis
    by (cases "r = ERR_OK") (simp_all add: r ac_def ac'_def AsyncContext_def js_time_constants)
qed

lemma script_reads:
  assumes "parcel_documented ops contents" and "parcel_room ops" and "timeServiceProxy c" and "\<not> js_pending st"
  shows "\<exists>st'. script_time_call eng ce (remote_service ops e) (JSSystemTimeGetCurrentTime eng) [] (st, c, s) =
      Some (st', c, fst (GetWallTimeMs_service e s)) \<and>
    js_log st' = js_log st @ [Js_promise (js_promises st),
      Js_resolve (js_promises st) (js_of_int eng (case snd (GetWallTimeMs_service e s) of Inl _ \<Rightarrow> -1 | Inr ms \<Rightarrow> ms))]"
proof -
  obtain s' now where now: "GetWallTimeMs_service e s = (s', now)" by (cases "GetWallTimeMs_service e s")
  define ac where "ac = (AsyncContext :: 'b async_context)\<lparr>ac_isNano := False\<rparr>"
  define ac' where "ac' = ac\<lparr>ac_deferred := Some (js_promises st), ac_isCallback := False,
    ac_time := (case now of Inl _ \<Rightarrow> -1 | Inr ms \<Rightarrow> ms)\<rparr>"
  have call: "JSSystemTimeGetCurrentTime eng True [] st = start_async eng True Op_GetCurrentTime None ac st"
    by (simp add: JSSystemTimeGetCurrentTime_def ParseParametersGetNA_def ac_def)
  have work: "execute_time_call ce (remote_service ops e) Op_GetCurrentTime
      (ac\<lparr>ac_deferred := Some (js_promises st), ac_isCallback := False\<rparr>) (c, s) = Some ((c, s'), ac')"
    using assms(3) now by (simp add: GetWallTimeMs_client_def with_service_def or_minus_one_def
        remote_service_eq [OF assms(1,2)] guarded_def TimeService_interface_def ac_def ac'_def)
  have "\<exists>st'. script_time_call eng ce (remote_service ops e) (JSSystemTimeGetCurrentTime eng) [] (st, c, s) = Some (st', c, s') \<and>
      js_log st' = js_log st @ [Js_promise (js_promises st),
        (if completion_error Op_GetCurrentTime ac' = 0 then Js_resolve else Js_reject) (js_promises st)
          (completion_result eng Op_GetCurrentTime ac')]"
    by (rule script_time_call_run [where f = "JSSystemTimeGetCurrentTime eng" and ac = ac, OF call work assms(4)])
      (simp_all add: ac'_def)
  then show ?thesis by (simp add: now ac_def ac'_def AsyncContext_def js_time_constants)
qed

section \<open>Guarantees\<close>

text \<open>C38. Destroying a timer frees another one's context: \<open>asyncCallbackInfoCreateInfo\<close> being the contexts
  of the created timers, all allocated, the completion of a successful \<open>destroyTimer\<close> takes the timer's
  context out of the vector without freeing it, and frees that of the timer created after it, whose
  place becomes a null pointer that the next successful \<open>destroyTimer\<close> of a third timer reads; for the
  timer created last it frees what the end of the vector points to. Both are undefined.\<close>

theorem destroy_frees_another:
  assumes "distinct (map fst ps)" and "distinct (map snd ps)" and "set (map fst ps) \<subseteq> mem" and "k < length ps"
  shows "destroy_loop (snd (ps ! k)) 0 (map Some ps) mem =
    (if Suc k = length ps then None
     else Some (map Some (take k ps) @ None # map Some (drop (k + 2) ps), mem - {fst (ps ! Suc k)}))"
proof -
  define n where "n = snd (ps ! k)"
  have ids: "snd (ps ! j) = n \<longleftrightarrow> j = k" if "j < length ps" for j
    using assms(2,4) that unfolding n_def by (metis distinct_conv_nth length_map nth_map)
  have ptrs: "fst (ps ! j) = fst (ps ! j') \<longleftrightarrow> j = j'" if "j < length ps" "j' < length ps" for j j'
    using assms(1) that by (metis distinct_conv_nth length_map nth_map)
  have mem: "fst (ps ! j) \<in> mem" if "j < length ps" for j
    using assms(3) that by auto
  have "destroy_loop n 0 (map Some ps) mem = destroy_loop n k (map Some ps) mem"
    using assms(4) ids mem by (intro destroy_loop_reach) (auto simp: prod_eq_iff)
  also have "\<dots> = (if Suc k = length ps then None
     else Some (map Some (take k ps) @ None # map Some (drop (k + 2) ps), mem - {fst (ps ! Suc k)}))"
  proof (cases "Suc k = length ps")
    case True
    then show ?thesis using mem [OF assms(4)]
      by (subst destroy_loop.simps) (simp add: assms(4) n_def Let_def split: prod.split)
  next
    case False
    then have k: "Suc k < length ps" using assms(4) by simp
    let ?rest = "map Some (take k ps) @ None # map Some (drop (k + 2) ps)"
    have "destroy_loop n k (map Some ps) mem = destroy_loop n (Suc k) ?rest (mem - {fst (ps ! Suc k)})"
      unfolding n_def using mem [OF assms(4)] mem [OF k] by (rule destroy_loop_frees_next [OF k])
    also have "\<dots> = Some (?rest, mem - {fst (ps ! Suc k)})"
    proof (rule destroy_loop_none, intro allI impI)
      fix j assume j: "Suc k \<le> j \<and> j < length ?rest"
      then have "?rest ! j = Some (ps ! Suc j)" "Suc j < length ps"
        using k by (auto simp: nth_append nth_Cons' not_less)
      then show "\<exists>p t. ?rest ! j = Some (p, t) \<and> p \<in> mem - {fst (ps ! Suc k)} \<and> t \<noteq> n"
        using mem [of "Suc j"] ptrs [of "Suc j" "Suc k"] ids [of "Suc j"] j k by (cases "ps ! Suc j") auto
    qed
    finally show ?thesis using False by simp
  qed
  finally show ?thesis unfolding n_def .
qed

theorem destroy_frees_another_witness:
  "destroy_loop 11 0 [Some (0, 10), Some (1, 11), Some (2, 12)] {0, 1, 2} = Some ([Some (0, 10), None], {0, 1})"
  using destroy_frees_another [of "[(0, 10), (1, 11), (2, 12)]" "{0, 1, 2}" 1] by (simp add: numeral_2_eq_2 insert_Diff_if)

text \<open>Which options \<open>createTimer\<close> takes: an object whose \<open>type\<close> is a number and \<open>repeat\<close> a boolean, and
  whose \<open>interval\<close>, \<open>wantAgent\<close> and \<open>callback\<close> are, where it has them, a number that is not negative, an
  object that wraps an agent, and a function. The timer instance has exactly these values, and 0 or
  nothing for those that are missing.\<close>

lemma GetTimerOptions_accepts:
  "GetTimerOptions eng v ITimerInfoInstance = Inr inst \<longleftrightarrow>
    js_has eng v ''type'' \<and> js_typeof eng (js_get eng v ''type'') = napi_number \<and>
    js_has eng v ''repeat'' \<and> js_typeof eng (js_get eng v ''repeat'') = napi_boolean \<and>
    (if js_has eng v ''interval''
     then js_typeof eng (js_get eng v ''interval'') = napi_number \<and> 0 \<le> or_else (js_int64 eng (js_get eng v ''interval'')) 0
     else True) \<and>
    (if js_has eng v ''wantAgent''
     then js_typeof eng (js_get eng v ''wantAgent'') = napi_object \<and> js_unwrap eng (js_get eng v ''wantAgent'') \<noteq> None
     else True) \<and>
    (if js_has eng v ''callback'' then js_typeof eng (js_get eng v ''callback'') = napi_function else True) \<and>
    inst = \<lparr>ji_type = or_else (js_int32 eng (js_get eng v ''type'')) 0,
            ji_repeat = or_else (js_bool eng (js_get eng v ''repeat'')) False,
            ji_interval = (if js_has eng v ''interval'' then word_of_int (or_else (js_int64 eng (js_get eng v ''interval'')) 0) else 0),
            ji_wantAgent = (if js_has eng v ''wantAgent'' then js_unwrap eng (js_get eng v ''wantAgent'') else None),
            ji_callback = (if js_has eng v ''callback'' then js_reference eng (js_get eng v ''callback'') else None)\<rparr>"
  by (auto simp: GetTimerOptions_def interval_option_def agent_option_def callback_option_def expect_type_def
      instance_setters ITimerInfoInstance_def ITimerInfo_def Let_def split: option.splits if_splits)

text \<open>C24. A script's \<open>createTimer\<close> is a \<open>CreateTimer\<close> of the service: for accepted options, through the
  client library, the parcels, the proxy and the stub, the service creates the timer with the type,
  repetition and interval of the options; the promise gets its number, and the client's table the
  script's instance. When the service refuses, or the client has the number already, the promise is not
  rejected: it is resolved with 0.\<close>

theorem script_creates_timer:
  assumes "parcel_documented ops contents" and "parcel_room ops" and "timeServiceProxy c" and "\<not> js_pending st"
    and "ce_object ce (c_now c) = Some ob" and "js_typeof eng opts = napi_object"
    and "GetTimerOptions eng opts ITimerInfoInstance = Inr inst"
    and "CreateTimer_service e (ji_type inst) (ji_repeat inst) (ji_interval inst) (Some ob) s = Some (s', n)"
  shows "let d = js_promises st; n' = (if n \<noteq> 0 \<and> info_of (c_callbacks c) n = None then n else 0)
    in \<exists>st' c'. script_call eng ce (remote_service ops e) (CreateTimer_js eng) [opts] (st, c, s) = Some (st', c', s') \<and>
      js_log st' = js_log st @ [Js_promise d, Js_resolve d (js_of_int eng (sint n'))] \<and>
      info_of (c_callbacks c') = (if n' = 0 then info_of (c_callbacks c)
        else (info_of (c_callbacks c))(n' \<mapsto> as_info (length (jt_instances st)) inst))"
proof -
  let ?k = "length (jt_instances st)" let ?cb = "InsertTimerCallbackInfo n (Some (as_info ?k inst)) (c_callbacks c)"
  define n' where "n' = (if n \<noteq> 0 \<and> info_of (c_callbacks c) n = None then n else 0)"
  define c' where "c' = c\<lparr>c_now := Suc (c_now c), c_callbacks := if n = 0 then c_callbacks c else fst ?cb\<rparr>"
  have parsed: "ParseParametersByCreateTimer eng [opts] ITimerInfoInstance = Inr (inst, None)"
    using assms(6,7) by (simp add: ParseParametersByCreateTimer_def expect_type_def js_arg_def callback_argument_def js_constants)
  define ai where "ai = (AsyncCallbackInfo :: 'b async_info)\<lparr>ai_instance := ?k\<rparr>"
  define st1 where "st1 = st\<lparr>jt_instances := jt_instances st @ [inst]\<rparr>"
  define ai' where "ai' = ai\<lparr>ai_deferred := Some (js_promises st), ai_isCallback := False, ai_timerId := n'\<rparr>"
  have f: "CreateTimer_js eng True [opts] st = queue_work eng Op_createTimer (padding eng None ai st1)"
    using parsed by (simp add: CreateTimer_js_def padding_defs ai_def st1_def)
  have "CreateTimer_client ce (remote_service ops e) (Some (as_info ?k inst)) (c, s) = Some ((c', s'), n')"
    using assms(3,5,8) Insert_answer [of n "as_info ?k inst" "c_callbacks c"]
    by (cases ?cb) (auto simp: CreateTimer_client_def with_service_def remote_service_eq [OF assms(1,2)] guarded_def
        TimeService_interface_def as_info_def c'_def n'_def Let_def)
  then have e: "execute_call ce (remote_service ops e) Op_createTimer (as_info (ai_instance ai) (jt_instances st1 ! ai_instance ai))
      (ai\<lparr>ai_deferred := Some (js_promises st), ai_isCallback := False\<rparr>) (c, s) = Some ((c', s'), ai')"
    by (simp add: ai'_def ai_def st1_def)
  have "info_of (c_callbacks c') = (if n' = 0 then info_of (c_callbacks c)
      else (info_of (c_callbacks c))(n' \<mapsto> as_info ?k inst))"
    using callbacks.lookup_register [of n "as_info ?k inst" "c_callbacks c"] by (simp add: c'_def n'_def)
  moreover have "\<exists>st'. script_call eng ce (remote_service ops e) (CreateTimer_js eng) [opts] (st, c, s) = Some (st', c', s') \<and>
      js_log st' = js_log st @ [Js_promise (js_promises st),
        (if Op_createTimer = Op_createTimer then Js_resolve (js_promises st) (js_of_int eng (sint (ai_timerId ai')))
         else (if ai_isOK ai' then Js_resolve else Js_reject) (js_promises st) (js_null eng))]"
    by (rule script_call_run [where f = "CreateTimer_js eng" and ai = ai and sta = st1, OF f _ _ _ _ e])
      (use assms(4) in \<open>simp_all add: st1_def ai_def ai'_def AsyncCallbackInfo_def\<close>)
  ultimately show ?thesis unfolding n'_def [symmetric] Let_def by (auto simp: ai'_def)
qed

theorem script_creates_timer_witness:
  "\<exists>st' c' s'. script_call sample_engine (ready_env\<lparr>ce_object := \<lambda>_. Some 4\<rparr>) (remote_service list_parcel sample_env)
      (CreateTimer_js sample_engine) [V_object [(''type'', V_number 7), (''repeat'', V_boolean True), (''interval'', V_number 6000)]]
      (js_timers_start, TimeServiceClient\<lparr>timeServiceProxy := True\<rparr>, sample_service) = Some (st', c', s') \<and>
    js_log st' = [Js_promise 0, Js_resolve 0 (V_number 1)]"
proof -
  let ?opts = "V_object [(''type'', V_number 7), (''repeat'', V_boolean True), (''interval'', V_number 6000)]"
  let ?ce = "ready_env\<lparr>ce_object := \<lambda>_. Some 4\<rparr>"
  let ?inst = "\<lparr>ji_type = 7, ji_repeat = True, ji_interval = 6000, ji_wantAgent = None, ji_callback = None\<rparr>"
  obtain s' where s': "CreateTimer_service sample_env 7 True 6000 (Some 4) sample_service = Some (s', 1)"
    using sample_create by (auto simp: create_for_client_def)
  have opts: "GetTimerOptions sample_engine ?opts ITimerInfoInstance = Inr ?inst"
    by (simp add: GetTimerOptions_def interval_option_def agent_option_def callback_option_def expect_type_def
        js_then_def js_assert_def instance_setters ITimerInfoInstance_def ITimerInfo_def)
  show ?thesis
    using script_creates_timer [OF list_parcel_ok, of "TimeServiceClient\<lparr>timeServiceProxy := True\<rparr>" js_timers_start ?ce 4
        sample_engine ?opts ?inst sample_env sample_service s' 1] s' opts
    by (auto simp: js_timers_start_def TimeServiceClient_def TimerCallback_def info_of_def Let_def)
qed

text \<open>C26. A script's \<open>setTime\<close> is a \<open>SetTime\<close> of the service: its promise is resolved exactly when the
  service has set the time and the hardware clock, and rejected otherwise. \<open>getCurrentTime\<close> reads the
  wall clock of the service, but it has no error: when the clock cannot be read, its promise is resolved
  with -1.\<close>

theorem script_sets_time:
  assumes "parcel_documented ops contents" and "parcel_room ops" and "timeServiceProxy c" and "\<not> js_pending st"
    and "is_number eng v t" and "0 \<le> t"
  shows "let d = js_promises st; (s', r) = SetTime_service e t s; (s'', now) = GetWallTimeMs_service e s
    in (\<exists>st'. script_time_call eng ce (remote_service ops e) (JSSystemTimeSetTime eng) [v] (st, c, s) = Some (st', c, s') \<and>
         js_log st' = js_log st @ [Js_promise d, (if r = ERR_OK then Js_resolve else Js_reject) d (js_null eng)]) \<and>
       (\<exists>st'. script_time_call eng ce (remote_service ops e) (JSSystemTimeGetCurrentTime eng) [] (st, c, s) = Some (st', c, s'') \<and>
         js_log st' = js_log st @ [Js_promise d, Js_resolve d (js_of_int eng (case now of Inl _ \<Rightarrow> -1 | Inr ms \<Rightarrow> ms))])"
  using script_sets [OF assms] script_reads [OF assms(1-4)] by (auto simp: Let_def split_def)

theorem script_sets_time_witness:
  "\<exists>st'. script_time_call sample_engine ready_env (remote_service list_parcel sample_env) (JSSystemTimeGetCurrentTime sample_engine) []
      (js_time_start, TimeServiceClient\<lparr>timeServiceProxy := True\<rparr>, sample_service) =
      Some (st', TimeServiceClient\<lparr>timeServiceProxy := True\<rparr>, after 1 sample_service) \<and>
    js_log st' = [Js_promise 0, Js_resolve 0 (V_number 1600000005001)]"
proof -
  have "GetWallTimeMs_service sample_env sample_service = (after 1 sample_service, Inr 1600000005001)"
    by (simp add: clock_ops in_milliseconds_def chrono_simps signed_divide_int_def)
  then show ?thesis
    using script_sets_time [OF list_parcel_ok, of "TimeServiceClient\<lparr>timeServiceProxy := True\<rparr>" js_time_start
        sample_engine "V_number 5" 5 sample_env sample_service ready_env]
    by (cases "SetTime_service sample_env 5 sample_service") (auto simp: is_number_def js_time_start_def Let_def)
qed

end
