(* ===== verification/Threads.thy ===== *)
theory Threads
  imports "HOL-Library.Multiset"
begin

text \<open>
  Threads that share variables and mutexes. The body of a function is a program: it takes and
  releases mutexes, and between them does steps, each with the shared variables it reads and writes.
  A configuration has a program for every thread, the owner of every mutex, and the shared state. Three
  guarantees are proved once, for any set of programs: without a deadlock if every program takes mutexes in
  increasing order; without a data race if every variable has a mutex that is held wherever it is used; and,
  in the locale \<open>protected_state\<close>, with an invariant, if every program keeps it against what other threads
  may do to the variables whose mutexes it does not hold.
\<close>

section \<open>Programs\<close>

text \<open>
  \<open>'l\<close> are the mutexes, \<open>'f\<close> the shared variables, \<open>'s\<close> the shared state and \<open>'r\<close> the results. A
  \<open>Step\<close> has the variables it reads and those it writes, what it does to the state, and how the program goes
  on, which may depend on the state before the step. \<open>Diverge\<close> is a loop that does not end.
\<close>

datatype ('l, 'f, 's, 'r) prog =
    Return 'r
  | Diverge
  | Acquire 'l "('l, 'f, 's, 'r) prog"
  | Release 'l "('l, 'f, 's, 'r) prog"
  | Step "'f set" "'f set" "'s \<Rightarrow> 's" "'s \<Rightarrow> ('l, 'f, 's, 'r) prog"

primrec seq_prog :: "('l, 'f, 's, 'r) prog \<Rightarrow> ('r \<Rightarrow> ('l, 'f, 's, 'q) prog) \<Rightarrow> ('l, 'f, 's, 'q) prog" where
  "seq_prog (Return r) q = q r"
| "seq_prog Diverge q = Diverge"
| "seq_prog (Acquire l p) q = Acquire l (seq_prog p q)"
| "seq_prog (Release l p) q = Release l (seq_prog p q)"
| "seq_prog (Step R W f k) q = Step R W f (\<lambda>s. seq_prog (k s) q)"

text \<open>\<open>std::lock_guard\<close>: the mutex is held while the body runs, however it ends.\<close>

definition lock_guard :: "'l \<Rightarrow> ('l, 'f, 's, 'r) prog \<Rightarrow> ('l, 'f, 's, 'r) prog" where
  "lock_guard l body = Acquire l (seq_prog body (\<lambda>r. Release l (Return r)))"

text \<open>What a program does when no other thread runs; \<open>None\<close> when it does not end.\<close>

primrec alone :: "('l, 'f, 's, 'r) prog \<Rightarrow> 's \<Rightarrow> ('s \<times> 'r) option" where
  "alone (Return r) s = Some (s, r)"
| "alone Diverge s = None"
| "alone (Acquire l p) s = alone p s"
| "alone (Release l p) s = alone p s"
| "alone (Step R W f k) s = alone (k s) (f s)"

lemma alone_seq: "alone (seq_prog p q) s = (case alone p s of None \<Rightarrow> None | Some (s', r) \<Rightarrow> alone (q r) s')"
  by (induction p arbitrary: s) auto

lemma alone_lock_guard [simp]: "alone (lock_guard l p) s = alone p s"
  by (simp add: lock_guard_def alone_seq split: option.splits)

section \<open>Interleaving\<close>

record ('l, 'f, 's, 'r) config =
  threads :: "nat \<Rightarrow> ('l, 'f, 's, 'r) prog"
  owner :: "'l \<Rightarrow> nat option"
  shared :: 's

definition idle :: "('l, 'f, 's, 'r) prog \<Rightarrow> bool" where
  "idle p \<longleftrightarrow> (\<exists>r. p = Return r)"

inductive moves :: "('l, 'f, 's, 'r) config \<Rightarrow> nat \<Rightarrow> ('l, 'f, 's, 'r) config \<Rightarrow> bool" for c t where
  acquire: "threads c t = Acquire l p \<Longrightarrow> owner c l = None \<Longrightarrow>
    moves c t (c\<lparr>threads := (threads c)(t := p), owner := (owner c)(l \<mapsto> t)\<rparr>)"
| release: "threads c t = Release l p \<Longrightarrow> owner c l = Some t \<Longrightarrow>
    moves c t (c\<lparr>threads := (threads c)(t := p), owner := (owner c)(l := None)\<rparr>)"
| step: "threads c t = Step R W f k \<Longrightarrow>
    moves c t (c\<lparr>threads := (threads c)(t := k (shared c)), shared := f (shared c)\<rparr>)"
| diverge: "threads c t = Diverge \<Longrightarrow> moves c t c"

text \<open>An idle thread may call any of the programs \<open>P\<close>.\<close>

inductive happens :: "('l, 'f, 's, 'r) prog set \<Rightarrow> ('l, 'f, 's, 'r) config \<Rightarrow> ('l, 'f, 's, 'r) config \<Rightarrow> bool" for P c where
  call: "idle (threads c t) \<Longrightarrow> p \<in> P \<Longrightarrow> happens P c (c\<lparr>threads := (threads c)(t := p)\<rparr>)"
| move: "moves c t c' \<Longrightarrow> happens P c c'"

definition starts :: "'s \<Rightarrow> ('l, 'f, 's, 'r) config \<Rightarrow> bool" where
  "starts s c \<longleftrightarrow> (\<forall>t. idle (threads c t)) \<and> owner c = (\<lambda>_. None) \<and> shared c = s"

inductive runs :: "('l, 'f, 's, 'r) prog set \<Rightarrow> 's \<Rightarrow> ('l, 'f, 's, 'r) config \<Rightarrow> bool" for P s where
  start: "starts s c \<Longrightarrow> runs P s c"
| next_step: "runs P s c \<Longrightarrow> happens P c c' \<Longrightarrow> runs P s c'"

lemma runs_mono: "runs P s c \<Longrightarrow> P \<subseteq> P' \<Longrightarrow> runs P' s c"
proof (induction rule: runs.induct)
  case (next_step c c')
  have "happens P' c c'" using next_step.hyps(2) next_step.prems by cases (auto intro: happens.intros)
  with next_step show ?case by (blast intro: runs.next_step)
qed (rule runs.start)

definition held :: "('l, 'f, 's, 'r) config \<Rightarrow> nat \<Rightarrow> 'l set" where
  "held c t = {l. owner c l = Some t}"

lemma held_disjoint: "t \<noteq> t' \<Longrightarrow> held c t \<inter> held c t' = {}"
  by (auto simp: held_def)

text \<open>What a move does to the thread that makes it, and to the others.\<close>

lemma moves_others: "moves c t c' \<Longrightarrow> t' \<noteq> t \<Longrightarrow> threads c' t' = threads c t' \<and> held c' t' = held c t'"
  by (induction rule: moves.induct) (auto simp: held_def)

lemma moves_elim [consumes 1, case_names acquire release step diverge]:
  assumes "moves c t c'"
  obtains (acquire) l p where "threads c t = Acquire l p" "threads c' t = p" "owner c l = None"
      "held c' t = insert l (held c t)" "shared c' = shared c" "owner c' = (owner c)(l \<mapsto> t)"
    | (release) l p where "threads c t = Release l p" "threads c' t = p" "l \<in> held c t"
      "held c' t = held c t - {l}" "shared c' = shared c" "owner c' = (owner c)(l := None)"
    | (step) R W f k where "threads c t = Step R W f k" "threads c' t = k (shared c)"
      "held c' t = held c t" "shared c' = f (shared c)" "owner c' = owner c"
    | (diverge) "threads c t = Diverge" "c' = c"
  using assms
proof (cases rule: moves.cases)
  case (acquire l p)
  then have "held c' t = insert l (held c t)" by (auto simp: held_def)
  with acquire that(1) show thesis by simp
next
  case (release l p)
  then have "held c' t = held c t - {l}" "l \<in> held c t" by (auto simp: held_def)
  with release that(2) show thesis by simp
qed (auto simp: held_def intro: that(3,4))

lemma held_call [simp]: "held (c\<lparr>threads := th\<rparr>) t = held c t"
  by (simp add: held_def)

lemma starts_idle: "starts s c \<Longrightarrow> \<exists>r. threads c t = Return r \<and> held c t = {}"
  by (auto simp: starts_def idle_def held_def)

text \<open>The configuration before anything is called.\<close>

definition resting :: "'r \<Rightarrow> 's \<Rightarrow> ('l, 'f, 's, 'r) config" where
  "resting r s = \<lparr>threads = (\<lambda>_. Return r), owner = (\<lambda>_. None), shared = s\<rparr>"

lemma starts_resting: "starts s (resting r s)"
  by (simp add: starts_def resting_def idle_def)

lemma run_call:
  "runs P s c \<Longrightarrow> idle (threads c t) \<Longrightarrow> p \<in> P \<Longrightarrow> runs P s (c\<lparr>threads := (threads c)(t := p)\<rparr>)"
  by (blast intro: runs.next_step happens.call)

lemma run_move: "runs P s c \<Longrightarrow> moves c t c' \<Longrightarrow> runs P s c'"
  by (blast intro: runs.next_step happens.move)

text \<open>Two threads in a configuration, each with a program that has not moved.\<close>

lemma run_two:
  assumes "p \<in> P" "q \<in> P"
  shows "runs P s ((resting r s)\<lparr>threads := (\<lambda>_. Return r)(0 := p, 1 := q)\<rparr>)"
proof -
  have "runs P s ((resting r s)\<lparr>threads := (\<lambda>_. Return r)(0 := p)\<rparr>)"
    using run_call [where t = 0 and p = p, OF runs.start [OF starts_resting]] assms(1) by (simp add: resting_def idle_def)
  from run_call [where t = 1 and p = q, OF this] assms(2) show ?thesis by (simp add: resting_def idle_def)
qed

section \<open>No deadlock\<close>

text \<open>
  With the mutexes \<open>H\<close> held, the program takes further ones only above those it holds, releases what it
  holds, and ends with \<open>E\<close> held.
\<close>

primrec ordered :: "'l::linorder set \<Rightarrow> ('l, 'f, 's, 'r) prog \<Rightarrow> 'l set \<Rightarrow> bool" where
  "ordered E (Return r) H \<longleftrightarrow> H = E"
| "ordered E Diverge H \<longleftrightarrow> True"
| "ordered E (Acquire l p) H \<longleftrightarrow> (\<forall>h \<in> H. h < l) \<and> ordered E p (insert l H)"
| "ordered E (Release l p) H \<longleftrightarrow> l \<in> H \<and> ordered E p (H - {l})"
| "ordered E (Step R W f k) H \<longleftrightarrow> (\<forall>s. ordered E (k s) H)"

lemma ordered_seq: "ordered E p H \<Longrightarrow> (\<And>r. ordered E' (q r) E) \<Longrightarrow> ordered E' (seq_prog p q) H"
  by (induction p arbitrary: H) auto

lemma ordered_lock_guard: "\<forall>h \<in> H. h < l \<Longrightarrow> ordered (insert l H) p (insert l H) \<Longrightarrow> ordered H (lock_guard l p) H"
  unfolding lock_guard_def ordered.simps
  by (intro conjI ordered_seq [where E = "insert l H"]) auto

definition well_ordered :: "('l::linorder, 'f, 's, 'r) config \<Rightarrow> bool" where
  "well_ordered c \<longleftrightarrow> (\<forall>t. ordered {} (threads c t) (held c t))"

lemma well_ordered_moves:
  assumes "moves c t c'" "well_ordered c"
  shows "well_ordered c'"
  unfolding well_ordered_def
proof
  fix t'
  show "ordered {} (threads c' t') (held c' t')"
  proof (cases "t' = t")
    case True
    have "ordered {} (threads c t) (held c t)" using assms(2) by (simp add: well_ordered_def)
    then show ?thesis using True by (cases rule: moves_elim [OF assms(1)]) auto
  qed (use assms moves_others [OF assms(1)] in \<open>simp add: well_ordered_def\<close>)
qed

lemma idle_holds_none: "well_ordered c \<Longrightarrow> idle (threads c t) \<Longrightarrow> held c t = {}"
  by (metis idle_def ordered.simps(1) well_ordered_def)

lemma well_ordered_runs: "runs P s c \<Longrightarrow> \<forall>p \<in> P. ordered {} p {} \<Longrightarrow> well_ordered c"
proof (induction rule: runs.induct)
  case (start c)
  then show ?case by (simp add: well_ordered_def) (metis starts_idle ordered.simps(1))
next
  case (next_step c c')
  from next_step.hyps(2) show ?case
  proof cases
    case (call t p)
    then have "held c t = {}" using next_step.IH next_step.prems idle_holds_none by blast
    with next_step.IH next_step.prems call show ?thesis by (auto simp: well_ordered_def)
  qed (use next_step well_ordered_moves in blast)
qed

text \<open>A mutex that is wanted is held by a thread that is not idle.\<close>

definition wants :: "('l, 'f, 's, 'r) config \<Rightarrow> nat \<Rightarrow> 'l \<Rightarrow> bool" where
  "wants c t l \<longleftrightarrow> (\<exists>p. threads c t = Acquire l p)"

lemma blocked_wants:
  assumes "well_ordered c" "\<not> idle (threads c t)" "\<nexists>c'. moves c t c'"
  obtains l t' where "wants c t l" "owner c l = Some t'" "\<forall>h \<in> held c t. h < l" "\<not> idle (threads c t')"
proof (cases "threads c t")
  case (Acquire l p)
  have "owner c l \<noteq> None" using assms(3) moves.acquire [OF Acquire] by blast
  then obtain t' where t': "owner c l = Some t'" by blast
  then have "held c t' \<noteq> {}" by (auto simp: held_def)
  then have "\<not> idle (threads c t')" using assms(1) idle_holds_none by blast
  moreover have "\<forall>h \<in> held c t. h < l" using assms(1) Acquire by (metis ordered.simps(3) well_ordered_def)
  ultimately show ?thesis using that Acquire t' by (auto simp: wants_def)
next
  case (Release l p)
  then have "owner c l = Some t" using assms(1) by (auto simp: well_ordered_def held_def dest!: spec [of _ t])
  then show ?thesis using assms(3) moves.release [OF Release] by blast
next
  case (Step R W f k)
  then show ?thesis using assms(3) moves.step [OF Step] by blast
next
  case Diverge
  then show ?thesis using assms(3) moves.diverge [OF Diverge] by blast
qed (use assms(2) in \<open>simp add: idle_def\<close>)

text \<open>With finitely many mutexes some thread that is not idle can move.\<close>

lemma no_deadlock:
  fixes c :: "('l::{linorder,finite}, 'f, 's, 'r) config"
  assumes "well_ordered c" "\<not> idle (threads c t)"
  shows "\<exists>t' c'. \<not> idle (threads c t') \<and> moves c t' c'"
proof (rule ccontr)
  assume "\<not> ?thesis"
  then have stuck: "\<nexists>c'. moves c t' c'" if "\<not> idle (threads c t')" for t' using that by blast
  let ?L = "{l. \<exists>t. \<not> idle (threads c t) \<and> wants c t l}"
  have "?L \<noteq> {}" using blocked_wants [OF assms stuck [OF assms(2)]] assms(2) by blast
  then have "Max ?L \<in> ?L" by (intro Max_in) simp_all
  then obtain t1 where t1: "\<not> idle (threads c t1)" "wants c t1 (Max ?L)" by blast
  obtain t2 where t2: "owner c (Max ?L) = Some t2" "\<not> idle (threads c t2)"
    by (rule blocked_wants [OF assms(1) t1(1) stuck [OF t1(1)]]) (use t1(2) in \<open>auto simp: wants_def\<close>)
  obtain l where l: "wants c t2 l" "\<forall>h \<in> held c t2. h < l"
    by (rule blocked_wants [OF assms(1) t2(2) stuck [OF t2(2)]])
  then have "l \<le> Max ?L" using t2(2) by (intro Max_ge) auto
  then show False using l(2) t2(1) by (auto simp: held_def)
qed

section \<open>Everything ends\<close>

text \<open>A program is well-founded, so that without new calls the threads only move finitely often.\<close>

inductive_set smaller :: "(('l, 'f, 's, 'r) prog \<times> ('l, 'f, 's, 'r) prog) set" where
  acquire: "(p, Acquire l p) \<in> smaller"
| release: "(p, Release l p) \<in> smaller"
| step: "(k s, Step R W f k) \<in> smaller"

inductive_cases smaller_cases: "(p, Return r) \<in> smaller" "(p, Diverge) \<in> smaller"
  "(p, Acquire l q) \<in> smaller" "(p, Release l q) \<in> smaller" "(p, Step R W f k) \<in> smaller"

lemma wf_smaller: "wf (smaller :: (('l, 'f, 's, 'r) prog \<times> _) set)"
proof (rule wfUNIVI)
  fix P :: "('l, 'f, 's, 'r) prog \<Rightarrow> bool" and p
  assume *: "\<forall>p. (\<forall>q. (q, p) \<in> smaller \<longrightarrow> P q) \<longrightarrow> P p"
  show "P p"
  proof (induction p)
    case (Step R W f k)
    have "P q" if "(q, Step R W f k) \<in> smaller" for q
      using that by (rule smaller_cases(5)) (simp add: Step.IH)
    then show ?case using * by blast
  qed (use * in \<open>blast elim: smaller_cases(1-4)\<close>)+
qed

definition busy :: "('l, 'f, 's, 'r) config \<Rightarrow> nat set" where
  "busy c = {t. \<not> idle (threads c t)}"

definition work :: "nat set \<Rightarrow> ('l, 'f, 's, 'r) config \<Rightarrow> ('l, 'f, 's, 'r) prog multiset" where
  "work T c = image_mset (threads c) (mset_set T)"

lemma runs_busy: "runs P s c \<Longrightarrow> finite (busy c)"
proof (induction rule: runs.induct)
  case (start c)
  then show ?case by (simp add: starts_def busy_def)
next
  case (next_step c c')
  have sub: "finite (busy c')" if "\<And>t'. t' \<noteq> t \<Longrightarrow> threads c' t' = threads c t'" for t
  proof -
    have "busy c' \<subseteq> insert t (busy c)" using that by (auto simp: busy_def)
    then show ?thesis using next_step.IH by (meson finite_insert finite_subset)
  qed
  from next_step.hyps(2) show ?case
  proof cases
    case (call t p)
    then show ?thesis by (intro sub [of t]) simp
  next
    case (move t)
    then show ?thesis using moves_others by (intro sub [of t]) blast
  qed
qed

lemma moves_busy: "moves c t c' \<Longrightarrow> busy c' \<subseteq> busy c \<and> t \<in> busy c"
  by (induction rule: moves.induct) (auto simp: busy_def idle_def split: if_splits)

lemma moves_work:
  assumes m: "moves c t c'" "threads c t \<noteq> Diverge" and T: "finite T" "t \<in> T"
  shows "(work T c', work T c) \<in> mult smaller"
proof -
  obtain T' where T': "T = insert t T'" "t \<notin> T'" using T(2) by (meson mk_disjoint_insert)
  then have fin: "finite T'" using T(1) by simp
  have rest: "image_mset (threads c') (mset_set T') = image_mset (threads c) (mset_set T')"
    using T'(2) fin by (intro image_mset_cong) (metis moves_others [OF m(1)] elem_mset_set)
  have "(threads c' t, threads c t) \<in> smaller"
    using m(2) by (cases rule: moves_elim [OF m(1)]) (auto intro: smaller.intros)
  then have "(image_mset (threads c) (mset_set T') + {#threads c' t#}, image_mset (threads c) (mset_set T') + {#threads c t#}) \<in> mult smaller"
    by (intro one_step_implies_mult) auto
  then show ?thesis using T' fin rest by (simp add: work_def)
qed

definition moves_on :: "('l, 'f, 's, 'r) config \<Rightarrow> ('l, 'f, 's, 'r) config \<Rightarrow> bool" where
  "moves_on c c' \<longleftrightarrow> (\<exists>t. moves c t c')"

text \<open>
  Whatever the threads are doing, they come to an end if nothing new is called: all of them are idle, or
  one is in a loop that does not end.
\<close>

lemma all_end:
  fixes c :: "('l::{linorder,finite}, 'f, 's, 'r) config"
  assumes "well_ordered c" "finite (busy c)"
  shows "\<exists>c'. moves_on\<^sup>*\<^sup>* c c' \<and> ((\<forall>t. idle (threads c' t)) \<or> (\<exists>t. threads c' t = Diverge))"
proof -
  define T where "T = busy c"
  have "\<exists>c'. moves_on\<^sup>*\<^sup>* d c' \<and> ((\<forall>t. idle (threads c' t)) \<or> (\<exists>t. threads c' t = Diverge))"
    if "well_ordered d" "busy d \<subseteq> T" for d :: "('l, 'f, 's, 'r) config"
    using that
  proof (induction "work T d" arbitrary: d rule: wf_induct_rule [OF wf_mult [OF wf_smaller], case_names less])
    case less
    show ?case
    proof (cases "(\<forall>t. idle (threads d t)) \<or> (\<exists>t. threads d t = Diverge)")
      case False
      then obtain t d' where m: "moves d t d'" "threads d t \<noteq> Diverge"
        using no_deadlock [OF less.prems(1)] by blast
      have t: "busy d' \<subseteq> T" "t \<in> T" using moves_busy [OF m(1)] less.prems(2) by auto
      have "(work T d', work T d) \<in> mult smaller"
        using m t(2) assms(2) by (intro moves_work) (simp_all add: T_def)
      then obtain c' where "moves_on\<^sup>*\<^sup>* d' c'" "(\<forall>t. idle (threads c' t)) \<or> (\<exists>t. threads c' t = Diverge)"
        using less.hyps [OF _ well_ordered_moves [OF m(1) less.prems(1)] t(1)] by blast
      with m(1) show ?thesis by (meson moves_on_def converse_rtranclp_into_rtranclp)
    qed blast
  qed
  then show ?thesis using assms(1) by (simp add: T_def)
qed

section \<open>A thread that waits for itself\<close>

text \<open>The mutexes are not recursive: a thread that takes one it holds waits for ever.\<close>

datatype ('l, 's, 'r) ending = Finished 's 'r | Blocked 'l "'l set" | No_end

primrec outcome :: "('l, 'f, 's, 'r) prog \<Rightarrow> 'l set \<Rightarrow> 's \<Rightarrow> ('l, 's, 'r) ending" where
  "outcome (Return r) H s = Finished s r"
| "outcome Diverge H s = No_end"
| "outcome (Acquire l p) H s = (if l \<in> H then Blocked l H else outcome p (insert l H) s)"
| "outcome (Release l p) H s = (if l \<in> H then outcome p (H - {l}) s else No_end)"
| "outcome (Step R W f k) H s = outcome (k s) H (f s)"

lemma outcome_seq_blocked: "outcome p H s = Blocked l H' \<Longrightarrow> outcome (seq_prog p q) H s = Blocked l H'"
  by (induction p arbitrary: H s) (auto split: if_splits)

lemma outcome_lock_guard_blocked:
  "l \<notin> H \<Longrightarrow> outcome p (insert l H) s = Blocked k H' \<Longrightarrow> outcome (lock_guard l p) H s = Blocked k H'"
  by (simp add: lock_guard_def outcome_seq_blocked)

definition stuck :: "('l, 'f, 's, 'r) config \<Rightarrow> nat \<Rightarrow> bool" where
  "stuck c t \<longleftrightarrow> (\<exists>l p. threads c t = Acquire l p \<and> l \<in> held c t)"

lemma stuck_happens: "happens P c c' \<Longrightarrow> stuck c t \<Longrightarrow> stuck c' t \<and> held c' t = held c t"
proof (induction rule: happens.induct)
  case (call t' p)
  then show ?case by (cases "t = t'") (auto simp: stuck_def idle_def)
next
  case (move t' c')
  have "t \<noteq> t'" using move by (auto simp: stuck_def held_def elim!: moves.cases)
  then show ?case using moves_others [OF move(1), of t] move(2) by (simp add: stuck_def)
qed

lemma stuck_forever: "(happens P)\<^sup>*\<^sup>* c c' \<Longrightarrow> stuck c t \<Longrightarrow> stuck c' t \<and> held c' t = held c t"
  by (induction rule: rtranclp_induct) (auto dest: stuck_happens)

text \<open>What another thread waits for then, it waits for for ever.\<close>

lemma waits_forever:
  assumes "(happens P)\<^sup>*\<^sup>* c c'" "stuck c t" "l \<in> held c t" "threads c t' = Acquire l p"
  shows "threads c' t' = Acquire l p"
  using assms(1)
proof (induction rule: rtranclp_induct)
  case (step d d')
  have own: "owner d l = Some t" using stuck_forever [OF step.hyps(1) assms(2)] assms(3) by (auto simp: held_def)
  from step.hyps(2) show ?case
  proof cases
    case (call u q)
    then show ?thesis using step.IH by (cases "u = t'") (auto simp: idle_def)
  next
    case (move u)
    then have "u \<noteq> t'" using step.IH own by (auto elim!: moves.cases)
    then show ?thesis using moves_others [OF move, of t'] step.IH by simp
  qed
qed (rule assms(4))

lemma from_move: "moves c t c1 \<Longrightarrow> \<exists>c'. moves_on\<^sup>*\<^sup>* c1 c' \<and> Q c' \<Longrightarrow> \<exists>c'. moves_on\<^sup>*\<^sup>* c c' \<and> Q c'"
  by (meson moves_on_def converse_rtranclp_into_rtranclp)

lemma blocked_stuck:
  assumes "outcome (threads c t) (held c t) (shared c) = Blocked l H" "\<forall>l. owner c l = None \<or> owner c l = Some t"
  shows "\<exists>c'. moves_on\<^sup>*\<^sup>* c c' \<and> stuck c' t \<and> held c' t = H"
  using assms
proof (induction "threads c t" arbitrary: c)
  case (Acquire k p)
  show ?case
  proof (cases "k \<in> held c t")
    case True
    then have "stuck c t \<and> held c t = H" using Acquire.hyps(2) Acquire.prems(1) by (auto simp: stuck_def simp flip: Acquire.hyps(2))
    then show ?thesis by blast
  next
    case False
    then have "owner c k = None" using Acquire.prems(2) by (auto simp: held_def)
    define c1 where "c1 = c\<lparr>threads := (threads c)(t := p), owner := (owner c)(k \<mapsto> t)\<rparr>"
    have m: "moves c t c1" unfolding c1_def by (rule moves.acquire [OF Acquire.hyps(2) [symmetric] \<open>owner c k = None\<close>])
    have "held c1 t = insert k (held c t)" by (auto simp: c1_def held_def)
    moreover have "\<forall>l. owner c1 l = None \<or> owner c1 l = Some t" using Acquire.prems(2) by (simp add: c1_def)
    ultimately have "\<exists>c'. moves_on\<^sup>*\<^sup>* c1 c' \<and> stuck c' t \<and> held c' t = H"
      using Acquire.prems(1) False by (intro Acquire.hyps(1)) (simp_all add: c1_def flip: Acquire.hyps(2))
    with m show ?thesis by (rule from_move)
  qed
next
  case (Release k p)
  then have k: "k \<in> held c t" by (auto split: if_splits simp flip: Release.hyps(2))
  then have own: "owner c k = Some t" by (simp add: held_def)
  define c1 where "c1 = c\<lparr>threads := (threads c)(t := p), owner := (owner c)(k := None)\<rparr>"
  have m: "moves c t c1" unfolding c1_def by (rule moves.release [OF Release.hyps(2) [symmetric] own])
  have "held c1 t = held c t - {k}" by (auto simp: c1_def held_def)
  moreover have "\<forall>l. owner c1 l = None \<or> owner c1 l = Some t" using Release.prems(2) by (simp add: c1_def)
  ultimately have "\<exists>c'. moves_on\<^sup>*\<^sup>* c1 c' \<and> stuck c' t \<and> held c' t = H"
    using Release.prems(1) k by (intro Release.hyps(1)) (simp_all add: c1_def flip: Release.hyps(2))
  with m show ?case by (rule from_move)
next
  case (Step R W f k)
  define c1 where "c1 = c\<lparr>threads := (threads c)(t := k (shared c)), shared := f (shared c)\<rparr>"
  have m: "moves c t c1" unfolding c1_def by (rule moves.step [OF Step.hyps(2) [symmetric]])
  have "held c1 t = held c t" by (auto simp: c1_def held_def)
  moreover have "\<forall>l. owner c1 l = None \<or> owner c1 l = Some t" using Step.prems(2) by (simp add: c1_def)
  ultimately have "\<exists>c'. moves_on\<^sup>*\<^sup>* c1 c' \<and> stuck c' t \<and> held c' t = H"
    using Step.prems(1) by (intro Step.hyps(1)) (simp_all add: c1_def flip: Step.hyps(2))
  with m show ?case by (rule from_move)
qed (metis outcome.simps(1,2) ending.distinct)+

section \<open>No data race\<close>

text \<open>\<open>guard\<close> gives the mutex that protects a variable, if there is one; then it is held wherever the variable is used.\<close>

primrec guarded :: "('f \<Rightarrow> 'l option) \<Rightarrow> ('l, 'f, 's, 'r) prog \<Rightarrow> 'l set \<Rightarrow> bool" where
  "guarded guard (Return r) H \<longleftrightarrow> True"
| "guarded guard Diverge H \<longleftrightarrow> True"
| "guarded guard (Acquire l p) H \<longleftrightarrow> guarded guard p (insert l H)"
| "guarded guard (Release l p) H \<longleftrightarrow> guarded guard p (H - {l})"
| "guarded guard (Step R W f k) H \<longleftrightarrow>
     (\<forall>x \<in> R \<union> W. guard x = None \<or> (\<exists>l \<in> H. guard x = Some l)) \<and> (\<forall>s. guarded guard (k s) H)"

text \<open>Two threads are about to use the same variable, and one of them to write it.\<close>

definition race_on :: "('l, 'f, 's, 'r) config \<Rightarrow> 'f \<Rightarrow> bool" where
  "race_on c x \<longleftrightarrow> (\<exists>t t' R W f k R' W' f' k'. t \<noteq> t' \<and> threads c t = Step R W f k \<and>
     threads c t' = Step R' W' f' k' \<and> x \<in> W \<and> x \<in> R' \<union> W')"

definition well_guarded :: "('f \<Rightarrow> 'l option) \<Rightarrow> ('l, 'f, 's, 'r) config \<Rightarrow> bool" where
  "well_guarded guard c \<longleftrightarrow> (\<forall>t. guarded guard (threads c t) (held c t))"

lemma guarded_mono: "guarded guard p H \<Longrightarrow> H \<subseteq> H' \<Longrightarrow> guarded guard p H'"
proof (induction p arbitrary: H H')
  case (Acquire l p)
  then have "guarded guard p (insert l H)" "insert l H \<subseteq> insert l H'" by auto
  then show ?case unfolding guarded.simps by (rule Acquire.IH)
next
  case (Release l p)
  then have "guarded guard p (H - {l})" "H - {l} \<subseteq> H' - {l}" by auto
  then show ?case unfolding guarded.simps by (rule Release.IH)
next
  case (Step R W f k)
  have "guarded guard (k s) H'" for s using Step.prems Step.IH [of "k s" H H'] by simp
  moreover have "\<forall>x \<in> R \<union> W. guard x = None \<or> (\<exists>l \<in> H'. guard x = Some l)" using Step.prems by (auto 4 4)
  ultimately show ?case by simp
qed simp_all

lemma guarded_seq: "ordered E p H \<Longrightarrow> guarded guard p H \<Longrightarrow> (\<And>r. guarded guard (q r) E) \<Longrightarrow> guarded guard (seq_prog p q) H"
  by (induction p arbitrary: H) auto

lemma guarded_lock_guard: "ordered (insert l H) p (insert l H) \<Longrightarrow> guarded guard p (insert l H) \<Longrightarrow> guarded guard (lock_guard l p) H"
  unfolding lock_guard_def guarded.simps by (rule guarded_seq) auto

lemma well_guarded_moves:
  assumes "moves c t c'" "well_guarded guard c"
  shows "well_guarded guard c'"
  unfolding well_guarded_def
proof
  fix t'
  show "guarded guard (threads c' t') (held c' t')"
  proof (cases "t' = t")
    case True
    have "guarded guard (threads c t) (held c t)" using assms(2) by (simp add: well_guarded_def)
    then show ?thesis using True by (cases rule: moves_elim [OF assms(1)]) auto
  qed (use assms moves_others [OF assms(1)] in \<open>simp add: well_guarded_def\<close>)
qed

lemma well_guarded_runs: "runs P s c \<Longrightarrow> \<forall>p \<in> P. guarded guard p {} \<Longrightarrow> well_guarded guard c"
proof (induction rule: runs.induct)
  case (start c)
  then show ?case by (simp add: well_guarded_def) (metis starts_idle guarded.simps(1))
next
  case (next_step c c')
  from next_step.hyps(2) show ?case
  proof cases
    case (call t p)
    then show ?thesis using next_step.IH next_step.prems by (auto simp: well_guarded_def intro: guarded_mono)
  qed (use next_step well_guarded_moves in blast)
qed

text \<open>Only variables without a mutex are raced for.\<close>

lemma no_race:
  assumes g: "well_guarded guard c" and "race_on c x"
  shows "guard x = None"
proof (rule ccontr)
  assume some: "guard x \<noteq> None"
  obtain t t' R W f k R' W' f' k' where
    t: "t \<noteq> t'" "threads c t = Step R W f k" "threads c t' = Step R' W' f' k'" "x \<in> W" "x \<in> R' \<union> W'"
    using assms(2) unfolding race_on_def by blast
  have "guarded guard (Step R W f k) (held c t)" "guarded guard (Step R' W' f' k') (held c t')"
    using g t(2,3) by (metis well_guarded_def)+
  then have "guard x = None \<or> (\<exists>l \<in> held c t. guard x = Some l)" "guard x = None \<or> (\<exists>l \<in> held c t'. guard x = Some l)"
    unfolding guarded.simps using t(4,5) by blast+
  then have "\<exists>l \<in> held c t. guard x = Some l" "\<exists>l \<in> held c t'. guard x = Some l"
    using some by simp_all
  then show False using held_disjoint [OF t(1), of c] by auto
qed

section \<open>Invariants\<close>

text \<open>
  A state that the mutexes protect. While a thread holds the mutexes \<open>H\<close>, the others only do what
  \<open>rely H\<close> allows; \<open>free l\<close> holds of the state whenever nobody holds \<open>l\<close>; and every step has to
  keep \<open>inv\<close> and to be \<open>fair\<close>, a condition on the states before and after it.
\<close>

locale protected_state =
  fixes inv :: "'s \<Rightarrow> bool"
    and rely :: "'l set \<Rightarrow> 's \<Rightarrow> 's \<Rightarrow> bool"
    and free :: "'l \<Rightarrow> 's \<Rightarrow> bool"
    and fair :: "'s \<Rightarrow> 's \<Rightarrow> bool"
  assumes rely_refl: "rely H s s"
    and rely_trans: "rely H s s' \<Longrightarrow> rely H s' s'' \<Longrightarrow> rely H s s''"
    and free_stable: "rely {l} s s' \<Longrightarrow> free l s \<Longrightarrow> free l s'"
begin

text \<open>The condition \<open>Q\<close> holds of a result, whatever other threads do.\<close>

definition settled :: "('r \<Rightarrow> 'l set \<Rightarrow> 's \<Rightarrow> bool) \<Rightarrow> 'r \<Rightarrow> 'l set \<Rightarrow> 's \<Rightarrow> bool" where
  "settled Q r H s \<longleftrightarrow> (\<forall>s'. inv s' \<longrightarrow> rely H s s' \<longrightarrow> Q r H s')"

lemma settled_stable: "settled Q r H s \<Longrightarrow> rely H s s' \<Longrightarrow> settled Q r H s'"
  by (auto simp: settled_def intro: rely_trans)

text \<open>
  From a state on, the program keeps the invariant and the other threads' reliance, whatever these do
  meanwhile, and the result comes with \<open>Q\<close>.
\<close>

primrec safe :: "('r \<Rightarrow> 'l set \<Rightarrow> 's \<Rightarrow> bool) \<Rightarrow> ('l, 'f, 's, 'r) prog \<Rightarrow> 'l set \<Rightarrow> 's \<Rightarrow> bool" where
  "safe Q (Return r) H s \<longleftrightarrow> settled Q r H s"
| "safe Q Diverge H s \<longleftrightarrow> True"
| "safe Q (Acquire l p) H s \<longleftrightarrow> (\<forall>s'. inv s' \<longrightarrow> rely H s s' \<longrightarrow> free l s' \<longrightarrow> safe Q p (insert l H) s')"
| "safe Q (Release l p) H s \<longleftrightarrow> (\<forall>s'. inv s' \<longrightarrow> rely H s s' \<longrightarrow> free l s' \<and> safe Q p (H - {l}) s')"
| "safe Q (Step R W f k) H s \<longleftrightarrow> (\<forall>s'. inv s' \<longrightarrow> rely H s s' \<longrightarrow>
     inv (f s') \<and> fair s' (f s') \<and> (\<forall>H'. H \<inter> H' = {} \<longrightarrow> rely H' s' (f s')) \<and> safe Q (k s') H (f s'))"

lemma safe_stable: "safe Q p H s \<Longrightarrow> rely H s s' \<Longrightarrow> safe Q p H s'"
  by (cases p) (auto intro: rely_trans settled_stable)

lemma safe_mono: "safe Q p H s \<Longrightarrow> (\<And>r H s. Q r H s \<Longrightarrow> Q' r H s) \<Longrightarrow> safe Q' p H s"
  by (induction p arbitrary: H s) (auto simp: settled_def)

lemma safe_seq: "safe Q p H s \<Longrightarrow> (\<And>r H s. inv s \<Longrightarrow> Q r H s \<Longrightarrow> safe Q' (q r) H s) \<Longrightarrow> inv s \<Longrightarrow> safe Q' (seq_prog p q) H s"
proof (induction p arbitrary: H s)
  case (Return r)
  then have "Q r H s" using rely_refl by (simp add: settled_def)
  with Return show ?case by simp
next
  case (Step R W f k)
  then show ?case by simp
qed simp_all

lemma safe_lock_guard:
  assumes "\<And>s'. inv s' \<Longrightarrow> rely H s s' \<Longrightarrow> free l s' \<Longrightarrow>
      safe (\<lambda>r H' s''. H' = insert l H \<and> free l s'' \<and> settled Q r H s'') body (insert l H) s'"
    and "l \<notin> H" "inv s" "\<And>H s s'. rely (insert l H) s s' \<Longrightarrow> rely H s s' \<and> rely {l} s s'"
  shows "safe Q (lock_guard l body) H s"
  unfolding lock_guard_def safe.simps
proof (intro allI impI)
  fix s' assume s': "inv s'" "rely H s s'" "free l s'"
  show "safe Q (seq_prog body (\<lambda>r. Release l (Return r))) (insert l H) s'"
  proof (rule safe_seq [OF assms(1) [OF s']])
    fix r H' s'' assume q: "inv s''" "H' = insert l H \<and> free l s'' \<and> settled Q r H s''"
    show "safe Q (Release l (Return r)) H' s''"
      unfolding safe.simps(4)
    proof (intro allI impI conjI)
      fix t assume t: "inv t" "rely H' s'' t"
      then have t': "rely H s'' t" "rely {l} s'' t" using q(2) assms(4) [of H s'' t] by blast+
      then show "free l t" using free_stable q(2) by blast
      have "H' - {l} = H" using q(2) assms(2) by auto
      moreover have "settled Q r H t" by (rule settled_stable [OF conjunct2 [OF conjunct2 [OF q(2)]] t'(1)])
      ultimately show "safe Q (Return r) (H' - {l}) t" by (simp add: settled_def)
    qed
  qed (rule s'(1))
qed

text \<open>All threads are safe, and what holds of free mutexes holds.\<close>

definition protected :: "('l, 'f, 's, 'r) config \<Rightarrow> bool" where
  "protected c \<longleftrightarrow> inv (shared c) \<and> (\<forall>l. owner c l = None \<longrightarrow> free l (shared c)) \<and>
     (\<forall>t. safe (\<lambda>_ H _. H = {}) (threads c t) (held c t) (shared c))"

lemma protected_safe: "protected c \<Longrightarrow> safe (\<lambda>_ H _. H = {}) (threads c t) (held c t) (shared c)"
  by (simp add: protected_def)

lemma protected_moves:
  assumes "moves c t c'" "protected c"
  shows "protected c' \<and> (shared c' = shared c \<or> fair (shared c) (shared c'))"
proof -
  have p: "inv (shared c)" "\<And>l. owner c l = None \<Longrightarrow> free l (shared c)"
    "\<And>t. safe (\<lambda>_ H _. H = {}) (threads c t) (held c t) (shared c)"
    using assms(2) by (auto simp: protected_def)
  note own = p(3) [of t]
  from assms(1) show ?thesis
  proof (cases rule: moves_elim)
    case (acquire l q)
    then have "safe (\<lambda>_ H _. H = {}) (threads c' t) (held c' t) (shared c')"
      using own p(1) p(2) [of l] rely_refl by auto
    then have "safe (\<lambda>_ H _. H = {}) (threads c' t') (held c' t') (shared c')" for t'
      using moves_others [OF assms(1), of t'] p(3) [of t'] acquire by (cases "t' = t") simp_all
    then show ?thesis using p acquire by (auto simp: protected_def)
  next
    case (release l q)
    then have "safe (\<lambda>_ H _. H = {}) (threads c' t) (held c' t) (shared c')" "free l (shared c)"
      using own p(1) rely_refl by auto
    moreover from this(1) have "safe (\<lambda>_ H _. H = {}) (threads c' t') (held c' t') (shared c')" for t'
      using moves_others [OF assms(1), of t'] p(3) [of t'] release by (cases "t' = t") simp_all
    ultimately show ?thesis using p release by (auto simp: protected_def)
  next
    case (step R W f k)
    then have s: "inv (shared c')" "fair (shared c) (shared c')" "safe (\<lambda>_ H _. H = {}) (threads c' t) (held c' t) (shared c')"
      "\<And>H'. held c t \<inter> H' = {} \<Longrightarrow> rely H' (shared c) (shared c')"
      using own p(1) rely_refl by auto
    have "safe (\<lambda>_ H _. H = {}) (threads c' t') (held c' t') (shared c')" for t'
    proof (cases "t' = t")
      case False
      then show ?thesis
        using moves_others [OF assms(1), of t'] safe_stable [OF p(3) s(4), of t'] held_disjoint [of t t' c] by auto
    qed (use s(3) in simp)
    moreover have "free l (shared c')" if "owner c' l = None" for l
      using that step(5) s(4) [of "{l}"] p(2) [of l] free_stable by (auto simp: held_def)
    ultimately show ?thesis using s(1,2) by (simp add: protected_def)
  next
    case diverge
    then show ?thesis using assms(2) by simp
  qed
qed

lemma protected_runs:
  assumes "runs P s c" "inv s" "\<forall>l. free l s" "\<And>p s. p \<in> P \<Longrightarrow> inv s \<Longrightarrow> safe (\<lambda>_ H _. H = {}) p {} s"
  shows "protected c"
  using assms(1)
proof (induction rule: runs.induct)
  case (start c)
  have "safe (\<lambda>_ H _. H = {}) (threads c t) (held c t) (shared c)" for t
    using starts_idle [OF start, of t] by (auto simp: settled_def)
  then show ?case using start assms(2,3) by (simp add: protected_def starts_def)
next
  case (next_step c c')
  from next_step.hyps(2) show ?case
  proof cases
    case (call t p)
    obtain r where r: "threads c t = Return r" using call(2) by (auto simp: idle_def)
    have i: "inv (shared c)" using next_step.IH by (simp add: protected_def)
    have "settled (\<lambda>_ H _. H = {}) r (held c t) (shared c)"
      using protected_safe [OF next_step.IH, of t] r by simp
    then have none: "held c t = {}" using i rely_refl unfolding settled_def by blast
    have "safe (\<lambda>_ H _. H = {}) (threads c' t') (held c' t') (shared c')" for t'
    proof (cases "t' = t")
      case True
      then show ?thesis using assms(4) [OF call(3) i] call(1) none by simp
    next
      case False
      then show ?thesis using protected_safe [OF next_step.IH, of t'] call(1) by simp
    qed
    then show ?thesis using next_step.IH call(1) by (simp add: protected_def)
  next
    case (move t)
    then show ?thesis using protected_moves [OF move next_step.IH] by blast
  qed
qed

end

end
