(* ===== verification/Timer_Threads.thy ===== *)
theory Timer_Threads
  imports Timer_Reach Threads
begin

text \<open>
  The operations of \<open>TimerManager\<close> as they run beside each other (\<open>timer_manager.cpp\<close>): each is a
  program of \<open>Threads\<close> with the mutexes it takes and releases, where the code takes and releases them, and
  what lies between is done by the functions of the other theories. The service calls the operations from the
  threads of its callers; the looper is a thread of its own.
\<close>

section \<open>Mutexes and variables\<close>

datatype manager_lock = entryMapMutex | mutex | proxyMutex

text \<open>The order in which the code takes the mutexes.\<close>

primrec lock_rank :: "manager_lock \<Rightarrow> nat" where
  "lock_rank entryMapMutex = 0"
| "lock_rank mutex = 1"
| "lock_rank proxyMutex = 2"

lemma lock_rank_inject: "lock_rank k = lock_rank l \<longleftrightarrow> k = l"
  by (cases k; cases l) simp_all

instantiation manager_lock :: linorder
begin

definition less_eq_manager_lock :: "manager_lock \<Rightarrow> manager_lock \<Rightarrow> bool" where
  "less_eq_manager_lock k l \<longleftrightarrow> lock_rank k \<le> lock_rank l"

definition less_manager_lock :: "manager_lock \<Rightarrow> manager_lock \<Rightarrow> bool" where
  "less_manager_lock k l \<longleftrightarrow> lock_rank k < lock_rank l"

instance
  by standard (auto simp: less_eq_manager_lock_def less_manager_lock_def lock_rank_inject)

end

lemma UNIV_manager_lock: "(UNIV :: manager_lock set) = {entryMapMutex, mutex, proxyMutex}"
  using manager_lock.exhaust by blast

instance manager_lock :: finite
  by standard (simp add: UNIV_manager_lock)

datatype manager_field = Entries | Batches | Kernel | LastChange | ProxyUids | ProxyMap | Random

text \<open>
  The shared state: the manager, and the alarms of the looper's \<open>triggerList\<close> that it has yet to deliver.
\<close>

type_synonym manager_threads = "timer_manager \<times> timer_info list"

type_synonym 'r manager_prog = "(manager_lock, manager_field, manager_threads, 'r) prog"

definition on_manager :: "(timer_manager \<Rightarrow> timer_manager) \<Rightarrow> manager_threads \<Rightarrow> manager_threads" where
  "on_manager f = (\<lambda>(m, pending). (f m, pending))"

text \<open>A step that only looks at variables, and one that changes them.\<close>

definition look :: "manager_field set \<Rightarrow> (timer_manager \<Rightarrow> 'r manager_prog) \<Rightarrow> 'r manager_prog" where
  "look R k = Step R {} id (\<lambda>(m, pending). k m)"

definition change :: "manager_field set \<Rightarrow> (timer_manager \<Rightarrow> timer_manager) \<Rightarrow> 'r manager_prog \<Rightarrow> 'r manager_prog" where
  "change W f p = Step W W (on_manager f) (\<lambda>_. p)"

section \<open>The programs\<close>

text \<open>
  The number is drawn before the mutex is taken. An engine that only yields 0 keeps the thread for ever.
\<close>

definition CreateTimer_prog ::
  "world \<Rightarrow> i32 \<Rightarrow> u64 \<Rightarrow> u64 \<Rightarrow> i32 \<Rightarrow> timer_callback option \<Rightarrow> int \<Rightarrow> u64 manager_prog" where
  "CreateTimer_prog w type windowLength interval flag callback uid =
     Step {Random} {Random}
       (on_manager (\<lambda>m. case draw (w_random w) (randomPos m) of None \<Rightarrow> m | Some (_, pos) \<Rightarrow> m\<lparr>randomPos := pos\<rparr>))
       (\<lambda>(m, _). case draw (w_random w) (randomPos m) of
          None \<Rightarrow> Diverge
        | Some (timerNumber, _) \<Rightarrow>
            let timerInfo = \<lparr>te_id = timerNumber, te_type = type, te_windowLength = windowLength,
                  te_interval = interval, te_flag = flag, te_callback = callback, te_uid = uid\<rparr>
            in lock_guard entryMapMutex
                 (change {Entries} (\<lambda>m. m\<lparr>timerEntryMap := map_insert timerNumber timerInfo (timerEntryMap m)\<rparr>)
                    (Return timerNumber)))"

text \<open>The times are computed from the clocks, then the mutex is taken.\<close>

definition SetHandler_prog ::
  "world \<Rightarrow> u64 \<Rightarrow> i32 \<Rightarrow> u64 \<Rightarrow> u64 \<Rightarrow> u64 \<Rightarrow> i32 \<Rightarrow> timer_callback option \<Rightarrow> int \<Rightarrow> unit manager_prog" where
  "SetHandler_prog w timerId type triggerAtTime windowLength interval flag callback uid =
     Step {} {} (on_manager (\<lambda>m. m\<lparr>ticks := ticks m + 5\<rparr>))
       (\<lambda>(m, _). case set_handler_times w (ticks m) type triggerAtTime windowLength interval uid of
          None \<Rightarrow> Return ()
        | Some (triggerElapsed, windowLengthDuration, maxElapsed, intervalDuration) \<Rightarrow>
            lock_guard mutex
              (change {Batches, Kernel}
                 (SetHandlerLocked w timerId type (sint triggerAtTime) triggerElapsed windowLengthDuration
                    maxElapsed intervalDuration callback flag True (word_of_int uid))
                 (Return ())))"

definition StartTimer_prog :: "world \<Rightarrow> u64 \<Rightarrow> u64 \<Rightarrow> bool manager_prog" where
  "StartTimer_prog w timerNumber triggerTime =
     lock_guard entryMapMutex
       (look {Entries} (\<lambda>m. case map_find (timerEntryMap m) timerNumber of
          None \<Rightarrow> Return False
        | Some timerInfo \<Rightarrow>
            seq_prog (SetHandler_prog w (te_id timerInfo) (te_type timerInfo) triggerTime (te_windowLength timerInfo)
                (te_interval timerInfo) (te_flag timerInfo) (te_callback timerInfo) (te_uid timerInfo))
              (\<lambda>_. Return True)))"

definition RemoveHandler_prog :: "world \<Rightarrow> u64 \<Rightarrow> unit manager_prog" where
  "RemoveHandler_prog w timerId =
     lock_guard mutex (change {Batches, Kernel} (RemoveLocked w timerId) (Return ()))"

definition RemoveProxy_prog :: "u64 \<Rightarrow> int \<Rightarrow> unit manager_prog" where
  "RemoveProxy_prog timerNumber uid =
     lock_guard proxyMutex (change {ProxyMap} (RemoveProxy timerNumber uid) (Return ()))"

definition StopTimerInner_prog :: "world \<Rightarrow> u64 \<Rightarrow> bool \<Rightarrow> bool manager_prog" where
  "StopTimerInner_prog w timerNumber needDestroy =
     lock_guard entryMapMutex
       (look {Entries} (\<lambda>m. case map_find (timerEntryMap m) timerNumber of
          None \<Rightarrow> Return False
        | Some timerInfo \<Rightarrow>
            seq_prog (RemoveHandler_prog w timerNumber) (\<lambda>_.
            seq_prog (RemoveProxy_prog timerNumber (te_uid timerInfo)) (\<lambda>_.
              if needDestroy
              then change {Entries} (\<lambda>m. m\<lparr>timerEntryMap := map_erase timerNumber (timerEntryMap m)\<rparr>) (Return True)
              else Return True))))"

text \<open>
  \<open>react\<close> is what a callback does: it is a call to the client, and the caller waits for it to
  return. If the client calls back, \<open>react\<close> is what it calls.
\<close>

definition callback_prog :: "(timer_callback \<Rightarrow> u64 \<Rightarrow> unit manager_prog) \<Rightarrow> timer_info \<Rightarrow> unit manager_prog" where
  "callback_prog react alarm =
     (case ti_callback alarm of
        None \<Rightarrow> Return ()
      | Some cb \<Rightarrow> change {} (call_back alarm) (react cb (ti_id alarm)))"

fun callback_all_prog :: "(timer_callback \<Rightarrow> u64 \<Rightarrow> unit manager_prog) \<Rightarrow> timer_info list \<Rightarrow> unit manager_prog" where
  "callback_all_prog react [] = Return ()"
| "callback_all_prog react (alarm # timeInfoVec) =
     seq_prog (callback_prog react alarm) (\<lambda>_. callback_all_prog react timeInfoVec)"

abbreviation erase_queue :: "int \<Rightarrow> bool manager_prog" where
  "erase_queue uid \<equiv> change {ProxyMap} (\<lambda>m. m\<lparr>proxyMap := map_erase uid (proxyMap m)\<rparr>) (Return True)"

abbreviation call_queue :: "(timer_callback \<Rightarrow> u64 \<Rightarrow> unit manager_prog) \<Rightarrow> int \<Rightarrow> bool manager_prog" where
  "call_queue react uid \<equiv> look {ProxyMap} (\<lambda>m. case map_find (proxyMap m) uid of
       None \<Rightarrow> Return True
     | Some timeInfoVec \<Rightarrow> seq_prog (callback_all_prog react timeInfoVec) (\<lambda>_. erase_queue uid))"

definition ProxyTimer_prog ::
  "(timer_callback \<Rightarrow> u64 \<Rightarrow> unit manager_prog) \<Rightarrow> int \<Rightarrow> bool \<Rightarrow> bool \<Rightarrow> bool manager_prog" where
  "ProxyTimer_prog react uid isProxy needRetrigger =
     lock_guard proxyMutex
       (if isProxy then change {ProxyUids} (\<lambda>m. m\<lparr>proxyUids := insert uid (proxyUids m)\<rparr>) (Return True)
        else look {ProxyUids} (\<lambda>m.
          if uid \<notin> proxyUids m then Return False
          else change {ProxyUids} (\<lambda>m. m\<lparr>proxyUids := proxyUids m - {uid}\<rparr>)
            (if \<not> needRetrigger then erase_queue uid else call_queue react uid)))"

fun reset_loop_prog ::
  "(timer_callback \<Rightarrow> u64 \<Rightarrow> unit manager_prog) \<Rightarrow> (int, timer_info list) std_map \<Rightarrow> unit manager_prog" where
  "reset_loop_prog react [] = Return ()"
| "reset_loop_prog react ((uid, timeInfoVec) # rest) =
     seq_prog (callback_all_prog react timeInfoVec) (\<lambda>_. reset_loop_prog react rest)"

definition ResetAllProxy_prog :: "(timer_callback \<Rightarrow> u64 \<Rightarrow> unit manager_prog) \<Rightarrow> bool manager_prog" where
  "ResetAllProxy_prog react =
     lock_guard proxyMutex
       (look {ProxyMap} (\<lambda>m.
          seq_prog (reset_loop_prog react (proxyMap m)) (\<lambda>_.
            change {ProxyMap, ProxyUids} (\<lambda>m. m\<lparr>proxyMap := [], proxyUids := {}\<rparr>) (Return True))))"

section \<open>The looper\<close>

text \<open>The alarm is off the list of those to deliver as soon as it is called or queued.\<close>

definition next_pending :: "(timer_manager \<Rightarrow> timer_manager) \<Rightarrow> manager_threads \<Rightarrow> manager_threads" where
  "next_pending f = (\<lambda>(m, pending). (f m, tl pending))"

definition CallbackAlarmIfNeed_prog ::
  "(timer_callback \<Rightarrow> u64 \<Rightarrow> unit manager_prog) \<Rightarrow> timer_info \<Rightarrow> unit manager_prog" where
  "CallbackAlarmIfNeed_prog react alarm =
     lock_guard proxyMutex
       (Step {ProxyUids, ProxyMap} {ProxyMap} (next_pending (CallbackAlarmIfNeed alarm))
          (\<lambda>(m, _). if ti_uid alarm \<notin> proxyUids m
             then (case ti_callback alarm of None \<Rightarrow> Return () | Some cb \<Rightarrow> react cb (ti_id alarm))
             else Return ()))"

fun DeliverTimersLocked_prog ::
  "(timer_callback \<Rightarrow> u64 \<Rightarrow> unit manager_prog) \<Rightarrow> timer_info list \<Rightarrow> unit manager_prog" where
  "DeliverTimersLocked_prog react [] = Return ()"
| "DeliverTimersLocked_prog react (alarm # triggerList) =
     seq_prog
       (if ti_callback alarm \<noteq> None then CallbackAlarmIfNeed_prog react alarm
        else Step {} {} (next_pending id) (\<lambda>_. Return ()))
       (\<lambda>_. DeliverTimersLocked_prog react triggerList)"

definition trigger_step :: "world \<Rightarrow> int \<Rightarrow> manager_threads \<Rightarrow> manager_threads" where
  "trigger_step w nowElapsed = (\<lambda>(m, pending).
     case TriggerTimersLocked w [] nowElapsed m of
       None \<Rightarrow> (m, pending)
     | Some (triggerList, hasWakeup, m1) \<Rightarrow> (m1, triggerList))"

definition looper_time_change_prog :: "world \<Rightarrow> u32 \<Rightarrow> int \<Rightarrow> int \<Rightarrow> unit manager_prog" where
  "looper_time_change_prog w result nowRtc nowElapsed =
     (if result AND TIME_CHANGED_MASK \<noteq> 0
      then lock_guard mutex
        (change {Batches, Kernel, LastChange} (looper_time_change w result nowRtc nowElapsed) (Return ()))
      else Return ())"

definition looper_trigger_prog ::
  "world \<Rightarrow> (timer_callback \<Rightarrow> u64 \<Rightarrow> unit manager_prog) \<Rightarrow> u32 \<Rightarrow> int \<Rightarrow> unit manager_prog" where
  "looper_trigger_prog w react result nowElapsed =
     (let reschedule = change {Batches, Kernel} (RescheduleKernelTimerLocked w) (Return ()) in
      lock_guard mutex
        (if result \<noteq> TIME_CHANGED_MASK
         then Step {Batches, Kernel} {Batches, Kernel} (trigger_step w nowElapsed)
                (\<lambda>(m, _). case TriggerTimersLocked w [] nowElapsed m of
                   None \<Rightarrow> Diverge
                 | Some (triggerList, hasWakeup, m1) \<Rightarrow>
                     seq_prog (DeliverTimersLocked_prog react triggerList) (\<lambda>_. reschedule))
         else reschedule))"

definition looper_iteration_prog ::
  "world \<Rightarrow> (timer_callback \<Rightarrow> u64 \<Rightarrow> unit manager_prog) \<Rightarrow> u32 \<Rightarrow> unit manager_prog" where
  "looper_iteration_prog w react result =
     Step {} {} (on_manager (\<lambda>m. m\<lparr>ticks := ticks m + 2\<rparr>))
       (\<lambda>(m, _). let nowRtc = w_system_now w (ticks m); nowElapsed = GetBootTimeNs w (ticks m + 1)
          in seq_prog (looper_time_change_prog w result nowRtc nowElapsed)
               (\<lambda>_. looper_trigger_prog w react result nowElapsed))"

section \<open>Dumps\<close>

definition ShowtimerEntryMap_prog :: "(string \<times> bool) manager_prog" where
  "ShowtimerEntryMap_prog = lock_guard entryMapMutex (look {Entries} (\<lambda>m. Return (ShowtimerEntryMap m)))"

definition ShowTimerEntryById_prog :: "u64 \<Rightarrow> (string \<times> bool) manager_prog" where
  "ShowTimerEntryById_prog timerId =
     lock_guard entryMapMutex (look {Entries} (\<lambda>m. Return (ShowTimerEntryById timerId m)))"

text \<open>The batches are read under the mutex of the entries.\<close>

definition ShowTimerTriggerById_prog :: "u64 \<Rightarrow> (string \<times> bool) manager_prog" where
  "ShowTimerTriggerById_prog timerId =
     lock_guard entryMapMutex (look {Batches} (\<lambda>m. Return (ShowTimerTriggerById timerId m)))"

section \<open>Everything that is called\<close>

definition finishing :: "'r manager_prog \<Rightarrow> unit manager_prog" where
  "finishing p = seq_prog p (\<lambda>_. Return ())"

inductive_set manager_programs :: "world \<Rightarrow> (timer_callback \<Rightarrow> u64 \<Rightarrow> unit manager_prog) \<Rightarrow> unit manager_prog set"
  for w react where
  create: "in_i32 uid \<Longrightarrow> finishing (CreateTimer_prog w type wl iv fl cb uid) \<in> manager_programs w react"
| start: "finishing (StartTimer_prog w n t) \<in> manager_programs w react"
| stop: "finishing (StopTimerInner_prog w n d) \<in> manager_programs w react"
| proxy: "finishing (ProxyTimer_prog react uid p r) \<in> manager_programs w react"
| reset: "finishing (ResetAllProxy_prog react) \<in> manager_programs w react"
| looper: "looper_iteration_prog w react result \<in> manager_programs w react"
| show_entries: "finishing ShowtimerEntryMap_prog \<in> manager_programs w react"
| show_entry: "finishing (ShowTimerEntryById_prog n) \<in> manager_programs w react"
| show_trigger: "finishing (ShowTimerTriggerById_prog n) \<in> manager_programs w react"

text \<open>A client whose notifications only take note of the timer.\<close>

definition quiet :: "timer_callback \<Rightarrow> u64 \<Rightarrow> unit manager_prog" where
  "quiet cb n = Return ()"

end
