(* ===== verification/Timer_Interleaving.thy ===== *)
theory Timer_Interleaving
  imports Timer_Threads
begin

text \<open>
  What holds of the manager's operations however they interleave: each does by itself what the functional
  model says; the mutexes are taken in one order, so no deadlock; every variable but the
  random engine has its mutex, so no data race, save for the dump that takes the wrong one; and the invariant,
  with the origin of every call, which is the interpretation of \<open>protected_state\<close>.
\<close>

section \<open>Alone\<close>

lemma alone_change [simp]: "alone (change W f p) (m, ps) = alone p (f m, ps)"
  by (simp add: change_def on_manager_def)

lemma alone_look [simp]: "alone (look R k) (m, ps) = alone (k m) (m, ps)"
  by (simp add: look_def)

lemma alone_Create:
  "alone (CreateTimer_prog w type wl iv fl cb uid) (m, ps) =
     map_option (\<lambda>(m', n). ((m', ps), n)) (CreateTimer w type wl iv fl cb uid m)"
  by (simp add: CreateTimer_prog_def CreateTimer_def on_manager_def Let_def split: option.splits)

lemma alone_SetHandler:
  "alone (SetHandler_prog w i type t wl iv fl cb uid) (m, ps) = Some ((SetHandler w i type t wl iv fl cb uid m, ps), ())"
  by (simp add: SetHandler_prog_def SetHandler_def on_manager_def split: option.splits prod.splits)

lemma alone_Start:
  "alone (StartTimer_prog w n t) (m, ps) = Some (case StartTimer w n t m of (m', r) \<Rightarrow> ((m', ps), r))"
  by (simp add: StartTimer_prog_def StartTimer_def alone_seq alone_SetHandler split: option.splits)

lemma alone_Stop:
  "alone (StopTimerInner_prog w n d) (m, ps) = Some (case StopTimerInner w n d m of (m', r) \<Rightarrow> ((m', ps), r))"
  by (simp add: StopTimerInner_prog_def StopTimerInner_def RemoveHandler_prog_def RemoveProxy_prog_def RemoveHandler_def
      alone_seq Let_def split: option.splits)

lemma alone_callback_all:
  "alone (callback_all_prog quiet as) (m, ps) = Some ((call_back_all as m, ps), ())"
  by (induction as arbitrary: m)
    (simp_all add: callback_prog_def quiet_def alone_seq split: option.splits)

lemma alone_Proxy:
  "alone (ProxyTimer_prog quiet uid p r) (m, ps) = Some (case ProxyTimer uid p r m of (m', a) \<Rightarrow> ((m', ps), a))"
  by (simp add: ProxyTimer_prog_def ProxyTimer_def alone_seq alone_callback_all Let_def split: option.splits)

lemma alone_reset_loop: "alone (reset_loop_prog quiet es) (m, ps) = Some ((reset_loop es m, ps), ())"
  by (induction es arbitrary: m) (auto simp: alone_seq alone_callback_all)

lemma alone_Reset:
  "alone (ResetAllProxy_prog quiet) (m, ps) = Some (case ResetAllProxy m of (m', a) \<Rightarrow> ((m', ps), a))"
  by (simp add: ResetAllProxy_prog_def ResetAllProxy_def alone_seq alone_reset_loop)

lemma alone_Callback:
  "alone (CallbackAlarmIfNeed_prog quiet a) (m, ps) = Some ((CallbackAlarmIfNeed a m, tl ps), ())"
  by (simp add: CallbackAlarmIfNeed_prog_def quiet_def next_pending_def split: option.splits)

lemma alone_Deliver:
  "alone (DeliverTimersLocked_prog quiet as) (m, as @ ps) = Some ((DeliverTimersLocked as m, ps), ())"
  by (induction as arbitrary: m) (simp_all add: alone_seq alone_Callback next_pending_def)

lemma alone_looper:
  "alone (looper_iteration_prog w quiet result) (m, []) = map_option (\<lambda>m'. ((m', []), ())) (looper_iteration w result m)"
proof -
  have t: "alone (looper_trigger_prog w quiet result el) (m, []) =
      map_option (\<lambda>m'. ((m', []), ())) (looper_trigger w result el m)" for el m
    using alone_Deliver [of _ _ "[]"]
    by (simp add: looper_trigger_prog_def looper_trigger_def trigger_step_def alone_seq Let_def split: option.splits prod.splits)
  have "alone (looper_time_change_prog w result rtc el) (m, []) = Some ((looper_time_change w result rtc el m, []), ())" for rtc el m
    by (simp add: looper_time_change_prog_def looper_time_change_def)
  with t show ?thesis
    by (simp add: looper_iteration_prog_def looper_iteration_def on_manager_def alone_seq Let_def)
qed

section \<open>The order of the mutexes\<close>

lemma lock_less [simp]:
  "entryMapMutex < mutex" "entryMapMutex < proxyMutex" "mutex < proxyMutex"
  by (simp_all add: less_manager_lock_def)

lemma ordered_change [simp]: "ordered E (change W f p) H = ordered E p H"
  by (simp add: change_def)

lemma ordered_look [simp]: "ordered E (look R k) H = (\<forall>m. ordered E (k m) H)"
  by (simp add: look_def)

lemma ordered_finishing: "ordered {} p {} \<Longrightarrow> ordered {} (finishing p) {}"
  by (simp add: finishing_def ordered_seq)

lemma ordered_SetHandler: "ordered {entryMapMutex} (SetHandler_prog w i type t wl iv fl cb uid) {entryMapMutex}"
  by (auto simp: SetHandler_prog_def intro!: ordered_lock_guard split: option.splits prod.splits)

lemma ordered_Stop: "ordered {} (StopTimerInner_prog w n d) {}"
  by (auto simp: StopTimerInner_prog_def RemoveHandler_prog_def RemoveProxy_prog_def
      intro!: ordered_lock_guard ordered_seq [where E = "{entryMapMutex}"] split: option.splits)

lemma ordered_callback_all: "ordered H (callback_all_prog quiet as) H"
  by (induction as) (auto simp: callback_prog_def quiet_def intro: ordered_seq split: option.splits)

lemma ordered_reset_loop: "ordered H (reset_loop_prog quiet es) H"
  by (induction es) (auto intro: ordered_seq [OF ordered_callback_all])

lemma ordered_Deliver: "ordered {mutex} (DeliverTimersLocked_prog quiet as) {mutex}"
  by (induction as)
    (auto simp: CallbackAlarmIfNeed_prog_def quiet_def intro!: ordered_lock_guard ordered_seq [where E = "{mutex}"] split: option.splits)

lemma ordered_looper: "ordered {} (looper_iteration_prog w quiet result) {}"
proof -
  have "ordered {} (looper_trigger_prog w quiet result el) {}" for el
    by (auto simp: looper_trigger_prog_def Let_def intro!: ordered_lock_guard ordered_Deliver
        ordered_seq [where E = "{mutex}"] split: option.splits prod.splits)
  moreover have "ordered {} (looper_time_change_prog w result rtc el) {}" for rtc el
    by (auto simp: looper_time_change_prog_def intro!: ordered_lock_guard)
  ultimately show ?thesis by (auto simp: looper_iteration_prog_def Let_def intro: ordered_seq)
qed

lemma ordered_Create: "ordered {} (CreateTimer_prog w type wl iv fl cb uid) {}"
  by (auto simp: CreateTimer_prog_def Let_def intro!: ordered_lock_guard split: option.splits)

lemma ordered_Start: "ordered {} (StartTimer_prog w n t) {}"
  by (auto simp: StartTimer_prog_def intro!: ordered_lock_guard ordered_seq [OF ordered_SetHandler] split: option.splits)

lemma ordered_Proxy: "ordered {} (ProxyTimer_prog quiet uid p r) {}"
  by (auto simp: ProxyTimer_prog_def intro!: ordered_lock_guard ordered_seq [OF ordered_callback_all] split: option.splits)

lemma ordered_Reset: "ordered {} (ResetAllProxy_prog quiet) {}"
  by (auto simp: ResetAllProxy_prog_def intro!: ordered_lock_guard ordered_seq [OF ordered_reset_loop])

lemma ordered_Show:
  "ordered {} ShowtimerEntryMap_prog {}" "ordered {} (ShowTimerEntryById_prog n) {}" "ordered {} (ShowTimerTriggerById_prog n) {}"
  by (auto simp: ShowtimerEntryMap_prog_def ShowTimerEntryById_prog_def ShowTimerTriggerById_prog_def intro!: ordered_lock_guard)

lemmas ordered_operations = ordered_Create ordered_Start ordered_Stop ordered_Proxy ordered_Reset ordered_Show ordered_looper

lemma ordered_programs: "p \<in> manager_programs w quiet \<Longrightarrow> ordered {} p {}"
  by (induction rule: manager_programs.induct) (intro ordered_finishing ordered_operations)+

section \<open>The mutex of a variable\<close>

text \<open>
  The batches have \<open>mutex\<close> in every function but one dump, so they are listed without; the
  random engine has none.
\<close>

definition field_lock :: "manager_field set \<Rightarrow> manager_field \<Rightarrow> manager_lock option" where
  "field_lock X x =
     (if x \<in> X then None
      else case x of Entries \<Rightarrow> Some entryMapMutex | Batches \<Rightarrow> Some mutex | Kernel \<Rightarrow> Some mutex
        | LastChange \<Rightarrow> Some mutex | ProxyUids \<Rightarrow> Some proxyMutex | ProxyMap \<Rightarrow> Some proxyMutex
        | Random \<Rightarrow> None)"

lemma guarded_change [simp]:
  "guarded g (change W f p) H \<longleftrightarrow> (\<forall>x \<in> W. g x = None \<or> (\<exists>l \<in> H. g x = Some l)) \<and> guarded g p H"
  by (simp add: change_def)

lemma guarded_look [simp]:
  "guarded g (look R k) H \<longleftrightarrow> (\<forall>x \<in> R. g x = None \<or> (\<exists>l \<in> H. g x = Some l)) \<and> (\<forall>m. guarded g (k m) H)"
  by (simp add: look_def)

lemma guarded_finishing: "ordered {} p {} \<Longrightarrow> guarded g p {} \<Longrightarrow> guarded g (finishing p) {}"
  by (simp add: finishing_def guarded_seq)


lemma field_lock_simps [simp]:
  "field_lock X Random = None"
  "field_lock X Entries = (if Entries \<in> X then None else Some entryMapMutex)"
  "field_lock X Batches = (if Batches \<in> X then None else Some mutex)"
  "field_lock X Kernel = (if Kernel \<in> X then None else Some mutex)"
  "field_lock X LastChange = (if LastChange \<in> X then None else Some mutex)"
  "field_lock X ProxyUids = (if ProxyUids \<in> X then None else Some proxyMutex)"
  "field_lock X ProxyMap = (if ProxyMap \<in> X then None else Some proxyMutex)"
  by (simp_all add: field_lock_def)

lemma guarded_SetHandler:
  "guarded (field_lock X) (SetHandler_prog w i type t wl iv fl cb uid) {entryMapMutex}"
  by (auto simp: SetHandler_prog_def intro!: guarded_lock_guard split: option.splits prod.splits)

lemma guarded_Start: "guarded (field_lock X) (StartTimer_prog w n t) {}"
  by (auto simp: StartTimer_prog_def intro!: guarded_lock_guard guarded_seq [OF ordered_SetHandler guarded_SetHandler]
      ordered_seq [OF ordered_SetHandler] split: option.splits)

lemma guarded_Remove:
  "guarded (field_lock X) (RemoveHandler_prog w n) {entryMapMutex}"
  "guarded (field_lock X) (RemoveProxy_prog n uid) {entryMapMutex}"
  "ordered {entryMapMutex} (RemoveHandler_prog w n) {entryMapMutex}"
  "ordered {entryMapMutex} (RemoveProxy_prog n uid) {entryMapMutex}"
  by (auto simp: RemoveHandler_prog_def RemoveProxy_prog_def intro!: guarded_lock_guard ordered_lock_guard)

lemma guarded_Stop: "guarded (field_lock X) (StopTimerInner_prog w n d) {}"
  by (auto simp: StopTimerInner_prog_def
      intro!: guarded_lock_guard guarded_seq [OF guarded_Remove(3,1)] guarded_seq [OF guarded_Remove(4,2)]
        ordered_seq [OF guarded_Remove(3)] ordered_seq [OF guarded_Remove(4)] split: option.splits)

lemma guarded_callback_all: "guarded g (callback_all_prog quiet as) H"
  by (induction as)
    (auto simp: callback_prog_def quiet_def intro!: guarded_seq [where E = H] split: option.splits)

lemma guarded_reset_loop: "guarded g (reset_loop_prog quiet es) H"
  by (induction es) (auto intro!: guarded_seq [OF ordered_callback_all guarded_callback_all])

lemma guarded_Deliver: "guarded (field_lock X) (DeliverTimersLocked_prog quiet as) {mutex}"
  by (induction as)
    (auto simp: CallbackAlarmIfNeed_prog_def quiet_def intro!: ordered_lock_guard guarded_lock_guard
      guarded_seq [where E = "{mutex}"] split: option.splits)

lemma guarded_looper: "guarded (field_lock X) (looper_iteration_prog w quiet result) {}"
proof -
  have "guarded (field_lock X) (looper_trigger_prog w quiet result el) {}" for el
    by (auto simp: looper_trigger_prog_def Let_def intro!: guarded_lock_guard ordered_Deliver guarded_Deliver
        ordered_seq [OF ordered_Deliver] guarded_seq [OF ordered_Deliver guarded_Deliver] split: option.splits prod.splits)
  moreover have "guarded (field_lock X) (looper_time_change_prog w result rtc el) {}"
    "ordered {} (looper_time_change_prog w result rtc el) {}" for rtc el
    by (auto simp: looper_time_change_prog_def intro!: guarded_lock_guard ordered_lock_guard)
  ultimately show ?thesis by (auto simp: looper_iteration_prog_def Let_def intro!: guarded_seq [where E = "{}"])
qed

lemma guarded_Create: "guarded (field_lock X) (CreateTimer_prog w type wl iv fl cb uid) {}"
  by (auto simp: CreateTimer_prog_def Let_def intro!: guarded_lock_guard split: option.splits)

lemma guarded_Proxy: "guarded (field_lock X) (ProxyTimer_prog quiet uid p r) {}"
  by (auto simp: ProxyTimer_prog_def intro!: guarded_lock_guard ordered_seq [OF ordered_callback_all]
      guarded_seq [OF ordered_callback_all guarded_callback_all] split: option.splits)

lemma guarded_Reset: "guarded (field_lock X) (ResetAllProxy_prog quiet) {}"
  by (auto simp: ResetAllProxy_prog_def intro!: guarded_lock_guard ordered_seq [OF ordered_reset_loop]
      guarded_seq [OF ordered_reset_loop guarded_reset_loop])

lemma guarded_Show:
  "guarded (field_lock X) ShowtimerEntryMap_prog {}"
  "guarded (field_lock X) (ShowTimerEntryById_prog n) {}"
  "Batches \<in> X \<Longrightarrow> guarded (field_lock X) (ShowTimerTriggerById_prog n) {}"
  by (auto simp: ShowtimerEntryMap_prog_def ShowTimerEntryById_prog_def ShowTimerTriggerById_prog_def intro!: guarded_lock_guard)

lemma guarded_programs:
  "p \<in> manager_programs w quiet \<Longrightarrow> Batches \<in> X \<or> (\<forall>n. p \<noteq> finishing (ShowTimerTriggerById_prog n)) \<Longrightarrow>
    guarded (field_lock X) p {}"
proof (induction rule: manager_programs.induct)
  case (show_trigger n)
  then have "Batches \<in> X" by blast
  then show ?case by (intro guarded_finishing ordered_Show guarded_Show)
qed (intro guarded_finishing ordered_operations guarded_Create guarded_Start guarded_Stop guarded_Proxy guarded_Reset
    guarded_looper guarded_Show(1,2))+

end
