(* ===== verification/Timer_Protected.thy ===== *)
theory Timer_Protected
  imports Timer_Interleaving
begin

text \<open>
  The manager's state is protected by its mutexes: the interpretation of \<open>protected_state\<close>. While a
  thread holds \<open>entryMapMutex\<close>, the table stays as it is and no timer gets a new alarm; while it holds
  \<open>mutex\<close>, no alarm is taken for delivery; while it holds \<open>proxyMutex\<close>, the queues stay as they are. Each
  operation keeps the invariant against this.
\<close>

section \<open>The interpretation\<close>

definition alarms :: "manager_threads \<Rightarrow> timer_info set" where
  "alarms = (\<lambda>(m, pending). set_mset (scheduled m) \<union> set pending)"

definition locked_inv :: "manager_threads \<Rightarrow> bool" where
  "locked_inv s \<longleftrightarrow> (\<forall>b \<in> set (alarmBatches (fst s)). batch_inv b) \<and> entries_inv (timerEntryMap (fst s)) \<and>
     (\<forall>a \<in> alarms s. belongs (timerEntryMap (fst s)) a)"

definition manager_rely :: "manager_lock set \<Rightarrow> manager_threads \<Rightarrow> manager_threads \<Rightarrow> bool" where
  "manager_rely H s s' \<longleftrightarrow>
     (entryMapMutex \<in> H \<longrightarrow> timerEntryMap (fst s') = timerEntryMap (fst s) \<and> ti_id ` alarms s' \<subseteq> ti_id ` alarms s) \<and>
     (mutex \<in> H \<longrightarrow> snd s' = snd s) \<and>
     (proxyMutex \<in> H \<longrightarrow> proxyMap (fst s') = proxyMap (fst s) \<and> proxyUids (fst s') = proxyUids (fst s))"

primrec manager_free :: "manager_lock \<Rightarrow> manager_threads \<Rightarrow> bool" where
  "manager_free entryMapMutex s \<longleftrightarrow> True"
| "manager_free mutex s \<longleftrightarrow> snd s = []"
| "manager_free proxyMutex s \<longleftrightarrow> proxy_inv (fst s)"

text \<open>Every call is of a registered timer's own callback, or of an alarm that waits in a proxy's queue.\<close>

definition due_call :: "timer_manager \<Rightarrow> timer_callback \<times> u64 \<Rightarrow> bool" where
  "due_call m call \<longleftrightarrow>
     (\<exists>e. map_find (timerEntryMap m) (snd call) = Some e \<and> te_callback e = Some (fst call)) \<or>
     (\<exists>uid q. map_find (proxyMap m) uid = Some q \<and> (\<exists>a \<in> set q. ti_id a = snd call \<and> ti_callback a = Some (fst call)))"

definition fair_calls :: "manager_threads \<Rightarrow> manager_threads \<Rightarrow> bool" where
  "fair_calls s s' \<longleftrightarrow> (\<exists>new. fired (fst s') = fired (fst s) @ new \<and> (\<forall>call \<in> set new. due_call (fst s) call))"

lemma manager_rely_trans:
  assumes 1: "manager_rely H s s'" and 2: "manager_rely H s' s''"
  shows "manager_rely H s s''"
  unfolding manager_rely_def
proof (intro conjI impI)
  assume "entryMapMutex \<in> H"
  then have "ti_id ` alarms s' \<subseteq> ti_id ` alarms s" "ti_id ` alarms s'' \<subseteq> ti_id ` alarms s'"
    using 1 2 unfolding manager_rely_def by blast+
  then show "ti_id ` alarms s'' \<subseteq> ti_id ` alarms s" by (rule subset_trans [rotated])
qed (use 1 2 in \<open>simp_all add: manager_rely_def\<close>)

interpretation managed: protected_state locked_inv manager_rely manager_free fair_calls
proof unfold_locales
  fix l s s' assume "manager_rely {l} s s'" "manager_free l s"
  then show "manager_free l s'" by (cases l) (simp_all add: manager_rely_def proxy_inv_cong [of "fst s'" "fst s"])
qed (simp add: manager_rely_def, rule manager_rely_trans)

section \<open>Steps that keep everything\<close>

definition keeps :: "manager_lock set \<Rightarrow> (manager_threads \<Rightarrow> manager_threads) \<Rightarrow> manager_threads \<Rightarrow> bool" where
  "keeps H f s \<longleftrightarrow> locked_inv (f s) \<and> fair_calls s (f s) \<and> (\<forall>H'. H \<inter> H' = {} \<longrightarrow> manager_rely H' s (f s))"

lemma safe_Step:
  "managed.safe Q (Step R W f k) H s \<longleftrightarrow>
     (\<forall>s'. locked_inv s' \<longrightarrow> manager_rely H s s' \<longrightarrow> keeps H f s' \<and> managed.safe Q (k s') H (f s'))"
  by (auto simp: keeps_def)

text \<open>Alarms that stand for the timers of earlier ones.\<close>

definition derived :: "manager_threads \<Rightarrow> manager_threads \<Rightarrow> bool" where
  "derived s s' \<longleftrightarrow> (\<forall>a' \<in> alarms s'. \<exists>a \<in> alarms s. ti_id a' = ti_id a \<and>
     (\<forall>es. entries_inv es \<longrightarrow> belongs es a \<longrightarrow> belongs es a'))"

lemma derived_sub: "alarms s' \<subseteq> alarms s \<Longrightarrow> derived s s'"
  by (auto simp: derived_def)

lemma derived_ids: "derived s s' \<Longrightarrow> ti_id ` alarms s' \<subseteq> ti_id ` alarms s"
  by (fastforce simp: derived_def)

lemma keeps_derived:
  assumes "locked_inv s" "derived s (f s)" "\<forall>b \<in> set (alarmBatches (fst (f s))). batch_inv b"
    and "timerEntryMap (fst (f s)) = timerEntryMap (fst s)" "fair_calls s (f s)"
    and "mutex \<in> H \<or> snd (f s) = snd s"
    and "proxyMutex \<in> H \<or> proxyMap (fst (f s)) = proxyMap (fst s) \<and> proxyUids (fst (f s)) = proxyUids (fst s)"
  shows "keeps H f s"
proof -
  have "\<forall>a \<in> alarms (f s). belongs (timerEntryMap (fst s)) a"
    using assms(1,2) unfolding derived_def locked_inv_def by blast
  then show ?thesis
    using assms derived_ids [OF assms(2)] by (auto simp: keeps_def locked_inv_def manager_rely_def)
qed

lemma fair_none: "fired (fst s') = fired (fst s) \<Longrightarrow> fair_calls s s'"
  by (simp add: fair_calls_def)

lemma alarms_simps [simp]: "alarms (m, ps) = set_mset (scheduled m) \<union> set ps"
  by (simp add: alarms_def)

text \<open>A step within \<open>mutex\<close> that leaves the registry alone.\<close>

lemma keeps_scheduling:
  assumes "locked_inv (m, ps)" "same_registry m (f m)" "derived (m, ps) (f m, ps)" "\<forall>b \<in> set (alarmBatches (f m)). batch_inv b"
  shows "keeps H (on_manager f) (m, ps)"
  using assms by (intro keeps_derived) (auto simp: on_manager_def same_registry_def intro: fair_none)

lemma derived_readded:
  "\<forall>a' \<in># scheduled m'. \<exists>a \<in># scheduled m. a' = a \<or> readded a a' \<Longrightarrow> derived (m, ps) (m', ps)"
  using readded_id belongs_readded by (fastforce simp: derived_def)

lemma keeps_remove: "locked_inv (m, ps) \<Longrightarrow> keeps H (on_manager (RemoveLocked w n)) (m, ps)"
  using Remove_frame [of m w n] Remove_scheduled [of _ w n m] Remove_batch_inv [of m w n]
  by (intro keeps_scheduling derived_readded) (auto simp: RemoveHandler_def locked_inv_def)

lemma keeps_reschedule: "locked_inv (m, ps) \<Longrightarrow> keeps H (on_manager (RescheduleKernelTimerLocked w)) (m, ps)"
  by (intro keeps_scheduling derived_readded same_registry_Reschedule) (auto simp: locked_inv_def)

text \<open>An alarm for a registered timer: nobody else may hold the table's mutex.\<close>

lemma keeps_schedule:
  assumes "locked_inv (m, ps)" "entryMapMutex \<in> H" "map_find (timerEntryMap m) n = Some e" 
  shows "keeps H (on_manager (SetHandlerLocked w (te_id e) (te_type e) t el win mx iv (te_callback e) (te_flag e) d
     (word_of_int (te_uid e)))) (m, ps)"
proof -
  let ?a = "TimerInfo (te_id e) (te_type e) t el win mx iv (te_callback e) (te_flag e)
      (sint (ucast (word_of_int (te_uid e) :: u64) :: i32))"
  let ?m = "SetHandlerLocked w (te_id e) (te_type e) t el win mx iv (te_callback e) (te_flag e) d (word_of_int (te_uid e)) m"
  have e: "te_id e = n" "in_i32 (te_uid e)" using assms(1,3) by (auto simp: locked_inv_def entries_inv_def)
  have reg: "same_registry m ?m" by (rule SetHandlerLocked_frame)
  have "belongs (timerEntryMap m) ?a" using assms(3) e by (simp add: belongs_def uid_narrow)
  moreover have "scheduled ?m = add_mset ?a (scheduled m)" by (simp add: scheduled_def scheduled_in_insert)
  moreover have "\<forall>b \<in> set (alarmBatches ?m). batch_inv b"
    using assms(1) batch_inv_insert [of "alarmBatches m"] by (simp add: locked_inv_def)
  ultimately show ?thesis
    using assms(1,2) reg
    by (auto simp: keeps_def on_manager_def locked_inv_def same_registry_def manager_rely_def intro: fair_none)
qed

lemma keeps_insert:
  assumes "locked_inv (m, ps)" "entryMapMutex \<in> H" "te_id e = n" "n \<noteq> 0" "in_i32 (te_uid e)"
  shows "keeps H (on_manager (\<lambda>m. m\<lparr>timerEntryMap := map_insert n e (timerEntryMap m)\<rparr>)) (m, ps)"
  using assms
  by (auto simp: keeps_def on_manager_def locked_inv_def manager_rely_def scheduled_def entries_inv_insert
      intro: belongs_insert fair_none)

lemma keeps_erase:
  assumes "locked_inv (m, ps)" "entryMapMutex \<in> H" "n \<notin> ti_id ` alarms (m, ps)"
  shows "keeps H (on_manager (\<lambda>m. m\<lparr>timerEntryMap := map_erase n (timerEntryMap m)\<rparr>)) (m, ps)"
  using assms
  by (auto simp: keeps_def on_manager_def locked_inv_def manager_rely_def scheduled_def entries_inv_def map_ok_erase
      belongs_def image_iff intro!: fair_none)

text \<open>Clocks, the random engine, the queues.\<close>

lemma keeps_same:
  assumes "locked_inv (m, ps)" "alarmBatches (f m) = alarmBatches m" "timerEntryMap (f m) = timerEntryMap m"
    and "fair_calls (m, ps) (f m, ps)"
    and "proxyMutex \<in> H \<or> proxyMap (f m) = proxyMap m \<and> proxyUids (f m) = proxyUids m"
  shows "keeps H (on_manager f) (m, ps)"
  using assms
  by (intro keeps_derived derived_sub) (auto simp: on_manager_def locked_inv_def scheduled_def)

lemma keeps_id: "locked_inv s \<Longrightarrow> keeps H id s"
  by (cases s) (auto simp: keeps_def manager_rely_def intro: fair_none)

text \<open>Between the reading and the mutex of a proxy.\<close>

lemma keeps_remove_proxy: "locked_inv (m, ps) \<Longrightarrow> proxyMutex \<in> H \<Longrightarrow> keeps H (on_manager (RemoveProxy n uid)) (m, ps)"
  by (rule keeps_same) (auto intro: fair_none)

text \<open>The call of an alarm in a queue.\<close>

lemma keeps_call_back:
  assumes "locked_inv (m, ps)" "map_find (proxyMap m) uid = Some q" "a \<in> set q"
  shows "keeps H (on_manager (call_back a)) (m, ps)"
proof (rule keeps_same [OF assms(1)])
  show "fair_calls (m, ps) (call_back a m, ps)"
    using assms(2,3) by (auto simp: fair_calls_def due_call_def call_back_eq call_of_def split: option.splits)
qed (auto simp: call_back_eq)

section \<open>The looper's steps\<close>

lemma keeps_time_change:
  assumes "locked_inv (m, ps)"
  shows "keeps H (on_manager (looper_time_change w r rtc el)) (m, ps)"
proof -
  let ?m = "looper_time_change w r rtc el m"
  have "derived (m, ps) (?m, ps)"
    using ReBatch_scheduled [of _ w True m]
    by (intro derived_readded) (auto simp: looper_time_change_def ReBatchAllTimers_def Let_def scheduled_def)
  moreover have "\<forall>b \<in> set (alarmBatches ?m). batch_inv b"
    using assms ReBatch_inv [of w True m]
    by (auto simp: looper_time_change_def ReBatchAllTimers_def Let_def locked_inv_def batches_inv_def)
  moreover have "same_registry m (ReBatchAllTimersLocked w True m)" by (rule ReBatch_frame)
  then have "timerEntryMap ?m = timerEntryMap m" "fired ?m = fired m" "proxyMap ?m = proxyMap m" "proxyUids ?m = proxyUids m"
    by (auto simp: looper_time_change_def ReBatchAllTimers_def Let_def same_registry_def)
  ultimately show ?thesis
    using assms by (intro keeps_derived) (auto simp: on_manager_def intro: fair_none)
qed

lemma derived_trigger:
  assumes "TriggerTimersLocked w [] now m = Some (ts, hw, m')" "valid_sort ti_whenElapsed (w_sort w)"
  shows "derived (m, ps) (m', ts)"
proof -
  define P where "P = (\<lambda>a'. \<exists>a \<in># scheduled m. ti_id a' = ti_id a \<and> (\<forall>es. entries_inv es \<longrightarrow> belongs es a \<longrightarrow> belongs es a'))"
  have closed: "P (next_alarm now a)" if "P a" for a
    using that belongs_next by (fastforce simp: P_def)
  have start: "\<forall>a \<in># scheduled m. P a" by (auto simp: P_def)
  obtain popped where p: "ts = w_sort w ([] @ map (triggered now) popped)"
    "run now ([], False, m) popped ([] @ map (triggered now) popped, hw, m')"
    using assms(1) by (rule Trigger_run)
  have "kept now m popped m'" using p(2) unfolding run_def prod.case by blast
  from keptD [OF this start closed] have "\<forall>a \<in> set popped. P a" "\<forall>a \<in># scheduled m'. P a" by blast+
  moreover have "P (triggered now a)" if "P a" for a
    using that by (auto simp: P_def belongs_def triggered_def)
  ultimately have "\<forall>a \<in> set ts. P a" "\<forall>a \<in># scheduled m'. P a"
    using p(1) assms(2) by (auto simp: valid_sort_set)
  then show ?thesis by (auto simp: derived_def P_def)
qed

lemma keeps_trigger:
  assumes "locked_inv (m, ps)" "mutex \<in> H" "valid_sort ti_whenElapsed (w_sort w)"
  shows "keeps H (trigger_step w now) (m, ps)"
proof (cases "TriggerTimersLocked w [] now m")
  case (Some r)
  then obtain ts hw m' where t: "TriggerTimersLocked w [] now m = Some (ts, hw, m')" by (cases r) auto
  have "same_registry m m'" by (rule Trigger_frame [OF t])
  then show ?thesis
    using assms derived_trigger [OF t assms(3)] Trigger_batch_inv [OF t]
    by (intro keeps_derived) (auto simp: trigger_step_def t locked_inv_def same_registry_def intro: fair_none)
next
  case None
  then have "trigger_step w now (m, ps) = id (m, ps)" by (simp add: trigger_step_def)
  then show ?thesis using keeps_id [OF assms(1), of H] by (simp add: keeps_def)
qed

lemma keeps_deliver:
  assumes "locked_inv (m, a # ps)" "mutex \<in> H" "proxyMutex \<in> H"
  shows "keeps H (next_pending (CallbackAlarmIfNeed a)) (m, a # ps)"
proof -
  have "belongs (timerEntryMap m) a" using assms(1) by (auto simp: locked_inv_def)
  then have "fair_calls (m, a # ps) (CallbackAlarmIfNeed a m, ps)"
    by (auto simp: fair_calls_def CallbackAlarm_fields due_call_def belongs_def call_of_def split: option.splits)
  moreover have "alarmBatches (CallbackAlarmIfNeed a m) = alarmBatches m" "timerEntryMap (CallbackAlarmIfNeed a m) = timerEntryMap m"
    by (auto simp: CallbackAlarmIfNeed_def call_back_eq Let_def split: option.splits)
  ultimately show ?thesis
    using assms by (intro keeps_derived derived_sub) (auto simp: next_pending_def locked_inv_def scheduled_def)
qed

lemma keeps_skip:
  "locked_inv (m, a # ps) \<Longrightarrow> mutex \<in> H \<Longrightarrow> keeps H (next_pending id) (m, a # ps)"
  by (intro keeps_derived derived_sub) (auto simp: next_pending_def locked_inv_def intro: fair_none)

end
