(* ===== verification/Timer_Safe.thy ===== *)
theory Timer_Safe
  imports Timer_Protected
begin

text \<open>
  Every operation of the manager is safe in the sense of \<open>protected_state\<close>, so that however the threads
  interleave the invariant holds and every call is due.
\<close>

section \<open>Rules for the programs\<close>

lemma manager_rely_mono: "manager_rely (insert l H) s s' \<Longrightarrow> manager_rely H s s' \<and> manager_rely {l} s s'"
  by (auto simp: manager_rely_def)

lemmas safe_guard = managed.safe_lock_guard [OF _ _ _ manager_rely_mono]

lemma safe_change:
  "managed.safe Q (change W f p) H s \<longleftrightarrow>
     (\<forall>m ps. locked_inv (m, ps) \<longrightarrow> manager_rely H s (m, ps) \<longrightarrow> keeps H (on_manager f) (m, ps) \<and> managed.safe Q p H (f m, ps))"
  by (auto simp: change_def safe_Step on_manager_def simp del: managed.safe.simps)

lemma safe_look:
  "managed.safe Q (look R k) H s \<longleftrightarrow>
     (\<forall>m ps. locked_inv (m, ps) \<longrightarrow> manager_rely H s (m, ps) \<longrightarrow> managed.safe Q (k m) H (m, ps))"
  by (auto simp: look_def safe_Step keeps_id simp del: managed.safe.simps)

lemma safe_Return:
  "(\<And>t. locked_inv t \<Longrightarrow> manager_rely H s t \<Longrightarrow> Q r H t) \<Longrightarrow> managed.safe Q (Return r) H s"
  by (simp add: managed.settled_def)

lemma settledI:
  "(\<And>t. locked_inv t \<Longrightarrow> manager_rely H s t \<Longrightarrow> Q r H t) \<Longrightarrow> managed.settled Q r H s"
  by (simp add: managed.settled_def)

declare managed.safe.simps [simp del]

abbreviation (input) ends :: "manager_lock set \<Rightarrow> (manager_threads \<Rightarrow> bool) \<Rightarrow> 'r \<Rightarrow> manager_lock set \<Rightarrow> manager_threads \<Rightarrow> bool" where
  "ends H P \<equiv> (\<lambda>_ H' s. H' = H \<and> P s)"

lemma safe_guard_entry:
  assumes "locked_inv s" "\<And>s'. locked_inv s' \<Longrightarrow> managed.safe (\<lambda>_ H' _. H' = {entryMapMutex}) body {entryMapMutex} s'"
  shows "managed.safe (\<lambda>_ H' _. H' = {}) (lock_guard entryMapMutex body) {} s"
  using assms(1)
  by (intro safe_guard) (auto intro!: settledI managed.safe_mono [OF assms(2)])

text \<open>The rely of a set of mutexes, on pairs.\<close>

lemma rely_entry: "manager_rely H (m, ps) (m', ps') \<Longrightarrow> entryMapMutex \<in> H \<Longrightarrow>
    timerEntryMap m' = timerEntryMap m \<and> ti_id ` alarms (m', ps') \<subseteq> ti_id ` alarms (m, ps)"
  by (simp add: manager_rely_def)

lemma rely_mutex: "manager_rely H s s' \<Longrightarrow> mutex \<in> H \<Longrightarrow> snd s' = snd s"
  by (simp add: manager_rely_def)

lemma rely_proxy: "manager_rely H s s' \<Longrightarrow> proxyMutex \<in> H \<Longrightarrow>
    proxyMap (fst s') = proxyMap (fst s) \<and> proxyUids (fst s') = proxyUids (fst s)"
  by (simp add: manager_rely_def)

section \<open>Scheduling\<close>

lemma safe_schedule:
  assumes "locked_inv s" "map_find (timerEntryMap (fst s)) n = Some e"
  shows "managed.safe (\<lambda>_ H' _. H' = {entryMapMutex})
    (lock_guard mutex (change {Batches, Kernel}
      (SetHandlerLocked w (te_id e) (te_type e) t el win mx iv (te_callback e) (te_flag e) d (word_of_int (te_uid e))) (Return ())))
    {entryMapMutex} s"
proof (rule safe_guard)
  fix s' assume s': "locked_inv s'" "manager_rely {entryMapMutex} s s'" "manager_free mutex s'"
  show "managed.safe (\<lambda>r H' s''. H' = {mutex, entryMapMutex} \<and> manager_free mutex s'' \<and>
        managed.settled (\<lambda>_ H' _. H' = {entryMapMutex}) r {entryMapMutex} s'')
      (change {Batches, Kernel}
        (SetHandlerLocked w (te_id e) (te_type e) t el win mx iv (te_callback e) (te_flag e) d (word_of_int (te_uid e))) (Return ()))
      {mutex, entryMapMutex} s'"
    unfolding safe_change
  proof (intro allI impI conjI)
    fix m ps assume m: "locked_inv (m, ps)" "manager_rely {mutex, entryMapMutex} s' (m, ps)"
    have "timerEntryMap m = timerEntryMap (fst s)" using s'(2) m(2) by (simp add: manager_rely_def)
    then show "keeps {mutex, entryMapMutex} (on_manager (SetHandlerLocked w (te_id e) (te_type e) t el win mx iv
        (te_callback e) (te_flag e) d (word_of_int (te_uid e)))) (m, ps)"
      using m(1) assms(2) by (intro keeps_schedule) simp_all
  qed (use s'(3) in \<open>auto dest!: rely_mutex intro!: safe_Return settledI\<close>)
qed (use assms in auto)

lemma safe_SetHandler:
  assumes "locked_inv s" "map_find (timerEntryMap (fst s)) n = Some e"
  shows "managed.safe (\<lambda>_ H' _. H' = {entryMapMutex})
    (SetHandler_prog w (te_id e) (te_type e) t (te_windowLength e) (te_interval e) (te_flag e) (te_callback e) (te_uid e))
    {entryMapMutex} s"
  unfolding SetHandler_prog_def safe_Step
proof (intro allI impI conjI)
  fix s' assume s': "locked_inv s'" "manager_rely {entryMapMutex} s s'"
  obtain m ps where m: "s' = (m, ps)" by (cases s')
  let ?m = "m\<lparr>ticks := ticks m + 5\<rparr>"
  show k: "keeps {entryMapMutex} (on_manager (\<lambda>m. m\<lparr>ticks := ticks m + 5\<rparr>)) s'"
    unfolding m by (rule keeps_same) (use s' m in \<open>auto intro: fair_none\<close>)
  have "locked_inv (?m, ps)" using k by (simp add: keeps_def m on_manager_def)
  moreover have "map_find (timerEntryMap (fst (?m, ps))) n = Some e"
    using s'(2) assms(2) by (simp add: m manager_rely_def)
  ultimately show "managed.safe (\<lambda>_ H' _. H' = {entryMapMutex})
      ((\<lambda>(m, _). case set_handler_times w (ticks m) (te_type e) t (te_windowLength e) (te_interval e) (te_uid e) of
          None \<Rightarrow> Return ()
        | Some (el, win, mx, iv) \<Rightarrow> lock_guard mutex (change {Batches, Kernel}
            (SetHandlerLocked w (te_id e) (te_type e) (sint t) el win mx iv (te_callback e) (te_flag e) True (word_of_int (te_uid e)))
            (Return ()))) s')
      {entryMapMutex} (on_manager (\<lambda>m. m\<lparr>ticks := ticks m + 5\<rparr>) s')"
    by (auto simp: m on_manager_def intro: safe_Return safe_schedule split: option.splits)
qed

lemma safe_Start: "locked_inv s \<Longrightarrow> managed.safe (\<lambda>_ H' _. H' = {}) (StartTimer_prog w n t) {} s"
  unfolding StartTimer_prog_def
  by (rule safe_guard_entry)
    (auto simp: safe_look intro!: safe_Return managed.safe_seq [OF safe_SetHandler] split: option.splits)

section \<open>Removal\<close>

text \<open>After the removal no alarm of the timer is left, and none comes as long as the table's mutex is held.\<close>

definition no_alarm :: "u64 \<Rightarrow> manager_threads \<Rightarrow> bool" where
  "no_alarm n s \<longleftrightarrow> n \<notin> ti_id ` alarms s"

lemma no_alarm_stable: "manager_rely H s s' \<Longrightarrow> entryMapMutex \<in> H \<Longrightarrow> no_alarm n s \<Longrightarrow> no_alarm n s'"
  by (auto simp: manager_rely_def no_alarm_def)

lemma safe_RemoveHandler:
  assumes "locked_inv s"
  shows "managed.safe (ends {entryMapMutex} (no_alarm n)) (RemoveHandler_prog w n) {entryMapMutex} s"
  unfolding RemoveHandler_prog_def
proof (rule safe_guard)
  fix s' assume s': "locked_inv s'" "manager_free mutex s'"
  show "managed.safe (\<lambda>r H' s''. H' = {mutex, entryMapMutex} \<and> manager_free mutex s'' \<and>
        managed.settled (ends {entryMapMutex} (no_alarm n)) r {entryMapMutex} s'')
      (change {Batches, Kernel} (RemoveLocked w n) (Return ())) {mutex, entryMapMutex} s'"
    unfolding safe_change
  proof (intro allI impI conjI)
    fix m ps assume m: "locked_inv (m, ps)" "manager_rely {mutex, entryMapMutex} s' (m, ps)"
    show "keeps {mutex, entryMapMutex} (on_manager (RemoveLocked w n)) (m, ps)" by (rule keeps_remove [OF m(1)])
    have "ps = []" using rely_mutex [OF m(2)] s'(2) by simp
    then have "no_alarm n (RemoveLocked w n m, ps)"
      using Remove_none [of _ w n m] by (auto simp: no_alarm_def RemoveHandler_def)
    then show "managed.safe (\<lambda>r H' s''. H' = {mutex, entryMapMutex} \<and> manager_free mutex s'' \<and>
        managed.settled (ends {entryMapMutex} (no_alarm n)) r {entryMapMutex} s'')
      (Return ()) {mutex, entryMapMutex} (RemoveLocked w n m, ps)"
      using \<open>ps = []\<close> by (intro safe_Return) (auto dest: rely_mutex no_alarm_stable intro!: settledI)
  qed
qed (use assms in auto)

lemma proxy_inv_fields: "proxy_inv (RemoveProxy n uid m)" if "proxy_inv m'" "proxyMap m = proxyMap m'" "proxyUids m = proxyUids m'"
  using that proxy_inv_cong [of m m'] proxy_inv_RemoveProxy by blast

lemma proxy_inv_stable: "manager_rely H s s' \<Longrightarrow> proxyMutex \<in> H \<Longrightarrow> proxy_inv (fst s) \<Longrightarrow> proxy_inv (fst s')"
  using rely_proxy [of H s s'] proxy_inv_cong [of "fst s'" "fst s"] by simp

lemma safe_RemoveProxy:
  assumes "locked_inv s" "no_alarm n s"
  shows "managed.safe (ends {entryMapMutex} (no_alarm n)) (RemoveProxy_prog n uid) {entryMapMutex} s"
  unfolding RemoveProxy_prog_def
proof (rule safe_guard)
  fix s' assume s': "locked_inv s'" "manager_rely {entryMapMutex} s s'" "manager_free proxyMutex s'"
  have n: "no_alarm n s'" using no_alarm_stable [OF s'(2)] assms(2) by simp
  show "managed.safe (\<lambda>r H' s''. H' = {proxyMutex, entryMapMutex} \<and> manager_free proxyMutex s'' \<and>
        managed.settled (ends {entryMapMutex} (no_alarm n)) r {entryMapMutex} s'')
      (change {ProxyMap} (RemoveProxy n uid) (Return ())) {proxyMutex, entryMapMutex} s'"
    unfolding safe_change
  proof (intro allI impI conjI)
    fix m ps assume m: "locked_inv (m, ps)" "manager_rely {proxyMutex, entryMapMutex} s' (m, ps)"
    show "keeps {proxyMutex, entryMapMutex} (on_manager (RemoveProxy n uid)) (m, ps)"
      by (rule keeps_remove_proxy [OF m(1)]) simp
    have "proxy_inv (fst s')" "proxyMap m = proxyMap (fst s')" "proxyUids m = proxyUids (fst s')"
      using s'(3) rely_proxy [OF m(2)] by simp_all
    then have "proxy_inv (RemoveProxy n uid m)" by (rule proxy_inv_fields)
    moreover have "no_alarm n (m, ps)" using no_alarm_stable [OF m(2) _ n] by simp
    then have "no_alarm n (RemoveProxy n uid m, ps)" by (simp add: no_alarm_def scheduled_def)
    ultimately have p: "proxy_inv (fst t) \<and> no_alarm n t"
      if "manager_rely {proxyMutex, entryMapMutex} (RemoveProxy n uid m, ps) t" for t
      using proxy_inv_stable [OF that] no_alarm_stable [OF that] by simp
    show "managed.safe (\<lambda>r H' s''. H' = {proxyMutex, entryMapMutex} \<and> manager_free proxyMutex s'' \<and>
        managed.settled (ends {entryMapMutex} (no_alarm n)) r {entryMapMutex} s'')
      (Return ()) {proxyMutex, entryMapMutex} (RemoveProxy n uid m, ps)"
    proof (intro safe_Return conjI settledI refl)
      fix t assume t: "manager_rely {proxyMutex, entryMapMutex} (RemoveProxy n uid m, ps) t"
      show "manager_free proxyMutex t" using p [OF t] by simp
      fix u assume "manager_rely {entryMapMutex} t u"
      then show "no_alarm n u" by (rule no_alarm_stable) (simp_all add: p [OF t])
    qed
  qed
qed (use assms in auto)

lemma safe_Stop: "locked_inv s \<Longrightarrow> managed.safe (\<lambda>_ H' _. H' = {}) (StopTimerInner_prog w n d) {} s"
proof -
  have erase: "managed.safe (\<lambda>_ H' _. H' = {entryMapMutex})
      (change {Entries} (\<lambda>m. m\<lparr>timerEntryMap := map_erase n (timerEntryMap m)\<rparr>) (Return True)) {entryMapMutex} t"
    if "no_alarm n t" for t
    using that no_alarm_stable [of "{entryMapMutex}" t]
    by (auto simp: safe_change intro!: safe_Return keeps_erase [folded no_alarm_def])
  show "locked_inv s \<Longrightarrow> ?thesis"
    unfolding StopTimerInner_prog_def
    by (rule safe_guard_entry)
      (auto simp: safe_look intro!: safe_Return erase managed.safe_seq [OF safe_RemoveHandler]
        managed.safe_seq [OF safe_RemoveProxy] split: option.splits)
qed

section \<open>Registration\<close>

lemma safe_Create:
  assumes "locked_inv s" "in_i32 uid"
  shows "managed.safe (\<lambda>_ H' _. H' = {}) (CreateTimer_prog w type wl iv fl cb uid) {} s"
  unfolding CreateTimer_prog_def safe_Step
proof (intro allI impI conjI)
  fix s' assume s': "locked_inv s'"
  obtain m ps where m: "s' = (m, ps)" by (cases s')
  let ?f = "on_manager (\<lambda>m. case draw (w_random w) (randomPos m) of None \<Rightarrow> m | Some (_, pos) \<Rightarrow> m\<lparr>randomPos := pos\<rparr>)"
  show k: "keeps {} ?f s'"
    unfolding m by (rule keeps_same) (use s' m in \<open>auto intro!: fair_none split: option.splits\<close>)
  let ?e = "\<lambda>n. \<lparr>te_id = n, te_type = type, te_windowLength = wl, te_interval = iv, te_flag = fl, te_callback = cb, te_uid = uid\<rparr>"
  have "managed.safe (\<lambda>_ H' _. H' = {})
      (lock_guard entryMapMutex (change {Entries} (\<lambda>m. m\<lparr>timerEntryMap := map_insert n (?e n) (timerEntryMap m)\<rparr>) (Return n))) {} (?f s')"
    if "n \<noteq> 0" for n
    using that assms(2) k [unfolded keeps_def, THEN conjunct1]
    by (intro safe_guard_entry) (auto simp: safe_change intro!: safe_Return keeps_insert)
  then show "managed.safe (\<lambda>_ H' _. H' = {})
      ((\<lambda>(m, _). case draw (w_random w) (randomPos m) of None \<Rightarrow> Diverge
        | Some (n, _) \<Rightarrow> let timerInfo = ?e n in lock_guard entryMapMutex
            (change {Entries} (\<lambda>m. m\<lparr>timerEntryMap := map_insert n timerInfo (timerEntryMap m)\<rparr>) (Return n))) s') {} (?f s')"
    by (auto simp: m Let_def managed.safe.simps dest: draw_nonzero split: option.splits)
qed

section \<open>Proxies\<close>

text \<open>What holds of the queues while \<open>proxyMutex\<close> is held, and does not depend on anything else.\<close>

definition queues :: "(int, timer_info list) std_map \<Rightarrow> int set \<Rightarrow> manager_threads \<Rightarrow> bool" where
  "queues pm us s \<longleftrightarrow> proxyMap (fst s) = pm \<and> proxyUids (fst s) = us"

lemma queues_stable: "manager_rely H s s' \<Longrightarrow> proxyMutex \<in> H \<Longrightarrow> queues pm us s \<Longrightarrow> queues pm us s'"
  by (simp add: queues_def manager_rely_def)

lemma safe_callback_all:
  assumes "locked_inv s" "queues pm us s" "set as \<subseteq> set q" "map_find pm uid = Some q"
  shows "managed.safe (ends {proxyMutex} (queues pm us)) (callback_all_prog quiet as) {proxyMutex} s"
  using assms
proof (induction as arbitrary: s)
  case Nil
  then show ?case by (auto intro!: safe_Return dest: queues_stable)
next
  case (Cons a as)
  have "managed.safe (ends {proxyMutex} (queues pm us)) (callback_prog quiet a) {proxyMutex} s"
  proof (cases "ti_callback a")
    case None
    then show ?thesis using Cons.prems(2) by (auto simp: callback_prog_def intro!: safe_Return dest: queues_stable)
  next
    case (Some cb)
    show ?thesis
      unfolding callback_prog_def Some option.case quiet_def safe_change
    proof (intro allI impI conjI)
      fix m ps assume m: "locked_inv (m, ps)" "manager_rely {proxyMutex} s (m, ps)"
      have q: "queues pm us (m, ps)" using queues_stable [OF m(2)] Cons.prems(2) by simp
      then show "keeps {proxyMutex} (on_manager (call_back a)) (m, ps)"
        using m(1) Cons.prems(3,4) by (intro keeps_call_back) (auto simp: queues_def)
      have "queues pm us (call_back a m, ps)" using q by (simp add: queues_def call_back_eq)
      then show "managed.safe (ends {proxyMutex} (queues pm us)) (Return ()) {proxyMutex} (call_back a m, ps)"
        by (auto intro!: safe_Return dest: queues_stable)
    qed
  qed
  then show ?case
    using Cons by (auto intro!: managed.safe_seq)
qed

lemma safe_reset_loop:
  assumes "locked_inv s" "queues pm us s" "set es \<subseteq> set pm" "map_ok pm"
  shows "managed.safe (ends {proxyMutex} (queues pm us)) (reset_loop_prog quiet es) {proxyMutex} s"
  using assms(1-3)
proof (induction es arbitrary: s)
  case (Cons e es)
  obtain uid q where e: "e = (uid, q)" by (cases e)
  have "distinct (map fst pm)" using assms(4) strict_sorted_iff by (auto simp: map_ok_def)
  then have "map_find pm uid = Some q" using Cons.prems(3) e by (auto simp: map_find_def)
  then show ?case
    using Cons e by (auto intro!: managed.safe_seq safe_callback_all)
qed (auto intro!: safe_Return dest: queues_stable)

text \<open>A step that changes the queues, with their mutex held, and where a program ends after it.\<close>

lemma safe_queue_change:
  assumes "queues pm us s"
    and "\<And>m. alarmBatches (f m) = alarmBatches m \<and> timerEntryMap (f m) = timerEntryMap m \<and> fired (f m) = fired m"
    and "\<And>m ps. proxyMap m = pm \<Longrightarrow> proxyUids m = us \<Longrightarrow> managed.safe Q p {proxyMutex} (f m, ps)"
  shows "managed.safe Q (change W f p) {proxyMutex} s"
  unfolding safe_change
proof (intro allI impI conjI)
  fix m ps assume m: "locked_inv (m, ps)" "manager_rely {proxyMutex} s (m, ps)"
  show "keeps {proxyMutex} (on_manager f) (m, ps)"
    using assms(2) by (intro keeps_same [OF m(1)]) (auto intro: fair_none)
  show "managed.safe Q p {proxyMutex} (f m, ps)"
    using queues_stable [OF m(2) _ assms(1)] assms(3) by (simp add: queues_def)
qed

text \<open>The end of a body that has the proxy's mutex: the queues are as they have to be.\<close>

lemma safe_proxy_end:
  assumes "proxy_inv (fst s)"
  shows "managed.safe (\<lambda>r H' s''. H' = {proxyMutex} \<and> manager_free proxyMutex s'') (Return r) {proxyMutex} s"
  using assms by (intro safe_Return) (simp add: proxy_inv_stable)

lemma safe_guard_proxy:
  assumes "locked_inv s" "\<And>s'. locked_inv s' \<Longrightarrow> proxy_inv (fst s') \<Longrightarrow>
      managed.safe (\<lambda>r H' s''. H' = {proxyMutex} \<and> manager_free proxyMutex s'') body {proxyMutex} s'"
  shows "managed.safe (\<lambda>_ H' _. H' = {}) (lock_guard proxyMutex body) {} s"
  using assms(1)
  by (intro safe_guard) (auto intro!: settledI managed.safe_mono [OF assms(2)])

declare manager_free.simps(3) [simp del]

lemma proxy_inv_cleared: "proxy_inv (m\<lparr>proxyMap := [], proxyUids := {}\<rparr>)"
  by (simp add: proxy_inv_def)

lemma proxy_inv_begun:
  "proxy_inv m0 \<Longrightarrow> proxyMap m = proxyMap m0 \<Longrightarrow> proxy_inv (m\<lparr>proxyUids := insert uid (proxyUids m0)\<rparr>)"
  by (auto simp: proxy_inv_def)

lemma proxy_inv_ended:
  assumes "proxy_inv m0" "proxyMap m = proxyMap m0" "proxyUids m = proxyUids m0 - {uid}"
  shows "proxy_inv (m\<lparr>proxyMap := map_erase uid (proxyMap m0)\<rparr>)"
    and "map_find (proxyMap m0) uid = None \<Longrightarrow> proxy_inv m"
  using assms by (auto simp: proxy_inv_def map_ok_erase split: if_splits)

text \<open>A proxy that ends: its uid is off the set, and its queue goes.\<close>

lemma safe_erase_queue:
  assumes "proxy_inv m" "queues (proxyMap m) (proxyUids m - {uid}) t"
  shows "managed.safe (\<lambda>r H' s''. H' = {proxyMutex} \<and> manager_free proxyMutex s'') (erase_queue uid) {proxyMutex} t"
  by (rule safe_queue_change [OF assms(2)], simp, rule safe_proxy_end, simp add: proxy_inv_ended(1) [OF assms(1)])

lemma safe_call_queue:
  assumes inv: "proxy_inv m" and t: "queues (proxyMap m) (proxyUids m - {uid}) t"
  shows "managed.safe (\<lambda>r H' s''. H' = {proxyMutex} \<and> manager_free proxyMutex s'') (call_queue quiet uid) {proxyMutex} t"
  unfolding safe_look
proof (intro allI impI)
  fix m' ps' assume m': "locked_inv (m', ps')" "manager_rely {proxyMutex} t (m', ps')"
  have q: "queues (proxyMap m) (proxyUids m - {uid}) (m', ps')" using queues_stable [OF m'(2) _ t] by simp
  show "managed.safe (\<lambda>r H' s''. H' = {proxyMutex} \<and> manager_free proxyMutex s'')
      (case map_find (proxyMap m') uid of None \<Rightarrow> Return True
       | Some q \<Rightarrow> seq_prog (callback_all_prog quiet q) (\<lambda>_. erase_queue uid)) {proxyMutex} (m', ps')"
  proof (cases "map_find (proxyMap m') uid")
    case None
    then have "proxy_inv m'" using q by (intro proxy_inv_ended(2) [OF inv]) (simp_all add: queues_def)
    then show ?thesis unfolding None option.case by (intro safe_proxy_end) simp
  next
    case (Some as)
    then have "map_find (proxyMap m) uid = Some as" using q by (simp add: queues_def)
    from safe_callback_all [OF m'(1) q subset_refl this] show ?thesis
      unfolding Some option.case
      by (rule managed.safe_seq [OF _ _ m'(1)]) (use safe_erase_queue [OF inv] in simp)
  qed
qed

lemma safe_Proxy: "locked_inv s \<Longrightarrow> managed.safe (\<lambda>_ H' _. H' = {}) (ProxyTimer_prog quiet uid p r) {} s"
  unfolding ProxyTimer_prog_def
proof (rule safe_guard_proxy)
  fix s' assume s': "locked_inv s'" "proxy_inv (fst s')"
  let ?Q = "\<lambda>r H' s''. H' = {proxyMutex} \<and> manager_free proxyMutex s''"
  let ?rest = "if \<not> r then erase_queue uid else call_queue quiet uid"
  let ?out = "\<lambda>m. if uid \<notin> proxyUids m then Return False
      else change {ProxyUids} (\<lambda>m. m\<lparr>proxyUids := proxyUids m - {uid}\<rparr>) ?rest"
  have "managed.safe ?Q (change {ProxyUids} (\<lambda>m. m\<lparr>proxyUids := insert uid (proxyUids m)\<rparr>) (Return True)) {proxyMutex} s'"
    by (rule safe_queue_change [of "proxyMap (fst s')" "proxyUids (fst s')"])
      (auto simp: queues_def intro!: safe_proxy_end proxy_inv_begun [OF s'(2)])
  moreover have "managed.safe ?Q (?out m) {proxyMutex} (m, ps)" if m: "manager_rely {proxyMutex} s' (m, ps)" for m ps
  proof -
    have inv: "proxy_inv m" using proxy_inv_stable [OF m _ s'(2)] by simp
    have rest: "managed.safe ?Q ?rest {proxyMutex} t" if "queues (proxyMap m) (proxyUids m - {uid}) t" for t
      using safe_erase_queue [OF inv that] safe_call_queue [OF inv that] by (cases r) simp_all
    have "managed.safe ?Q (change {ProxyUids} (\<lambda>m. m\<lparr>proxyUids := proxyUids m - {uid}\<rparr>) ?rest) {proxyMutex} (m, ps)"
    proof (rule safe_queue_change [of "proxyMap m" "proxyUids m"])
      fix m' :: timer_manager and ps' assume "proxyMap m' = proxyMap m" "proxyUids m' = proxyUids m"
      then show "managed.safe ?Q ?rest {proxyMutex} (m'\<lparr>proxyUids := proxyUids m' - {uid}\<rparr>, ps')"
        by (intro rest) (simp add: queues_def)
    qed (simp_all add: queues_def)
    then show ?thesis using inv by (cases "uid \<in> proxyUids m") (simp_all add: safe_proxy_end)
  qed
  ultimately show "managed.safe ?Q
      (if p then change {ProxyUids} (\<lambda>m. m\<lparr>proxyUids := insert uid (proxyUids m)\<rparr>) (Return True)
       else look {ProxyUids} ?out) {proxyMutex} s'"
    by (cases p) (simp_all add: safe_look)
qed

lemma safe_Reset: "locked_inv s \<Longrightarrow> managed.safe (\<lambda>_ H' _. H' = {}) (ResetAllProxy_prog quiet) {} s"
  unfolding ResetAllProxy_prog_def
proof (rule safe_guard_proxy)
  fix s' assume s': "locked_inv s'" "proxy_inv (fst s')"
  let ?Q = "\<lambda>r H' s''. H' = {proxyMutex} \<and> manager_free proxyMutex s''"
  have "managed.safe ?Q
      (seq_prog (reset_loop_prog quiet (proxyMap m)) (\<lambda>_. change {ProxyMap, ProxyUids} (\<lambda>m. m\<lparr>proxyMap := [], proxyUids := {}\<rparr>) (Return True)))
      {proxyMutex} (m, ps)" if m: "locked_inv (m, ps)" "manager_rely {proxyMutex} s' (m, ps)" for m ps
  proof (rule managed.safe_seq [OF safe_reset_loop [of _ "proxyMap m" "proxyUids m"]])
    have "proxy_inv m" using proxy_inv_stable [OF m(2) _ s'(2)] by simp
    then show "map_ok (proxyMap m)" by (simp add: proxy_inv_def)
    fix H t assume "H = {proxyMutex} \<and> queues (proxyMap m) (proxyUids m) t"
    then show "managed.safe ?Q (change {ProxyMap, ProxyUids} (\<lambda>m. m\<lparr>proxyMap := [], proxyUids := {}\<rparr>) (Return True)) H t"
      by (auto intro!: safe_queue_change safe_proxy_end proxy_inv_cleared)
  qed (use m in \<open>simp_all add: queues_def\<close>)
  then show "managed.safe ?Q (look {ProxyMap} (\<lambda>m. seq_prog (reset_loop_prog quiet (proxyMap m))
      (\<lambda>_. change {ProxyMap, ProxyUids} (\<lambda>m. m\<lparr>proxyMap := [], proxyUids := {}\<rparr>) (Return True)))) {proxyMutex} s'"
    by (simp add: safe_look)
qed

section \<open>The looper\<close>

text \<open>Under \<open>mutex\<close> the alarms to deliver stay as they are, until the looper takes the next one.\<close>

lemma quiet_delivery:
  "CallbackAlarmIfNeed_prog quiet a = lock_guard proxyMutex
     (Step {ProxyUids, ProxyMap} {ProxyMap} (next_pending (CallbackAlarmIfNeed a)) (\<lambda>_. Return ()))"
  by (auto simp: CallbackAlarmIfNeed_prog_def quiet_def fun_eq_iff split: option.splits intro!: arg_cong [where f = "lock_guard _"])

lemma safe_deliver_one:
  assumes "locked_inv s" "snd s = a # as" "ti_callback a \<noteq> None"
  shows "managed.safe (ends {mutex} (\<lambda>s. snd s = as)) (CallbackAlarmIfNeed_prog quiet a) {mutex} s"
  unfolding quiet_delivery
proof (rule safe_guard)
  fix s' assume s': "locked_inv s'" "manager_rely {mutex} s s'" "manager_free proxyMutex s'"
  let ?Q = "\<lambda>r H' s''. H' = {proxyMutex, mutex} \<and> manager_free proxyMutex s'' \<and>
      managed.settled (ends {mutex} (\<lambda>s. snd s = as)) r {mutex} s''"
  show "managed.safe ?Q (Step {ProxyUids, ProxyMap} {ProxyMap} (next_pending (CallbackAlarmIfNeed a)) (\<lambda>_. Return ()))
      {proxyMutex, mutex} s'"
    unfolding safe_Step
  proof (intro allI impI conjI)
    fix t assume t: "locked_inv t" "manager_rely {proxyMutex, mutex} s' t"
    obtain m where m: "t = (m, a # as)" using rely_mutex [OF t(2)] rely_mutex [OF s'(2)] assms(2) by (cases t) simp
    show "keeps {proxyMutex, mutex} (next_pending (CallbackAlarmIfNeed a)) t"
      using t(1) unfolding m by (rule keeps_deliver) simp_all
    have "proxy_inv m" using proxy_inv_stable [OF t(2)] s'(3) by (simp add: m manager_free.simps(3))
    then have inv: "proxy_inv (CallbackAlarmIfNeed a m)" using assms(3) by (rule proxy_inv_CallbackAlarm)
    show "managed.safe ?Q (Return ()) {proxyMutex, mutex} (next_pending (CallbackAlarmIfNeed a) t)"
      unfolding m next_pending_def prod.case list.sel(3)
    proof (intro safe_Return conjI settledI refl)
      fix t assume t: "manager_rely {proxyMutex, mutex} (CallbackAlarmIfNeed a m, as) t"
      show "manager_free proxyMutex t" using proxy_inv_stable [OF t] inv by (simp add: manager_free.simps(3))
      fix u assume "manager_rely {mutex} t u"
      then show "snd u = as" using rely_mutex [OF t] rely_mutex by fastforce
    qed
  qed
qed (use assms in auto)

lemma safe_Deliver:
  "locked_inv s \<Longrightarrow> snd s = as \<Longrightarrow>
    managed.safe (ends {mutex} (\<lambda>s. snd s = [])) (DeliverTimersLocked_prog quiet as) {mutex} s"
proof (induction as arbitrary: s)
  case Nil
  then show ?case by (auto intro!: safe_Return dest: rely_mutex)
next
  case (Cons a as)
  have skip: "managed.safe (ends {mutex} (\<lambda>s. snd s = as)) (Step {} {} (next_pending id) (\<lambda>_. Return ())) {mutex} s"
    unfolding safe_Step
  proof (intro allI impI conjI)
    fix t assume t: "locked_inv t" "manager_rely {mutex} s t"
    obtain m where m: "t = (m, a # as)" using rely_mutex [OF t(2)] Cons.prems(2) by (cases t) simp
    show "keeps {mutex} (next_pending id) t" using t(1) unfolding m by (rule keeps_skip) simp
    show "managed.safe (ends {mutex} (\<lambda>s. snd s = as)) (Return ()) {mutex} (next_pending id t)"
      unfolding m next_pending_def prod.case list.sel(3) by (intro safe_Return) (auto dest: rely_mutex)
  qed
  show ?case
    unfolding DeliverTimersLocked_prog.simps
    by (rule managed.safe_seq [where Q = "ends {mutex} (\<lambda>s. snd s = as)"])
      (use skip safe_deliver_one [OF Cons.prems] Cons.IH Cons.prems(1) in auto)
qed

text \<open>The end of a body that has \<open>mutex\<close>: nothing is left to deliver.\<close>

lemma safe_guard_mutex:
  assumes "locked_inv s" "\<And>s'. locked_inv s' \<Longrightarrow> snd s' = [] \<Longrightarrow>
      managed.safe (ends {mutex} (\<lambda>s. snd s = [])) body {mutex} s'"
  shows "managed.safe (\<lambda>_ H' _. H' = {}) (lock_guard mutex body) {} s"
  using assms(1)
  by (intro safe_guard) (auto intro!: settledI managed.safe_mono [OF assms(2)])

lemma safe_mutex_change:
  assumes "snd s = []" "\<And>m. locked_inv (m, []) \<Longrightarrow> keeps {mutex} (on_manager f) (m, [])"
  shows "managed.safe (ends {mutex} (\<lambda>s. snd s = [])) (change W f (Return r)) {mutex} s"
  using assms by (auto simp: safe_change dest!: rely_mutex intro!: safe_Return)

lemma safe_time_change:
  "locked_inv s \<Longrightarrow> managed.safe (\<lambda>_ H' _. H' = {}) (looper_time_change_prog w result rtc el) {} s"
  by (auto simp: looper_time_change_prog_def intro!: safe_Return safe_guard_mutex safe_mutex_change keeps_time_change)

lemma safe_looper_trigger:
  assumes "valid_sort ti_whenElapsed (w_sort w)" "locked_inv s"
  shows "managed.safe (\<lambda>_ H' _. H' = {}) (looper_trigger_prog w quiet result el) {} s"
  unfolding looper_trigger_prog_def Let_def
proof (rule safe_guard_mutex [OF assms(2)])
  fix s' assume s': "locked_inv s'" "snd s' = []"
  let ?Q = "ends {mutex} (\<lambda>s. snd s = [])"
  let ?reschedule = "change {Batches, Kernel} (RescheduleKernelTimerLocked w) (Return ())"
  let ?k = "\<lambda>(m, _). case TriggerTimersLocked w [] el m of None \<Rightarrow> Diverge
      | Some (ts, hw, m1) \<Rightarrow> seq_prog (DeliverTimersLocked_prog quiet ts) (\<lambda>_. ?reschedule)"
  have res: "managed.safe ?Q ?reschedule {mutex} t" if "snd t = []" for t
    using that by (rule safe_mutex_change) (rule keeps_reschedule)
  have "managed.safe ?Q (Step {Batches, Kernel} {Batches, Kernel} (trigger_step w el) ?k) {mutex} s'"
    unfolding safe_Step
  proof (intro allI impI conjI)
    fix t assume t: "locked_inv t" "manager_rely {mutex} s' t"
    obtain m where m: "t = (m, [])" using rely_mutex [OF t(2)] s'(2) by (cases t) simp
    show k: "keeps {mutex} (trigger_step w el) t" using t(1) assms(1) unfolding m by (intro keeps_trigger) simp_all
    show "managed.safe ?Q (?k t) {mutex} (trigger_step w el t)"
    proof (cases "TriggerTimersLocked w [] el m")
      case None
      then show ?thesis by (simp add: m managed.safe.simps)
    next
      case (Some r)
      obtain ts hw m1 where r: "r = (ts, hw, m1)" by (cases r)
      have "trigger_step w el t = (m1, ts)" by (simp add: m trigger_step_def Some r)
      moreover from this k have "locked_inv (m1, ts)" by (simp add: keeps_def)
      ultimately show ?thesis
        by (auto simp: m Some r intro!: managed.safe_seq [OF safe_Deliver] res)
    qed
  qed
  with res [OF s'(2)] show "managed.safe ?Q (if result \<noteq> TIME_CHANGED_MASK
      then Step {Batches, Kernel} {Batches, Kernel} (trigger_step w el) ?k else ?reschedule) {mutex} s'"
    by simp
qed

lemma safe_looper:
  assumes "valid_sort ti_whenElapsed (w_sort w)" "locked_inv s"
  shows "managed.safe (\<lambda>_ H' _. H' = {}) (looper_iteration_prog w quiet result) {} s"
  unfolding looper_iteration_prog_def safe_Step
proof (intro allI impI conjI)
  fix s' assume s': "locked_inv s'"
  show k: "keeps {} (on_manager (\<lambda>m. m\<lparr>ticks := ticks m + 2\<rparr>)) s'"
    using s' by (cases s') (auto intro!: keeps_same fair_none)
  then have "locked_inv (on_manager (\<lambda>m. m\<lparr>ticks := ticks m + 2\<rparr>) s')" by (simp add: keeps_def)
  then show "managed.safe (\<lambda>_ H' _. H' = {})
      ((\<lambda>(m, _). let rtc = w_system_now w (ticks m); el = GetBootTimeNs w (ticks m + 1)
         in seq_prog (looper_time_change_prog w result rtc el) (\<lambda>_. looper_trigger_prog w quiet result el)) s')
      {} (on_manager (\<lambda>m. m\<lparr>ticks := ticks m + 2\<rparr>) s')"
    using assms(1) by (auto simp: Let_def split: prod.split intro!: managed.safe_seq [OF safe_time_change] safe_looper_trigger)
qed

section \<open>Everything that is called\<close>

lemma safe_finishing:
  "managed.safe (\<lambda>_ H' _. H' = {}) p {} s \<Longrightarrow> locked_inv s \<Longrightarrow> managed.safe (\<lambda>_ H' _. H' = {}) (finishing p) {} s"
  unfolding finishing_def by (rule managed.safe_seq [where Q = "\<lambda>_ H' _. H' = {}"]) (auto intro: safe_Return)

lemma safe_Show:
  assumes "locked_inv s"
  shows "managed.safe (\<lambda>_ H' _. H' = {}) ShowtimerEntryMap_prog {} s"
    and "managed.safe (\<lambda>_ H' _. H' = {}) (ShowTimerEntryById_prog n) {} s"
    and "managed.safe (\<lambda>_ H' _. H' = {}) (ShowTimerTriggerById_prog n) {} s"
  using assms
  by (auto simp: ShowtimerEntryMap_prog_def ShowTimerEntryById_prog_def ShowTimerTriggerById_prog_def safe_look
      intro!: safe_guard_entry safe_Return)

lemma safe_programs:
  "p \<in> manager_programs w quiet \<Longrightarrow> valid_sort ti_whenElapsed (w_sort w) \<Longrightarrow> locked_inv s \<Longrightarrow>
    managed.safe (\<lambda>_ H' _. H' = {}) p {} s"
  by (induction rule: manager_programs.induct)
    (auto intro!: safe_finishing safe_Create safe_Start safe_Stop safe_Proxy safe_Reset safe_looper safe_Show)

text \<open>The initial state, and what the invariant says once \<open>proxyMutex\<close> is free.\<close>

lemma locked_inv_init: "locked_inv (TimerManager, [])"
  by (simp add: locked_inv_def TimerManager_def entries_inv_def scheduled_def)

lemma free_init: "\<forall>l. manager_free l (TimerManager, [])"
proof
  show "manager_free l (TimerManager, [])" for l
    by (cases l) (simp_all add: manager_free.simps(3) TimerManager_def proxy_inv_def)
qed

lemma protected_manager:
  "runs (manager_programs w quiet) (TimerManager, []) c \<Longrightarrow> valid_sort ti_whenElapsed (w_sort w) \<Longrightarrow> managed.protected c"
  by (rule managed.protected_runs) (auto intro: locked_inv_init free_init [rule_format] safe_programs)

lemma locked_manager_inv: "locked_inv s \<Longrightarrow> proxy_inv (fst s) \<Longrightarrow> manager_inv (fst s)"
  by (cases s) (simp add: locked_inv_def manager_inv_def)

end
