(* ===== verification/Thread_Properties.thy ===== *)
theory Thread_Properties
  imports Timer_Safe Timer_Properties
begin

text \<open>
  The timer manager with its threads: what the operations promise however they interleave, and what
  goes wrong when a client calls back from its notification.
\<close>

section \<open>The programs are the operations\<close>

text \<open>C19. With no other thread, the programs with their mutexes do exactly what the functions of the
  sequential model do, and return what they return: creating, starting, stopping and destroying, the
  two operations of the proxy, and an iteration of the looper with its list of alarms to deliver, empty
  before and after.\<close>

theorem programs_are_operations:
  "alone (CreateTimer_prog w type wl iv fl cb uid) (m, ps) =
     map_option (\<lambda>(m', n). ((m', ps), n)) (CreateTimer w type wl iv fl cb uid m) \<and>
   alone (StartTimer_prog w n t) (m, ps) = Some (case StartTimer w n t m of (m', r) \<Rightarrow> ((m', ps), r)) \<and>
   alone (StopTimerInner_prog w n d) (m, ps) = Some (case StopTimerInner w n d m of (m', r) \<Rightarrow> ((m', ps), r)) \<and>
   alone (ProxyTimer_prog quiet u p r) (m, ps) = Some (case ProxyTimer u p r m of (m', a) \<Rightarrow> ((m', ps), a)) \<and>
   alone (ResetAllProxy_prog quiet) (m, ps) = Some (case ResetAllProxy m of (m', a) \<Rightarrow> ((m', ps), a)) \<and>
   alone (looper_iteration_prog w quiet result) (m, []) = map_option (\<lambda>m'. ((m', []), ())) (looper_iteration w result m)"
  by (intro conjI alone_Create alone_Start alone_Stop alone_Proxy alone_Reset alone_looper)

section \<open>Deadlock\<close>

text \<open>C7. No deadlock, and everything ends: with clients that do not call back from a notification,
  in every state that the operations of any number of threads reach, if a thread is in an operation then some
  thread in an operation can go on; and without new calls the threads can all be brought to the end of
  their operations, unless one is in a loop that does not end.\<close>

theorem operations_finish:
  assumes "runs (manager_programs w quiet) s c"
  shows "(\<not> idle (threads c t) \<longrightarrow> (\<exists>t' c'. \<not> idle (threads c t') \<and> moves c t' c')) \<and>
    (\<exists>c'. moves_on\<^sup>*\<^sup>* c c' \<and> ((\<forall>t. idle (threads c' t)) \<or> (\<exists>t. threads c' t = Diverge)))"
proof -
  have "well_ordered c" using assms ordered_programs by (blast intro: well_ordered_runs)
  then show ?thesis using no_deadlock all_end [OF _ runs_busy [OF assms]] by blast
qed

theorem operations_finish_witness:
  "\<exists>c'. moves_on\<^sup>*\<^sup>* ((resting () (TimerManager, []))\<lparr>threads := (\<lambda>_. Return ())
        (0 := finishing (StartTimer_prog sample_world 1 5), 1 := finishing (StopTimerInner_prog sample_world 1 True))\<rparr>) c' \<and>
     ((\<forall>t. idle (threads c' t)) \<or> (\<exists>t. threads c' t = Diverge))"
  using operations_finish [OF run_two [OF manager_programs.start manager_programs.stop]] by blast

section \<open>Data races\<close>

text \<open>Two threads that create timers; and a dump of a timer's triggers beside the looper.\<close>

definition two_creations :: "world \<Rightarrow> manager_threads \<Rightarrow> (manager_lock, manager_field, manager_threads, unit) config" where
  "two_creations w s = (let p = finishing (CreateTimer_prog w 0 0 0 0 None 100) in
     (resting () s)\<lparr>threads := (\<lambda>_. Return ())(0 := p, 1 := p)\<rparr>)"

lemma two_creations_race:
  "runs (manager_programs w quiet - range (\<lambda>n. finishing (ShowTimerTriggerById_prog n))) s (two_creations w s)"
  "race_on (two_creations w s) Random"
proof -
  have "finishing (CreateTimer_prog w 0 0 0 0 None 100) \<noteq> finishing (ShowTimerTriggerById_prog n)" for n
    by (simp add: finishing_def CreateTimer_prog_def ShowTimerTriggerById_prog_def lock_guard_def)
  then show "runs (manager_programs w quiet - range (\<lambda>n. finishing (ShowTimerTriggerById_prog n))) s (two_creations w s)"
    unfolding two_creations_def Let_def by (intro run_two) (auto intro!: manager_programs.create simp: in_i32_def)
  show "race_on (two_creations w s) Random"
    unfolding race_on_def
    by (intro exI [of _ 0] exI [of _ 1]) (simp add: two_creations_def Let_def finishing_def CreateTimer_prog_def)
qed

lemma dump_race: "\<exists>c. runs (manager_programs w quiet) s c \<and> race_on c Batches"
proof -
  let ?P = "manager_programs w quiet" and ?X = "{Batches, Kernel, LastChange}"
  obtain k where dump: "finishing (ShowTimerTriggerById_prog 1) = Acquire entryMapMutex (Step {Batches} {} id k)"
    by (simp add: finishing_def ShowTimerTriggerById_prog_def lock_guard_def look_def)
  obtain f h where looper: "looper_iteration_prog w quiet TIME_CHANGED_MASK = Step {} {} f h"
    "\<forall>s. \<exists>g j. h s = Acquire mutex (Step ?X ?X g j)"
    by (auto simp: looper_iteration_prog_def looper_time_change_prog_def lock_guard_def change_def TIME_CHANGED_MASK_def Let_def)
  obtain g j where h: "h s = Acquire mutex (Step ?X ?X g j)" using looper(2) by blast
  define c0 where "c0 = (resting () s)\<lparr>threads := (\<lambda>_. Return ())(0 := Acquire entryMapMutex (Step {Batches} {} id k), 1 := Step {} {} f h)\<rparr>"
  have "runs ?P s c0"
    unfolding c0_def dump [symmetric] looper(1) [symmetric]
    by (intro run_two manager_programs.show_trigger manager_programs.looper)
  define c1 where "c1 = c0\<lparr>threads := (threads c0)(0 := Step {Batches} {} id k), owner := (owner c0)(entryMapMutex \<mapsto> 0)\<rparr>"
  have "moves c0 0 c1" unfolding c1_def by (rule moves.acquire) (simp_all add: c0_def resting_def)
  define c2 where "c2 = c1\<lparr>threads := (threads c1)(1 := h (shared c1)), shared := f (shared c1)\<rparr>"
  have "moves c1 1 c2" unfolding c2_def by (rule moves.step) (simp add: c1_def c0_def)
  define c3 where "c3 = c2\<lparr>threads := (threads c2)(1 := Step ?X ?X g j), owner := (owner c2)(mutex \<mapsto> 1)\<rparr>"
  have "moves c2 1 c3" unfolding c3_def by (rule moves.acquire) (simp_all add: c2_def c1_def c0_def resting_def h)
  have "runs ?P s c3"
    using \<open>runs ?P s c0\<close> \<open>moves c0 0 c1\<close> \<open>moves c1 1 c2\<close> \<open>moves c2 1 c3\<close> by (blast intro: run_move)
  moreover have "threads c3 0 = Step {Batches} {} id k" "threads c3 1 = Step ?X ?X g j"
    by (simp_all add: c3_def c2_def c1_def)
  then have "race_on c3 Batches"
    unfolding race_on_def by (intro exI [of _ 1] exI [of _ 0]) simp
  ultimately show ?thesis by blast
qed

text \<open>C20. The data races, exactly: two threads can be about to use the same variable of the manager, one of
  them writing, when it is the random engine, which \<open>CreateTimer\<close> uses without a mutex, or the batches,
  which the dump of a timer's triggers reads under the mutex of the entries; and for no other
  variable. Without that dump the random engine is the only one.\<close>

theorem races_exactly:
  "((\<exists>c. runs (manager_programs w quiet) s c \<and> race_on c x) \<longleftrightarrow> x \<in> {Random, Batches}) \<and>
   ((\<exists>c. runs (manager_programs w quiet - range (\<lambda>n. finishing (ShowTimerTriggerById_prog n))) s c \<and> race_on c x) \<longleftrightarrow> x = Random)"
proof -
  have "x = Random \<or> x \<in> X"
    if r: "runs P s c" "race_on c x" and P: "P \<subseteq> manager_programs w quiet"
      "Batches \<in> X \<or> (\<forall>n. finishing (ShowTimerTriggerById_prog n) \<notin> P)" for P c X
  proof -
    have "\<forall>p \<in> P. guarded (field_lock X) p {}" using P by (auto intro!: guarded_programs)
    then have "field_lock X x = None" using no_race [OF well_guarded_runs [OF r(1)] r(2)] by blast
    then show ?thesis by (cases x) (auto split: if_splits)
  qed
  from this [of _ _ "{Batches}"] this [of _ _ "{}"] show ?thesis
    using two_creations_race [of w s] runs_mono [OF two_creations_race(1) [of w s] Diff_subset] dump_race [of w s] by auto
qed

section \<open>The invariant\<close>

text \<open>C4. However the threads interleave, with a sort that sorts and clients that do not call back: the invariant of the sequential
  manager holds whenever \<open>proxyMutex\<close> is free (in between, only the queues may be in transition); the
  looper has alarms to deliver only while \<open>mutex\<close> is held; and whenever a thread makes a step,
  the calls it makes are each of a registered timer's own callback with its number, or of an alarm in a
  proxy's queue.\<close>

theorem threads_keep_invariant:
  assumes "runs (manager_programs w quiet) (TimerManager, []) c" "valid_sort ti_whenElapsed (w_sort w)"
  shows "(owner c proxyMutex = None \<longrightarrow> manager_inv (fst (shared c))) \<and>
    (owner c mutex = None \<longrightarrow> snd (shared c) = []) \<and>
    (\<forall>c'. happens (manager_programs w quiet) c c' \<longrightarrow>
      (\<exists>new. fired (fst (shared c')) = fired (fst (shared c)) @ new \<and> (\<forall>call \<in> set new. due_call (fst (shared c)) call)))"
proof -
  have p: "managed.protected c" by (rule protected_manager [OF assms])
  then have "locked_inv (shared c)" "\<And>l. owner c l = None \<Longrightarrow> manager_free l (shared c)"
    by (auto simp: managed.protected_def)
  moreover have "fair_calls (shared c) (shared c')" if "happens (manager_programs w quiet) c c'" for c'
    using that
  proof cases
    case (move t)
    then show ?thesis using managed.protected_moves [OF move p] fair_none [of "shared c'" "shared c"] by auto
  qed (simp add: fair_none)
  ultimately show ?thesis
    using locked_manager_inv [of "shared c"] manager_free.simps(2,3) [of "shared c"] unfolding fair_calls_def by blast
qed

theorem threads_keep_invariant_witness:
  "manager_inv (fst (shared (two_creations sample_world (TimerManager, []))))"
  using threads_keep_invariant [OF runs_mono [OF two_creations_race(1) Diff_subset], of sample_world]
  by (simp add: valid_sort_sort_key two_creations_def Let_def resting_def)

section \<open>A client that calls back\<close>

text \<open>Stopping a timer with the looper's mutexes held.\<close>

lemma stop_blocks:
  assumes "map_find (timerEntryMap m) n = Some e"
  shows "outcome (finishing (StopTimerInner_prog w n d)) {proxyMutex, mutex} (m, ps) =
    Blocked mutex {entryMapMutex, proxyMutex, mutex}"
  unfolding finishing_def StopTimerInner_prog_def
proof (intro outcome_seq_blocked outcome_lock_guard_blocked)
  let ?H = "{entryMapMutex, proxyMutex, mutex}"
  show "outcome (look {Entries} (\<lambda>m. case map_find (timerEntryMap m) n of None \<Rightarrow> Return False
      | Some e \<Rightarrow> seq_prog (RemoveHandler_prog w n) (\<lambda>_. seq_prog (RemoveProxy_prog n (te_uid e)) (\<lambda>_.
          if d then change {Entries} (\<lambda>m. m\<lparr>timerEntryMap := map_erase n (timerEntryMap m)\<rparr>) (Return True) else Return True))))
      ?H (m, ps) = Blocked mutex ?H"
    using assms by (simp add: look_def RemoveHandler_prog_def lock_guard_def)
qed simp

text \<open>C21. A client that stops or destroys a timer from its notification, which the looper waits for with
  \<open>mutex\<close> and \<open>proxyMutex\<close> held, blocks the service for good: when the first alarm that is due has a
  callback whose client does so, the looper comes to a state from which on, whatever
  any thread calls, it owns all three mutexes for ever, so that no operation that takes one goes on again.\<close>

theorem reentrant_stop_blocks:
  assumes "threads c t = looper_iteration_prog w react result" "shared c = (m, [])" "\<forall>l. owner c l = None"
    and "result AND TIME_CHANGED_MASK = 0"
    and "TriggerTimersLocked w [] (GetBootTimeNs w (ticks m + 1)) (m\<lparr>ticks := ticks m + 2\<rparr>) = Some (a # ts, hw, m')"
    and "ti_callback a = Some cb" "ti_uid a \<notin> proxyUids m"
    and "react cb (ti_id a) = finishing (StopTimerInner_prog w n d)" "map_find (timerEntryMap m) n \<noteq> None"
  shows "\<exists>c'. moves_on\<^sup>*\<^sup>* c c' \<and>
    (\<forall>P c''. (happens P)\<^sup>*\<^sup>* c' c'' \<longrightarrow> (\<forall>l. owner c'' l = Some t) \<and>
       (\<forall>t' l p. threads c' t' = Acquire l p \<longrightarrow> threads c'' t' = Acquire l p))"
proof -
  let ?el = "GetBootTimeNs w (ticks m + 1)" and ?m = "m\<lparr>ticks := ticks m + 2\<rparr>"
  have reg: "same_registry ?m m'" by (rule Trigger_frame [OF assms(5)])
  then have m': "ti_uid a \<notin> proxyUids m'" "map_find (timerEntryMap m') n \<noteq> None"
    using assms(7,9) by (simp_all add: same_registry_def)
  then obtain e where "map_find (timerEntryMap (CallbackAlarmIfNeed a m')) n = Some e"
    by (auto simp: CallbackAlarmIfNeed_def call_back_eq Let_def)
  from stop_blocks [OF this] have b: "outcome (react cb (ti_id a)) {proxyMutex, mutex} (CallbackAlarmIfNeed a m', ts) =
      Blocked mutex {entryMapMutex, proxyMutex, mutex}" by (simp add: assms(8))
  have one: "outcome (CallbackAlarmIfNeed_prog react a) {mutex} (m', a # ts) = Blocked mutex {entryMapMutex, proxyMutex, mutex}"
    unfolding CallbackAlarmIfNeed_prog_def
    by (rule outcome_lock_guard_blocked) (use b m'(1) assms(6) in \<open>simp_all add: next_pending_def\<close>)
  have deliver: "outcome (DeliverTimersLocked_prog react (a # ts)) {mutex} (m', a # ts) = Blocked mutex {entryMapMutex, proxyMutex, mutex}"
    using assms(6) by (auto intro!: outcome_seq_blocked one)
  have mask: "result \<noteq> TIME_CHANGED_MASK" using assms(4) by (auto simp: TIME_CHANGED_MASK_def)
  have "outcome (looper_trigger_prog w react result ?el) {} (?m, []) = Blocked mutex {entryMapMutex, proxyMutex, mutex}"
    unfolding looper_trigger_prog_def Let_def
    by (rule outcome_lock_guard_blocked)
      (use mask assms(5) deliver in \<open>simp_all add: trigger_step_def outcome_seq_blocked\<close>)
  then have "outcome (threads c t) {} (shared c) = Blocked mutex {entryMapMutex, proxyMutex, mutex}"
    using assms(4) by (simp add: assms(1,2) looper_iteration_prog_def looper_time_change_prog_def on_manager_def Let_def)
  moreover have "held c t = {}" using assms(3) by (simp add: held_def)
  ultimately obtain c' where c': "moves_on\<^sup>*\<^sup>* c c'" "stuck c' t" "held c' t = UNIV"
    using blocked_stuck [of c t mutex] assms(3) by (auto simp: UNIV_manager_lock insert_commute)
  have "owner c'' l = Some t" if "(happens P)\<^sup>*\<^sup>* c' c''" for P c'' l
    using stuck_forever [OF that c'(2)] c'(3) by (auto simp: held_def)
  moreover have "threads c'' t' = Acquire l p" if "(happens P)\<^sup>*\<^sup>* c' c''" "threads c' t' = Acquire l p" for P c'' t' l p
    using waits_forever [OF that(1) c'(2) _ that(2)] c'(3) by simp
  ultimately show ?thesis using c'(1) by blast
qed

text \<open>A client that stops timer 1 from its notification, and the looper about to deliver that timer.\<close>

definition stopping_client :: "timer_callback \<Rightarrow> u64 \<Rightarrow> unit manager_prog" where
  "stopping_client cb n = finishing (StopTimerInner_prog sample_world n False)"

definition due_state :: timer_manager where
  "due_state = registered_state\<lparr>alarmBatches := [Batch_seed (sample_alarm 1 5000 0 0)]\<rparr>"

definition looper_starts :: "(manager_lock, manager_field, manager_threads, unit) config" where
  "looper_starts = (resting () (due_state, []))
     \<lparr>threads := (\<lambda>_. Return ())(0 := looper_iteration_prog sample_world stopping_client 4)\<rparr>"

theorem reentrant_stop_blocks_witness:
  "\<exists>c'. moves_on\<^sup>*\<^sup>* looper_starts c' \<and>
    (\<forall>c''. (happens (manager_programs sample_world stopping_client))\<^sup>*\<^sup>* c' c'' \<longrightarrow> (\<forall>l. owner c'' l = Some 0))"
proof -
  have "TriggerTimersLocked sample_world [] (GetBootTimeNs sample_world (ticks due_state + 1)) (due_state\<lparr>ticks := ticks due_state + 2\<rparr>) =
      Some ([triggered (ms_to_ns 100000) (sample_alarm 1 5000 0 0)], True, due_state\<lparr>ticks := ticks due_state + 2, alarmBatches := []\<rparr>)"
    by (simp add: TriggerTimersLocked_def trigger_fuel_def trigger_alarm_eq repeating_def GetStart_def ms_to_ns_def
        due_state_def registered_state_def sample_state_def sample_alarm_def TimerManager_def scheduled_def triggered_def)
  from reentrant_stop_blocks [where c = looper_starts and t = 0 and react = stopping_client and result = 4
      and cb = "Notify_Remote 1" and n = 1 and d = False, OF _ _ _ _ this]
  show ?thesis
    by (auto simp: looper_starts_def resting_def stopping_client_def TIME_CHANGED_MASK_def triggered_def sample_alarm_def
        due_state_def registered_state_def sample_state_def TimerManager_def map_find_def)
qed

end
