(* ===== verification/Client_Threads.thy ===== *)
theory Client_Threads
  imports Timer_Callback Threads
begin

text \<open>
  Threads on the client's side: the table of \<open>TimerCallback\<close> with its mutex
  (\<open>timer_call_back.cpp\<close>), and the one instance of a class that \<open>GetInstance\<close> creates, which
  \<open>TimerCallback\<close>, \<open>TimeServiceClient\<close> and \<open>TimeService\<close> write alike.
\<close>

section \<open>The table\<close>

datatype client_lock = timerInfoMutex

instantiation client_lock :: linorder
begin

definition less_eq_client_lock :: "client_lock \<Rightarrow> client_lock \<Rightarrow> bool" where
  "less_eq_client_lock k l \<longleftrightarrow> True"

definition less_client_lock :: "client_lock \<Rightarrow> client_lock \<Rightarrow> bool" where
  "less_client_lock k l \<longleftrightarrow> False"

instance
  by standard (simp_all add: less_eq_client_lock_def less_client_lock_def client_lock.induct, metis client_lock.exhaust)

end

lemma UNIV_client_lock: "(UNIV :: client_lock set) = {timerInfoMutex}"
  using client_lock.exhaust by blast

instance client_lock :: finite
  by standard (simp add: UNIV_client_lock)

datatype client_field = Infos

type_synonym 'r client_prog = "(client_lock, client_field, timer_callbacks, 'r) prog"

definition InsertTimerCallbackInfo_prog :: "u64 \<Rightarrow> itimer_info option \<Rightarrow> bool client_prog" where
  "InsertTimerCallbackInfo_prog timerId timerInfo =
     (case timerInfo of
        None \<Rightarrow> Return False
      | Some info \<Rightarrow> lock_guard timerInfoMutex
          (Step {Infos} {Infos} (\<lambda>c. fst (InsertTimerCallbackInfo timerId timerInfo c))
             (\<lambda>c. Return (snd (InsertTimerCallbackInfo timerId timerInfo c)))))"

definition RemoveTimerCallbackInfo_prog :: "u64 \<Rightarrow> bool client_prog" where
  "RemoveTimerCallbackInfo_prog timerId =
     lock_guard timerInfoMutex
       (Step {Infos} {Infos} (\<lambda>c. fst (RemoveTimerCallbackInfo timerId c))
          (\<lambda>c. Return (snd (RemoveTimerCallbackInfo timerId c))))"

text \<open>\<open>run\<close> is the client's own \<open>OnTrigger\<close>, which is called with the mutex held.\<close>

definition NotifyTimer_prog :: "(nat \<Rightarrow> unit client_prog) \<Rightarrow> u64 \<Rightarrow> unit client_prog" where
  "NotifyTimer_prog run timerId =
     lock_guard timerInfoMutex
       (Step {Infos} {} id
          (\<lambda>c. case map_find (TimerInfoMap c) timerId of
             None \<Rightarrow> Return ()
           | Some info \<Rightarrow>
               Step {} {} (\<lambda>c. c\<lparr>cb_events := cb_events c @ [OnTrigger (ii_onTrigger info)]\<rparr>)
                 (\<lambda>_. seq_prog (run (ii_onTrigger info)) (\<lambda>_.
                   case ii_wantAgent info of
                     None \<Rightarrow> Return ()
                   | Some agent \<Rightarrow> Step {} {} (\<lambda>c. c\<lparr>cb_events := cb_events c @ [TriggerWantAgent agent]\<rparr>) (\<lambda>_. Return ())))))"

lemma alone_client:
  "alone (InsertTimerCallbackInfo_prog k i) c = Some (InsertTimerCallbackInfo k i c)"
  "alone (RemoveTimerCallbackInfo_prog k) c = Some (RemoveTimerCallbackInfo k c)"
  "alone (NotifyTimer_prog (\<lambda>_. Return ()) k) c = Some (NotifyTimer_callback k c, ())"
  by (simp_all add: InsertTimerCallbackInfo_prog_def InsertTimerCallbackInfo_def RemoveTimerCallbackInfo_prog_def
      NotifyTimer_prog_def NotifyTimer_callback_def Let_def split: option.splits)

inductive_set client_programs :: "(nat \<Rightarrow> unit client_prog) \<Rightarrow> unit client_prog set" for run where
  insert: "seq_prog (InsertTimerCallbackInfo_prog k i) (\<lambda>_. Return ()) \<in> client_programs run"
| remove: "seq_prog (RemoveTimerCallbackInfo_prog k) (\<lambda>_. Return ()) \<in> client_programs run"
| notify: "NotifyTimer_prog run k \<in> client_programs run"

definition client_guard :: "client_field \<Rightarrow> client_lock option" where
  "client_guard x = Some timerInfoMutex"

lemma client_programs_ok:
  "p \<in> client_programs (\<lambda>_. Return ()) \<Longrightarrow> ordered {} p {} \<and> guarded client_guard p {}"
  by (induction rule: client_programs.induct)
    (auto simp: InsertTimerCallbackInfo_prog_def RemoveTimerCallbackInfo_prog_def NotifyTimer_prog_def client_guard_def lock_guard_def
      split: option.splits)

section \<open>A client that uses its timers from a notification\<close>

text \<open>C40. \<open>OnTrigger\<close> runs with \<open>timerInfoMutex\<close> held: if it creates a timer, which inserts a callback, or
  destroys one, which removes it, the notification waits for its own mutex and never returns, and no
  thread of the client inserts, removes or notifies any more.\<close>

theorem OnTrigger_blocks:
  assumes "threads c t = NotifyTimer_prog run k" "\<forall>l. owner c l = None" "map_find (TimerInfoMap (shared c)) k = Some info"
    and "run (ii_onTrigger info) \<in> {seq_prog (InsertTimerCallbackInfo_prog k' (Some i)) (\<lambda>_. Return ()),
       seq_prog (RemoveTimerCallbackInfo_prog k') (\<lambda>_. Return ())}"
  shows "\<exists>c'. moves_on\<^sup>*\<^sup>* c c' \<and>
    (\<forall>P c''. (happens P)\<^sup>*\<^sup>* c' c'' \<longrightarrow> stuck c'' t \<and> (\<forall>l. owner c'' l = Some t))"
proof -
  have run: "outcome (run (ii_onTrigger info)) {timerInfoMutex} s = Blocked timerInfoMutex {timerInfoMutex}" for s
    using assms(4) by (auto simp: InsertTimerCallbackInfo_prog_def RemoveTimerCallbackInfo_prog_def lock_guard_def)
  have "outcome (NotifyTimer_prog run k) {} (shared c) = Blocked timerInfoMutex {timerInfoMutex}"
    unfolding NotifyTimer_prog_def using assms(3)
    by (intro outcome_lock_guard_blocked) (simp_all add: outcome_seq_blocked [OF run])
  moreover have "held c t = {}" using assms(2) by (simp add: held_def)
  ultimately obtain c' where c': "moves_on\<^sup>*\<^sup>* c c'" "stuck c' t" "held c' t = {timerInfoMutex}"
    using blocked_stuck [of c t timerInfoMutex] assms(1,2) by auto
  have "stuck c'' t \<and> owner c'' l = Some t" if "(happens P)\<^sup>*\<^sup>* c' c''" for P c'' l
    using stuck_forever [OF that c'(2)] c'(3) client_lock.exhaust by (auto simp: held_def)
  then show ?thesis using c'(1) by blast
qed

theorem OnTrigger_blocks_witness:
  "let info = ITimerInfo 3; creates = (\<lambda>_. seq_prog (InsertTimerCallbackInfo_prog 2 (Some (ITimerInfo 4))) (\<lambda>_. Return ()));
       c = (resting () (TimerCallback\<lparr>TimerInfoMap := [(1, info)]\<rparr>))\<lparr>threads := (\<lambda>_. Return ())(0 := NotifyTimer_prog creates 1)\<rparr>
   in \<exists>c'. moves_on\<^sup>*\<^sup>* c c' \<and> stuck c' 0 \<and> owner c' timerInfoMutex = Some 0"
proof -
  let ?creates = "\<lambda>_. seq_prog (InsertTimerCallbackInfo_prog 2 (Some (ITimerInfo 4))) (\<lambda>_. Return ())"
  let ?c = "(resting () (TimerCallback\<lparr>TimerInfoMap := [(1, ITimerInfo 3)]\<rparr>))\<lparr>threads := (\<lambda>_. Return ())(0 := NotifyTimer_prog ?creates 1)\<rparr>"
  have "\<exists>c'. moves_on\<^sup>*\<^sup>* ?c c' \<and>
      (\<forall>P c''. (happens P)\<^sup>*\<^sup>* c' c'' \<longrightarrow> stuck c'' 0 \<and> (\<forall>l. owner c'' l = Some 0))"
    by (rule OnTrigger_blocks [where k = 1 and run = ?creates and info = "ITimerInfo 3" and k' = 2 and i = "ITimerInfo 4"])
      (simp_all add: resting_def TimerCallback_def map_find_def)
  then show ?thesis unfolding Let_def by blast
qed

section \<open>One instance\<close>

text \<open>
  \<open>instance_\<close> is a static variable, \<open>created\<close> counts the objects. The pointer is tested before and
  after the mutex is taken, and read again for the result.
\<close>

record singleton =
  instance_ptr :: "nat option"
  created :: nat

datatype singleton_field = Instance

definition GetInstance_prog :: "(unit, singleton_field, singleton, nat option) prog" where
  "GetInstance_prog =
     (let result = Step {Instance} {} id (\<lambda>s. Return (instance_ptr s)) in
      Step {Instance} {} id (\<lambda>s.
        if instance_ptr s = None
        then seq_prog
          (lock_guard () (Step {Instance} {} id (\<lambda>s.
             if instance_ptr s = None
             then Step {} {Instance} (\<lambda>s. s\<lparr>instance_ptr := Some (created s), created := created s + 1\<rparr>) (\<lambda>_. Return ())
             else Return ())))
          (\<lambda>_. result)
        else result))"

definition GetInstance_callback :: "(unit, singleton_field, singleton, nat option) prog" where
  "GetInstance_callback = GetInstance_prog"
definition GetInstance_client :: "(unit, singleton_field, singleton, nat option) prog" where
  "GetInstance_client = GetInstance_prog"
definition GetInstance_service :: "(unit, singleton_field, singleton, nat option) prog" where
  "GetInstance_service = GetInstance_prog"

text \<open>With the mutex held nobody else changes anything, and once there is an instance nobody does at all.\<close>

definition one_inv :: "singleton \<Rightarrow> bool" where
  "one_inv s \<longleftrightarrow> instance_ptr s = None \<and> created s = 0 \<or> instance_ptr s = Some 0 \<and> created s = 1"

definition one_rely :: "unit set \<Rightarrow> singleton \<Rightarrow> singleton \<Rightarrow> bool" where
  "one_rely H s s' \<longleftrightarrow> (() \<in> H \<or> instance_ptr s \<noteq> None \<longrightarrow> s' = s)"

definition one_fair :: "singleton \<Rightarrow> singleton \<Rightarrow> bool" where
  "one_fair s s' \<longleftrightarrow> (instance_ptr s \<noteq> None \<longrightarrow> s' = s)"

interpretation one: protected_state one_inv one_rely "\<lambda>_ _. True" one_fair
  by unfold_locales (auto simp: one_rely_def)

lemma safe_GetInstance: "one_inv s \<Longrightarrow> one.safe (\<lambda>_ H _. H = {}) GetInstance_prog {} s"
  by (auto simp: GetInstance_prog_def lock_guard_def one_rely_def one_inv_def one_fair_def one.settled_def Let_def)

text \<open>However many threads ask for the instance, one object is created, and the pointer to it stays.\<close>

lemma one_instance:
  assumes "runs {GetInstance_prog} \<lparr>instance_ptr = None, created = 0\<rparr> c"
  shows "created (shared c) \<le> 1 \<and> (instance_ptr (shared c) = None \<longleftrightarrow> created (shared c) = 0) \<and>
    (\<forall>t c'. moves c t c' \<longrightarrow> instance_ptr (shared c) \<noteq> None \<longrightarrow> shared c' = shared c)"
proof -
  have p: "one.protected c"
    using assms by (rule one.protected_runs) (auto simp: one_inv_def intro: safe_GetInstance)
  then have "one_inv (shared c)" by (simp add: one.protected_def)
  then show ?thesis using one.protected_moves [OF _ p] by (auto simp: one_inv_def one_fair_def)
qed

text \<open>The first test reads the pointer without the mutex, beside a thread that may write it.\<close>

lemma instance_race:
  assumes "instance_ptr s = None"
  shows "\<exists>c. runs {GetInstance_prog} s c \<and> race_on c Instance"
proof -
  obtain f k where g: "GetInstance_prog = Step {Instance} {} id f" "f s = Acquire () (Step {Instance} {} id k)"
    and k: "\<exists>h j. k s = Step {} {Instance} h j"
    using assms by (auto simp: GetInstance_prog_def lock_guard_def Let_def)
  obtain h j where h: "k s = Step {} {Instance} h j" using k by blast
  define c0 where "c0 = (resting None s)\<lparr>threads := (\<lambda>_. Return None)(0 := GetInstance_prog, 1 := GetInstance_prog)\<rparr>"
  have "runs {GetInstance_prog} s c0" unfolding c0_def by (rule run_two) simp_all
  define c1 where "c1 = c0\<lparr>threads := (threads c0)(0 := f (shared c0)), shared := id (shared c0)\<rparr>"
  have "moves c0 0 c1" unfolding c1_def by (rule moves.step [where R = "{Instance}" and W = "{}" and f = id]) (simp add: c0_def g(1))
  define c2 where "c2 = c1\<lparr>threads := (threads c1)(0 := Step {Instance} {} id k), owner := (owner c1)(() \<mapsto> 0)\<rparr>"
  have "moves c1 0 c2" unfolding c2_def by (rule moves.acquire) (simp_all add: c1_def c0_def g resting_def)
  define c3 where "c3 = c2\<lparr>threads := (threads c2)(0 := k (shared c2)), shared := id (shared c2)\<rparr>"
  have "moves c2 0 c3" unfolding c3_def by (rule moves.step [where R = "{Instance}" and W = "{}" and f = id]) (simp add: c2_def)
  have "runs {GetInstance_prog} s c3"
    using \<open>runs _ s c0\<close> \<open>moves c0 0 c1\<close> \<open>moves c1 0 c2\<close> \<open>moves c2 0 c3\<close> by (blast intro: run_move)
  moreover have "threads c3 0 = Step {} {Instance} h j" "threads c3 1 = Step {Instance} {} id f"
    by (simp_all add: c3_def c2_def c1_def c0_def resting_def h g(1))
  then have "race_on c3 Instance" unfolding race_on_def by (intro exI [of _ 0] exI [of _ 1]) simp
  ultimately show ?thesis by blast
qed

end
