(* ===== verification/System_Tables.thy ===== *)
theory System_Tables
  imports Process
begin

text \<open>
  What the process of the service does to the timers that are registered for one callback object: only a
  creation for this object, and the destruction of one of its timers, change them, whatever else happens.
\<close>

section \<open>The timers of a client\<close>

text \<open>The registered timers that call the callback object \<open>k\<close>.\<close>

definition timers_of :: "nat \<Rightarrow> time_service \<Rightarrow> u64 \<rightharpoonup> timer_entry" where
  "timers_of k s n =
     (case service_timer s n of
        None \<Rightarrow> None
      | Some t \<Rightarrow> if te_callback t = Some (Notify_Remote k) then Some t else None)"

lemma timers_of_cong: "service_timer s' = service_timer s \<Longrightarrow> timers_of k s' = timers_of k s"
  by (simp add: timers_of_def fun_eq_iff)

lemma timer_manager_cong: "s_manager s' = s_manager s \<Longrightarrow> service_timer s' = service_timer s"
  by (simp add: service_timer_def)

lemma get_manager_timers: "service_timer (fst (get_manager e s)) = service_timer s"
  using get_manager_timer [of e s] get_manager_state [of e s]
  by (cases "get_manager e s") (auto simp: service_timer_def fun_eq_iff split: option.splits)

lemma with_manager_timers: "s_manager s' = snd (get_manager e s) \<Longrightarrow> service_timer s' = service_timer s"
  using get_manager_timers [of e s] get_manager_state [of e s] by (simp add: service_timer_def)

lemma passed_on_timers:
  assumes "\<And>m. timerEntryMap (fst (f m)) = timerEntryMap m"
    and r: "r = (case get_manager e s of (s1, None) \<Rightarrow> (s1, False)
        | (s1, Some m) \<Rightarrow> let (m', ret) = f m in (s1\<lparr>s_manager := Some m'\<rparr>, ret))"
  shows "service_timer (fst r) = service_timer s"
proof -
  obtain s1 mo where g: "get_manager e s = (s1, mo)" by (cases "get_manager e s")
  note t = get_manager_timers [of e s] get_manager_timer [OF g]
  show ?thesis
    using assms(1) t by (cases mo) (auto simp: r g registered_timer_def case_prod_beta Let_def)
qed

lemma proxy_timers:
  "service_timer (fst (ProxyTimer_service e uid p rt s)) = service_timer s"
proof (cases "CheckProxyCallingPermission (e_caller e (s_now s))")
  case True
  show ?thesis using passed_on_timers [OF _ proxy_allowed [OF True]] by simp
qed (simp add: ProxyTimer_service_def)

lemma reset_timers:
  "service_timer (fst (ResetAllProxy_service e s)) = service_timer s"
proof (cases "CheckProxyCallingPermission (e_caller e (s_now s))")
  case True
  show ?thesis using passed_on_timers [OF _ reset_allowed [OF True]] by simp
qed (simp add: ResetAllProxy_service_def)

text \<open>A creation adds one timer under a number that was free, and nothing under one that was not.\<close>

lemma manager_create_table:
  "CreateTimer w type wl iv fl cb uid m = Some (m', n) \<Longrightarrow>
    registered_timer m' = (if registered_timer m n = None
      then (registered_timer m)(n \<mapsto> \<lparr>te_id = n, te_type = type, te_windowLength = wl, te_interval = iv, te_flag = fl,
        te_callback = cb, te_uid = uid\<rparr>)
      else registered_timer m)"
  by (auto simp: CreateTimer_def registered_timer_def map_find_insert Let_def split: option.splits if_splits)

lemma internal_timers:
  assumes "CreateTimer_internal e type wl iv fl (Some Ntp_Refresh) s = Some (s', n)"
  shows "timers_of k s' = timers_of k s"
proof -
  obtain s1 mo where g: "get_manager e s = (s1, mo)" by (cases "get_manager e s")
  have t: "service_timer s1 = service_timer s" using get_manager_timers [of e s] g by simp
  show ?thesis
  proof (cases mo)
    case None
    then show ?thesis using assms g t by (intro timers_of_cong) (simp add: CreateTimer_internal_def)
  next
    case (Some m)
    have eq: "service_timer s = registered_timer m" using get_manager_timer [OF g] Some by simp
    show ?thesis
    proof (cases "CreateTimer (e_world e) type wl iv fl (Some Ntp_Refresh) 0 m")
      case None
      then show ?thesis using assms by (simp add: CreateTimer_internal_def g Some)
    next
      case (Some r)
      then obtain m' where c: "CreateTimer (e_world e) type wl iv fl (Some Ntp_Refresh) 0 m = Some (m', n)"
        and s': "s' = s1\<lparr>s_manager := Some m'\<rparr>"
        using assms \<open>mo = Some m\<close> by (cases r) (simp add: CreateTimer_internal_def g)
      have s'': "service_timer s' = registered_timer m'" by (simp only: s' service_timer_Some)
      show ?thesis by (rule ext) (simp only: timers_of_def eq s'' manager_create_table [OF c], simp)
    qed
  qed
qed

text \<open>The entry of a timer that a client asks for.\<close>

definition entry_for :: "i32 \<Rightarrow> bool \<Rightarrow> u64 \<Rightarrow> nat \<Rightarrow> int \<Rightarrow> u64 \<Rightarrow> timer_entry" where
  "entry_for type repeat interval object uid n =
     (let p = PaserTimerPara type repeat interval in
      \<lparr>te_id = n, te_type = tp_timerType p, te_windowLength = word_of_int (tp_windowLength p), te_interval = tp_interval p,
       te_flag = tp_flag p, te_callback = Some (Notify_Remote object), te_uid = uid\<rparr>)"

lemma entry_for_callback [simp]: "te_callback (entry_for type repeat interval ob uid n) = Some (Notify_Remote ob)"
  by (simp add: entry_for_def Let_def)

lemma service_create_timers:
  assumes "CreateTimer_service e type repeat interval obj s = Some (s', n)"
  shows "n = 0 \<and> service_timer s' = service_timer s \<or>
    (\<exists>ob. obj = Some ob \<and> n \<noteq> 0 \<and> service_timer s' = (if service_timer s n = None
       then (service_timer s)(n \<mapsto> entry_for type repeat interval ob (e_uid e (s_now s)) n) else service_timer s))"
proof (cases "\<exists>ob. obj = Some ob \<and> e_iface_cast e ob")
  case False
  then have "n = 0" "s' = after 1 s"
    using assms by (auto simp: CreateTimer_service_def INVALID_TIMER_ID_def Let_def split: option.splits if_splits)
  then show ?thesis by simp
next
  case True
  then obtain ob where ob: "obj = Some ob" "e_iface_cast e ob" by blast
  let ?s0 = "report_creation e (e_uid e (s_now s)) type interval (after 1 s)"
  obtain s1 mo where g: "get_manager e ?s0 = (s1, mo)" by (cases "get_manager e ?s0")
  have t: "service_timer s1 = service_timer s" using get_manager_timers [of e ?s0] g by simp
  show ?thesis
  proof (cases mo)
    case None
    then have "n = 0" "s' = s1"
      using assms ob g by (simp_all add: CreateTimer_service_def INVALID_TIMER_ID_def Let_def)
    then show ?thesis using t by simp
  next
    case (Some m)
    let ?p = "PaserTimerPara type repeat interval"
    let ?c = "CreateTimer (e_world e) (tp_timerType ?p) (word_of_int (tp_windowLength ?p)) (tp_interval ?p) (tp_flag ?p)
      (Some (Notify_Remote ob)) (e_uid e (s_now s)) m"
    have eq: "service_timer s = registered_timer m" using get_manager_timer [OF g] Some by simp
    have "CreateTimer_service e type repeat interval obj s =
        (case ?c of None \<Rightarrow> None | Some (m', n) \<Rightarrow> Some (s1\<lparr>s_manager := Some m'\<rparr>, n))"
      using ob g Some by (simp add: CreateTimer_service_def Let_def)
    then obtain m' where c: "?c = Some (m', n)" and s': "s' = s1\<lparr>s_manager := Some m'\<rparr>"
      using assms by (auto split: option.splits)
    have "n \<noteq> 0" using c draw_nonzero by (auto simp: CreateTimer_def Let_def split: option.splits)
    then show ?thesis
      using manager_create_table [OF c] ob by (simp add: s' eq entry_for_def Let_def)
  qed
qed

text \<open>What the service's own work does to the table.\<close>

lemma looper_timers:
  "looper_trigger w r now m = Some m' \<Longrightarrow> timerEntryMap m' = timerEntryMap m"
  "timerEntryMap (looper_time_change w r rtc el (m\<lparr>ticks := k\<rparr>)) = timerEntryMap m"
  using ReBatch_frame [of "m\<lparr>ticks := k\<rparr>" w True]
  by (auto simp: looper_trigger_def looper_time_change_def ReBatchAllTimers_def same_registry_def Let_def
      dest!: Trigger_frame split: option.splits if_splits)

lemma start_timers: "timers_of k (fst (StartTimer_service e n t s)) = timers_of k s"
  by (rule timers_of_cong) (simp add: service_start)

lemma destroy_timers:
  "timers_of k (fst (DestroyTimer_service e n s)) = (timers_of k s)(n := None)"
  by (rule ext) (simp add: timers_of_def service_destroy)

lemma OnStart_timers:
  assumes "OnStart e fsys fs s = Some (fs', s')"
  shows "timers_of k s' = timers_of k s"
  using assms
proof (cases rule: OnStart_parts)
  case (starting s5 s6)
  have "service_timer s5 = service_timer (InitTimerHandler e (InitServiceHandler s))"
    by (rule timer_manager_cong [OF starting(1)])
  also have "\<dots> = service_timer (InitServiceHandler s)"
  proof (cases "s_manager (InitServiceHandler s)")
    case None
    then show ?thesis
      by (intro with_manager_timers [of _ e]) (simp add: InitTimerHandler_def get_manager_def split: prod.splits)
  qed (simp add: InitTimerHandler_def)
  also have "\<dots> = service_timer s" by (rule timer_manager_cong) (simp add: life_manager)
  finally have "timers_of k s5 = timers_of k s" by (rule timers_of_cong)
  moreover have "timers_of k s6 = timers_of k s5"
    using starting(2)
  proof (cases rule: Init_ntp_parts)
    case unloaded
    then show ?thesis by (intro timers_of_cong timer_manager_cong)
  next
    case (loaded s3 s4 s6' tid n t)
    have "timers_of k s6' = timers_of k s4" "timers_of k s3 = timers_of k s5"
      using loaded(1,2) by (intro timers_of_cong timer_manager_cong; simp)+
    then show ?thesis using internal_timers [OF loaded(3)] by (simp add: loaded(4) start_timers)
  qed
  ultimately show ?thesis using timers_of_cong [OF timer_manager_cong [OF starting(3)]] by simp
qed simp

text \<open>
  So nothing that happens to the process changes what is registered for the object \<open>k\<close>, but a creation
  for this object, and the destruction of one of its timers.
\<close>

lemma process_step_timers:
  assumes "process_step e fsys s s'"
  shows "timers_of k s' = timers_of k s \<or>
    (\<exists>type repeat interval n. CreateTimer_service e type repeat interval (Some k) s = Some (s', n)) \<or>
    (\<exists>n. timers_of k s n \<noteq> None \<and> s' = fst (DestroyTimer_service e n s))"
  using assms
proof (cases rule: process_step.cases)
  case (create type repeat interval obj n)
  show ?thesis
  proof (cases "obj = Some k")
    case False
    then have "timers_of k s' = timers_of k s"
      using service_create_timers [OF create(2)] by (auto simp: timers_of_def)
    then show ?thesis by blast
  qed (use create in blast)
next
  case (destroy n)
  then show ?thesis using destroy_timers [of k e n s] by (cases "timers_of k s n") auto
next
  case stop_ntp
  then show ?thesis using destroy_timers [of k e "ntp_timerId (s_ntp s)" s]
    by (cases "timers_of k s (ntp_timerId (s_ntp s))") (auto simp: Stop_ntp_def)
next
  case (proxy uid isProxy needRetrigger)
  then show ?thesis by (intro disjI1 timers_of_cong) (simp add: proxy_timers)
next
  case reset
  then show ?thesis by (intro disjI1 timers_of_cong) (simp add: reset_timers)
next
  case (stop n)
  then show ?thesis by (intro disjI1 timers_of_cong) (simp add: service_stop)
next
  case (dump args out err)
  then show ?thesis
    using Dump_manager [of e args s s'] with_manager_timers [of s' e "after 1 s"]
    by (intro disjI1 timers_of_cong) (auto dest: timer_manager_cong)
next
  case (clock m result nowRtc nowElapsed j)
  then have "service_timer s' = service_timer s" by (simp add: service_timer_def registered_timer_def looper_timers)
  then show ?thesis by (intro disjI1 timers_of_cong)
next
  case (trigger m result nowElapsed m')
  then have "service_timer s' = service_timer s"
    using looper_timers(1) [OF trigger(3)] by (simp add: service_timer_def registered_timer_def)
  then show ?thesis by (intro disjI1 timers_of_cong)
next
  case (read_clock read)
  then have "s_manager s' = s_manager s" by (auto simp: reads_manager)
  then show ?thesis by (intro disjI1 timers_of_cong timer_manager_cong)
qed (auto simp: OnStart_timers start_timers manager_frame NetworkTimeStatusOff_service_def
    NetworkTimeStatusOn_service_def intro!: timers_of_cong timer_manager_cong disjI1)

section \<open>Numbers that are out of use\<close>

text \<open>No timer has the number, and no alarm with it waits in a proxy's queue.\<close>

definition absent :: "u64 \<Rightarrow> time_service \<Rightarrow> bool" where
  "absent n s \<longleftrightarrow> (case s_manager s of None \<Rightarrow> True | Some m \<Rightarrow> gone n m)"

definition calls_made :: "time_service \<Rightarrow> (timer_callback \<times> u64) list" where
  "calls_made s = (case s_manager s of None \<Rightarrow> [] | Some m \<Rightarrow> fired m)"

lemma absent_unregistered: "absent n s \<Longrightarrow> service_timer s n = None"
  by (simp add: absent_def gone_def service_timer_def registered_timer_def split: option.splits)

lemma gone_init: "gone n TimerManager"
  by (simp add: gone_def TimerManager_def queue_of_def map_find_def)

lemma registry_fired: "same_registry m m' \<Longrightarrow> fired m' = fired m"
  by (simp add: same_registry_def)

lemma Stop_fired: "fired (fst (StopTimerInner w n d m)) = fired m"
  using registry_fired [OF Remove_frame, of w n m]
  by (auto simp: StopTimerInner_def RemoveProxy_def Let_def split: option.splits)

lemma trigger_fired: "looper_trigger w r now m = Some m' \<Longrightarrow> \<exists>new. fired m' = fired m @ new"
  by (auto simp: looper_trigger_def Deliver_spec dest!: Trigger_frame registry_fired split: option.splits if_splits)

lemma step_fired: "step w m m' \<Longrightarrow> \<exists>new. fired m' = fired m @ new"
proof (induction rule: step.induct)
  case (create uid type wl iv fl cb m m' n)
  then show ?case by (auto simp: CreateTimer_def Let_def split: option.splits)
next
  case (start m n t)
  then show ?case using registry_fired [OF Start_registry] by simp
next
  case (clock m result nowRtc nowElapsed k)
  then show ?case
    using registry_fired [OF ReBatch_frame, of w True "m\<lparr>ticks := k\<rparr>"]
    by (simp add: looper_time_change_def ReBatchAllTimers_def Let_def)
qed (auto simp: StopTimer_def DestroyTimer_def Stop_fired ProxyTimer_def call_back_all_eq ResetAllProxy_def
    reset_loop_eq trigger_fired Let_def split: option.splits)

text \<open>While the number stays out of use the process does not call anything with it.\<close>

lemma evolves_absent:
  assumes "evolves w {n} mo mo'" "valid_sort ti_whenElapsed (w_sort w)"
    and "\<And>m. mo = Some m \<Longrightarrow> manager_inv m \<and> gone n m" "mo' = Some m'"
  shows "manager_inv m' \<and> gone n m' \<and>
    (\<exists>new. fired m' = (case mo of None \<Rightarrow> [] | Some m \<Rightarrow> fired m) @ new \<and> (\<forall>c \<in> set new. snd c \<noteq> n))"
  using assms(1,4)
proof (induction arbitrary: m' rule: evolves.induct)
  case same
  then show ?case using assms(3) by simp
next
  case made
  have "mo = None" using made.hyps by (cases rule: evolves.cases) auto
  then show ?case using made.prems manager_inv_init gone_init by (auto simp: TimerManager_def)
next
  case (move m m'')
  obtain new where m: "manager_inv m" "gone n m"
    "fired m = (case mo of None \<Rightarrow> [] | Some m \<Rightarrow> fired m) @ new" "\<forall>c \<in> set new. snd c \<noteq> n"
    using move.IH by blast
  obtain more where more: "fired m' = fired m @ more" using step_fired move.hyps(2) move.prems by blast
  have g: "gone n m' \<and> calls_to n m' = calls_to n m"
    using move.hyps move.prems m assms(2) by (intro gone_step) (auto simp: free_def)
  then have "\<forall>c \<in> set more. snd c \<noteq> n" by (simp add: calls_to_def more filter_empty_conv)
  then show ?case
    using g m more inv_step [OF move.hyps(2)] move.prems by (intro conjI exI [of _ "new @ more"]) auto
qed

lemma process_step_absent:
  assumes "process_step e fsys s s'" "process_reachable e fsys s" "valid_sort ti_whenElapsed (w_sort (e_world e))"
    and "absent n s" "service_timer s' n = None"
  shows "absent n s' \<and> (\<exists>new. calls_made s' = calls_made s @ new \<and> (\<forall>c \<in> set new. snd c \<noteq> n))"
proof -
  have ev: "evolves (e_world e) {n} (s_manager s) (s_manager s')"
    using assms(1) by (rule process_step_evolves) (use assms(5) in \<open>simp add: free_def service_timer_def registered_timer_def\<close>)
  have "manager_inv m \<and> gone n m" if "s_manager s = Some m" for m
    using process_manager_reachable [OF assms(2) that] assms(4) that by (auto simp: absent_def intro: reachable_inv)
  note kept = evolves_absent [OF ev assms(3) this]
  show ?thesis
  proof (cases "s_manager s'")
    case None
    with ev have "s_manager s = None" by (cases rule: evolves.cases) auto
    with None show ?thesis by (simp add: absent_def calls_made_def)
  next
    case (Some m')
    from kept [OF _ Some] Some show ?thesis by (simp add: absent_def calls_made_def)
  qed
qed

end
