(* ===== verification/Whole_System.thy ===== *)
theory Whole_System
  imports System_Tables Time_Client
begin

text \<open>
  The whole system: the process of the service and the processes of its clients, each with the client
  library, and the notifications that are under way between them. A client's call goes through the
  library, the proxy, the parcels and the stub; everything else that happens to the service is a step of
  \<open>Process\<close>. A call of a client's callback is a message that arrives at some later time, so that the
  clients may do anything in between. The process of the service may die at any time, and a new one takes
  its place; a client then goes on with the proxy of the dead one until it is told.
\<close>

section \<open>The system\<close>

text \<open>
  \<open>sys_env\<close> is the outside of the service's present process. \<open>sys_clients\<close> are the clients by their callback
  objects, \<open>sys_mail\<close> the calls of a client's object that have been made and have not arrived: the object and
  the number of the timer. \<open>sys_dead\<close> are the clients whose proxy is that of a process that has died,
  \<open>sys_lost\<close> the numbers that a client had when a process died.
\<close>

record system =
  sys_env :: service_env
  sys_service :: time_service
  sys_clients :: "nat \<Rightarrow> client"
  sys_mail :: "(nat \<times> u64) multiset"
  sys_dead :: "nat set"
  sys_lost :: "nat \<Rightarrow> u64 set"

fun remote_call :: "timer_callback \<times> u64 \<Rightarrow> (nat \<times> u64) option" where
  "remote_call (Notify_Remote k, n) = Some (k, n)"
| "remote_call (Ntp_Refresh, n) = None"

definition mailed :: "time_service \<Rightarrow> time_service \<Rightarrow> (nat \<times> u64) multiset" where
  "mailed s s' = mset (List.map_filter remote_call (drop (length (calls_made s)) (calls_made s')))"

text \<open>The service goes on to \<open>s'\<close>, and what it calls meanwhile is under way.\<close>

definition advance :: "time_service \<Rightarrow> system \<Rightarrow> system" where
  "advance s' sys = sys\<lparr>sys_service := s', sys_mail := sys_mail sys + mailed (sys_service sys) s'\<rparr>"

text \<open>The service as the client \<open>k\<close> sees it: a request to a dead object fails with an error of the IPC library.\<close>

definition dead_remote :: "int \<Rightarrow> ('p, 's) channel" where
  "dead_remote err code data reply s = Some (s, reply, E_OTHER err)"

definition service_for :: "'p parcel_ops \<Rightarrow> int \<Rightarrow> system \<Rightarrow> nat \<Rightarrow> time_service itime_service" where
  "service_for ops err sys k =
     (if k \<in> sys_dead sys then TimeServiceProxy ops (dead_remote err) else remote_service ops (sys_env sys))"

text \<open>
  The number that the next creation draws. \<open>unused\<close>: no timer of the service has the number, and no
  client in \<open>K\<close> has an entry for it.
\<close>

definition next_number :: "service_env \<Rightarrow> time_service \<Rightarrow> u64 option" where
  "next_number e s =
     map_option fst (draw (w_random (e_world e)) (case s_manager s of None \<Rightarrow> 0 | Some m \<Rightarrow> randomPos m))"

definition unused :: "nat set \<Rightarrow> system \<Rightarrow> u64 \<Rightarrow> bool" where
  "unused K sys n \<longleftrightarrow>
     service_timer (sys_service sys) n = None \<and> (\<forall>k \<in> K. info_of (c_callbacks (sys_clients sys k)) n = None)"

definition fresh_number :: "nat set \<Rightarrow> system \<Rightarrow> bool" where
  "fresh_number K sys = (case next_number (sys_env sys) (sys_service sys) of None \<Rightarrow> True | Some n \<Rightarrow> unused K sys n)"

text \<open>A new process, with an outside in which \<open>std::sort\<close> sorts.\<close>

definition new_process :: "service_env \<Rightarrow> time_service \<Rightarrow> bool" where
  "new_process e s \<longleftrightarrow> valid_sort ti_whenElapsed (w_sort (e_world e)) \<and>
     (\<exists>tz zone_file auto_file ntp tick. TimeService e tz zone_file auto_file ntp tick = Some s)"

text \<open>
  The clients in \<open>K\<close> use the library, and destroy the timers that they have created. Anything else may
  happen to the service, other processes may create and destroy timers of their own, as long as what is
  registered for the clients in \<open>K\<close> is left alone (\<open>process_step_timers\<close> says which steps could change it).
  A number that is drawn is not in use. A death takes with it all that the process had: its table, and its
  proxies' queues; what it had sent is still under way.
\<close>

inductive system_step ::
  "nat set \<Rightarrow> 'p parcel_ops \<Rightarrow> (nat \<Rightarrow> client_env) \<Rightarrow> 'fs file_system \<Rightarrow> system \<Rightarrow> system \<Rightarrow> bool"
  for K ops ce fsys where
  service: "process_step (sys_env sys) fsys (sys_service sys) s' \<Longrightarrow>
    \<forall>k \<in> K. timers_of k s' = timers_of k (sys_service sys) \<Longrightarrow>
    \<forall>n. service_timer s' n \<noteq> None \<longrightarrow> service_timer (sys_service sys) n \<noteq> None \<or> unused K sys n \<Longrightarrow>
    system_step K ops ce fsys sys (advance s' sys)"
| create: "k \<in> K \<Longrightarrow> in_i32 (e_uid (sys_env sys) (s_now (sys_service sys))) \<Longrightarrow> fresh_number K sys \<Longrightarrow>
    CreateTimer_client (ce k) (service_for ops err sys k) (Some info) (sys_clients sys k, sys_service sys) = Some ((c', s'), n) \<Longrightarrow>
    system_step K ops ce fsys sys ((advance s' sys)\<lparr>sys_clients := (sys_clients sys)(k := c')\<rparr>)"
| start: "k \<in> K \<Longrightarrow>
    StartTimer_client (ce k) (service_for ops err sys k) n time (sys_clients sys k, sys_service sys) = Some ((c', s'), ok) \<Longrightarrow>
    system_step K ops ce fsys sys ((advance s' sys)\<lparr>sys_clients := (sys_clients sys)(k := c')\<rparr>)"
| stop: "k \<in> K \<Longrightarrow>
    StopTimer_client (ce k) (service_for ops err sys k) n (sys_clients sys k, sys_service sys) = Some ((c', s'), ok) \<Longrightarrow>
    system_step K ops ce fsys sys ((advance s' sys)\<lparr>sys_clients := (sys_clients sys)(k := c')\<rparr>)"
| destroy: "k \<in> K \<Longrightarrow> info_of (c_callbacks (sys_clients sys k)) n \<noteq> None \<Longrightarrow>
    DestroyTimer_client (ce k) (service_for ops err sys k) n (sys_clients sys k, sys_service sys) = Some ((c', s'), ok) \<Longrightarrow>
    system_step K ops ce fsys sys ((advance s' sys)\<lparr>sys_clients := (sys_clients sys)(k := c')\<rparr>)"
| notify: "k \<in> K \<Longrightarrow> (k, n) \<in># sys_mail sys \<Longrightarrow>
    NotifyTimer_proxy ops (OnRemoteRequest_callback ops NotifyTimer_callback) True n (c_callbacks (sys_clients sys k)) = Some cb \<Longrightarrow>
    system_step K ops ce fsys sys
      (sys\<lparr>sys_clients := (sys_clients sys)(k := sys_clients sys k\<lparr>c_callbacks := cb\<rparr>), sys_mail := sys_mail sys - {#(k, n)#}\<rparr>)"
| die: "new_process e' s' \<Longrightarrow>
    system_step K ops ce fsys sys
      (sys\<lparr>sys_env := e', sys_service := s', sys_dead := {k. timeServiceProxy (sys_clients sys k)},
        sys_lost := \<lambda>k. dom (info_of (c_callbacks (sys_clients sys k)))\<rparr>)"
| told: "k \<in> K \<Longrightarrow>
    system_step K ops ce fsys sys
      (sys\<lparr>sys_clients := (sys_clients sys)(k := OnRemoteDied (ce k) (sys_clients sys k)), sys_dead := sys_dead sys - {k}\<rparr>)"

inductive system_reachable ::
  "nat set \<Rightarrow> 'p parcel_ops \<Rightarrow> (nat \<Rightarrow> client_env) \<Rightarrow> 'fs file_system \<Rightarrow> system \<Rightarrow> bool"
  for K ops ce fsys where
  init: "new_process e s \<Longrightarrow>
    system_reachable K ops ce fsys
      \<lparr>sys_env = e, sys_service = s, sys_clients = (\<lambda>_. TimeServiceClient), sys_mail = {#}, sys_dead = {}, sys_lost = (\<lambda>_. {})\<rparr>"
| step: "system_reachable K ops ce fsys sys \<Longrightarrow> system_step K ops ce fsys sys sys' \<Longrightarrow> system_reachable K ops ce fsys sys'"

text \<open>A client has its own callback object, or none.\<close>

definition own_objects :: "(nat \<Rightarrow> client_env) \<Rightarrow> bool" where
  "own_objects ce \<longleftrightarrow> (\<forall>k t ob. ce_object (ce k) t = Some ob \<longrightarrow> ob = k)"

lemma new_process_empty: "new_process e s \<Longrightarrow> s_manager s = None"
  by (auto simp: new_process_def TimeService_def split: option.splits)

lemma OnRemoteDied_callbacks [simp]: "c_callbacks (OnRemoteDied ce c) = c_callbacks c"
  by (auto simp: OnRemoteDied_def OnRemoteSaDied_def ConnectService_def Let_def)

text \<open>Requests to a dead object: nothing happens, and the client is told so.\<close>

lemma dead_request:
  obtains "request ops (dead_remote err) code args s = None"
  | "request ops (dead_remote err) code args s = Some (Some (s, p_new ops, E_OTHER err))"
  by (cases "write_items ops (P_token ITimeService_descriptor # args) (p_new ops)")
    (simp_all add: request_def dead_remote_def del: write_items.simps)

lemma dead_calls:
  "it_CreateTimer (TimeServiceProxy ops (dead_remote err)) type repeat interval obj s = Some (s, 0)"
  "it_StartTimer (TimeServiceProxy ops (dead_remote err)) n t s = Some (s, False)"
  "it_StopTimer (TimeServiceProxy ops (dead_remote err)) n s = Some (s, False)"
  "it_DestroyTimer (TimeServiceProxy ops (dead_remote err)) n s = Some (s, False)"
proof -
  have "bool_of s (request ops (dead_remote err) code args s) = Some (s, False)" for code args
    by (rule dead_request [of ops err code args s]) (simp_all add: bool_of_def)
  then show "it_StartTimer (TimeServiceProxy ops (dead_remote err)) n t s = Some (s, False)"
    "it_StopTimer (TimeServiceProxy ops (dead_remote err)) n s = Some (s, False)"
    "it_DestroyTimer (TimeServiceProxy ops (dead_remote err)) n s = Some (s, False)"
    by (simp_all add: TimeServiceProxy_def StartTimer_proxy_def StopTimer_proxy_def DestroyTimer_proxy_def)
  show "it_CreateTimer (TimeServiceProxy ops (dead_remote err)) type repeat interval obj s = Some (s, 0)"
    by (rule dead_request [of ops err CREATE_TIMER "[P_int32 (sint type), P_bool repeat, P_uint64 interval, P_remote obj]" s])
      (simp_all add: TimeServiceProxy_def CreateTimer_proxy_def)
qed

section \<open>The two tables of a timer\<close>

text \<open>
  A client's entry for a number, and the service's for the number and the client's object: the service has
  the timer that the client asked for.
\<close>

definition made_for :: "nat \<Rightarrow> u64 \<Rightarrow> itimer_info \<Rightarrow> timer_entry \<Rightarrow> bool" where
  "made_for k n info t \<longleftrightarrow> t = entry_for (ii_type info) (ii_repeat info) (ii_interval info) k (te_uid t) n"

definition tables_agree :: "nat \<Rightarrow> u64 set \<Rightarrow> client \<Rightarrow> time_service \<Rightarrow> bool" where
  "tables_agree k lost c s \<longleftrightarrow>
     (\<forall>n. n \<notin> lost \<longrightarrow> rel_option (made_for k n) (info_of (c_callbacks c) n) (timers_of k s n))"

text \<open>A number that was lost: the client still has it, and the service has nothing of it.\<close>

definition lost_stay :: "u64 set \<Rightarrow> client \<Rightarrow> time_service \<Rightarrow> bool" where
  "lost_stay lost c s \<longleftrightarrow> (\<forall>n \<in> lost. info_of (c_callbacks c) n \<noteq> None \<and> absent n s)"

lemma agree_registered:
  assumes "tables_agree k lost c s" "n \<notin> lost"
  shows "info_of (c_callbacks c) n = None \<longleftrightarrow> timers_of k s n = None"
  using assms(1) [unfolded tables_agree_def, rule_format, OF assms(2)]
  by (cases "info_of (c_callbacks c) n"; cases "timers_of k s n") simp_all

lemma drawn_number: "CreateTimer_service e type repeat interval obj s = Some (s', n) \<Longrightarrow> n \<noteq> 0 \<Longrightarrow> next_number e s = Some n"
proof -
  assume create: "CreateTimer_service e type repeat interval obj s = Some (s', n)" and n: "n \<noteq> 0"
  then obtain ob where ob: "obj = Some ob" "e_iface_cast e ob"
    by (auto simp: CreateTimer_service_def INVALID_TIMER_ID_def Let_def split: option.splits if_splits)
  let ?s0 = "report_creation e (e_uid e (s_now s)) type interval (after 1 s)"
  obtain s1 mo where g: "get_manager e ?s0 = (s1, mo)" by (cases "get_manager e ?s0")
  then obtain m where m: "mo = Some m"
    using create n ob by (cases mo) (auto simp: CreateTimer_service_def INVALID_TIMER_ID_def Let_def)
  have "randomPos m = (case s_manager s of None \<Rightarrow> 0 | Some m \<Rightarrow> randomPos m)"
    using g m get_manager_new [of ?s0 e] get_manager_state [of e ?s0]
    by (cases "s_manager s") (auto simp: get_manager_def TimerManager_def split: option.splits prod.splits)
  then show "next_number e s = Some n"
    using create ob g m by (auto simp: next_number_def CreateTimer_service_def CreateTimer_def Let_def split: option.splits)
qed

text \<open>What a client's calls do to both tables.\<close>

lemma client_create_cases:
  assumes "parcel_documented ops contents" "parcel_room ops"
    and "CreateTimer_client ce (service_for ops err sys k) (Some info) (c, s) = Some ((c', s'), n)"
  obtains (none) "s' = s" "c_callbacks c' = c_callbacks c"
  | (call) t ob n' where "ce_object ce t = Some ob"
      "CreateTimer_service (sys_env sys) (ii_type info) (ii_repeat info) (ii_interval info) (Some ob) s = Some (s', n')"
      "c_callbacks c' = (if n' = 0 then c_callbacks c else fst (InsertTimerCallbackInfo n' (Some info) (c_callbacks c)))"
proof (cases "timeServiceProxy (connected ce c) \<and> ce_object ce (c_now (connected ce c)) \<noteq> None \<and> k \<notin> sys_dead sys")
  case False
  then show thesis
    using assms(3)
    by (intro that(1))
      (auto simp: CreateTimer_client_def with_service_def service_for_def dead_calls Let_def split: if_splits)
next
  case True
  then obtain ob where ob: "ce_object ce (c_now (connected ce c)) = Some ob" by blast
  let ?create = "CreateTimer_service (sys_env sys) (ii_type info) (ii_repeat info) (ii_interval info) (Some ob) s"
  note defs = CreateTimer_client_def with_service_def service_for_def remote_service_eq [OF assms(1,2)] guarded_def
    TimeService_interface_def
  obtain s1 n' where c: "?create = Some (s1, n')"
    using assms(3) True ob by (cases ?create) (auto simp: defs Let_def)
  show thesis
    by (rule that(2) [OF ob, of n']) (use assms(3) True ob c in \<open>auto simp: defs Let_def split: if_splits prod.splits\<close>)
qed

lemma client_destroy_cases:
  assumes "parcel_documented ops contents" "parcel_room ops"
    and "DestroyTimer_client ce (service_for ops err sys k) n (c, s) = Some ((c', s'), ok)"
  obtains (none) "s' = s" "c_callbacks c' = c_callbacks c" "\<not> ok"
  | (call) "DestroyTimer_service (sys_env sys) n s = (s', ok)"
  using assms(3)
  by (cases "DestroyTimer_service (sys_env sys) n s")
    (auto simp: DestroyTimer_client_def with_service_def service_for_def dead_calls remote_service_eq [OF assms(1,2)]
      guarded_def TimeService_interface_def Let_def split: if_splits)

lemma client_start_stop:
  assumes "parcel_documented ops contents" "parcel_room ops"
  shows "StartTimer_client ce (service_for ops err sys k) n t (c, s) = Some ((c', s'), ok) \<Longrightarrow>
      c_callbacks c' = c_callbacks c \<and> (s' = s \<and> \<not> ok \<or> (s', ok) = StartTimer_service (sys_env sys) n t s)"
    and "StopTimer_client ce (service_for ops err sys k) n (c, s) = Some ((c', s'), ok) \<Longrightarrow>
      c_callbacks c' = c_callbacks c \<and> (s' = s \<and> \<not> ok \<or> (s', ok) = StopTimer_service (sys_env sys) n s)"
  by (auto simp: StartTimer_client_def StopTimer_client_def with_service_def service_for_def dead_calls
      remote_service_eq [OF assms] guarded_def TimeService_interface_def Let_def split: if_splits prod.splits)

text \<open>A creation: both tables get the timer, or neither; the tables of other clients stay.\<close>

lemma agree_create:
  assumes "tables_agree k lost c s" "CreateTimer_service e type repeat interval (Some k) s = Some (s', n)"
    and "n \<noteq> 0 \<Longrightarrow> service_timer s n = None \<and> info_of (c_callbacks c) n = None"
    and "type = ii_type info" "repeat = ii_repeat info" "interval = ii_interval info"
    and "c_callbacks c' = (if n = 0 then c_callbacks c else fst (InsertTimerCallbackInfo n (Some info) (c_callbacks c)))"
  shows "tables_agree k lost c' s'"
proof (cases "n = 0")
  case True
  then have "timers_of k s' = timers_of k s"
    using service_create_timers [OF assms(2)] by (intro timers_of_cong) auto
  then show ?thesis using assms(1,7) True by (simp add: tables_agree_def)
next
  case False
  then have free: "service_timer s n = None" "info_of (c_callbacks c) n = None" using assms(3) by auto
  then have "service_timer s' = (service_timer s)(n \<mapsto> entry_for type repeat interval k (e_uid e (s_now s)) n)"
    using service_create_timers [OF assms(2)] False by auto
  then have s': "timers_of k s' = (timers_of k s)(n \<mapsto> entry_for type repeat interval k (e_uid e (s_now s)) n)"
    by (simp add: timers_of_def fun_eq_iff)
  have c': "info_of (c_callbacks c') = (info_of (c_callbacks c))(n \<mapsto> info)"
    using callbacks.lookup_register [of n info "c_callbacks c"] assms(7) False free(2) by simp
  show ?thesis
    using assms(1) by (auto simp: tables_agree_def s' c' made_for_def assms(4-6) entry_for_def Let_def)
qed

lemma others_create:
  assumes "CreateTimer_service e type repeat interval (Some k) s = Some (s', n)" "j \<noteq> k"
  shows "timers_of j s' = timers_of j s"
  using service_create_timers [OF assms(1)] assms(2) by (auto simp: timers_of_def)

lemma agree_destroy:
  assumes "tables_agree k lost c s" "lost_stay lost c s" "info_of (c_callbacks c) n \<noteq> None"
    and "DestroyTimer_service e n s = (s', ok)"
    and "info_of (c_callbacks c') = (if ok then (info_of (c_callbacks c))(n := None) else info_of (c_callbacks c))"
  shows "tables_agree k lost c' s' \<and> (\<forall>j. j \<noteq> k \<longrightarrow> timers_of j s' = timers_of j s)"
proof -
  have s': "timers_of j s' = (timers_of j s)(n := None)" for j
    using destroy_timers [of j e n s] assms(4) by simp
  show ?thesis
  proof (cases "n \<in> lost")
    case True
    then have "service_timer s n = None" using assms(2) by (auto simp: lost_stay_def absent_unregistered)
    then have "timers_of j s n = None" "\<not> ok" for j
      using service_destroy [of e n s] assms(4) by (simp_all add: timers_of_def)
    then show ?thesis using assms(1,5) by (simp add: tables_agree_def s' fun_upd_idem)
  next
    case False
    then have "timers_of k s n \<noteq> None"
      using agree_registered [OF assms(1), of n] assms(3) by simp
    then obtain t where t: "service_timer s n = Some t" "te_callback t = Some (Notify_Remote k)"
      by (auto simp: timers_of_def split: option.splits if_splits)
    then have ok using service_destroy [of e n s] assms(4) by simp
    have "timers_of j s n = None" if "j \<noteq> k" for j using that t by (simp add: timers_of_def)
    then have "\<forall>j. j \<noteq> k \<longrightarrow> timers_of j s' = timers_of j s" by (simp add: s' fun_upd_idem)
    moreover have "tables_agree k lost c' s'" using assms(1) by (simp add: tables_agree_def s' assms(5) \<open>ok\<close>)
    ultimately show ?thesis by blast
  qed
qed

section \<open>The service inside the system\<close>



lemma mailed_same [simp]: "mailed s s = {#}"
  by (simp add: mailed_def List.map_filter_def)

text \<open>Calls with other numbers send nothing with the number \<open>n\<close>.\<close>

lemma mailed_others: "calls_made s' = calls_made s @ new \<Longrightarrow> \<forall>c \<in> set new. snd c \<noteq> n \<Longrightarrow> (k, n) \<notin># mailed s s'"
proof -
  have "snd c = i" if "remote_call c = Some (j, i)" for c j i
    using that by (cases c rule: remote_call.cases) simp_all
  then show "calls_made s' = calls_made s @ new \<Longrightarrow> \<forall>c \<in> set new. snd c \<noteq> n \<Longrightarrow> (k, n) \<notin># mailed s s'"
    by (auto simp: mailed_def List.map_filter_def)
qed

text \<open>
  What a step does to the service: it takes a step of \<open>Process\<close>, or none, and a new timer has a number that
  was not in use; what it calls is sent; or it is a new process.
\<close>

lemma step_service:
  assumes "parcel_documented ops contents" "parcel_room ops" "system_step K ops ce fsys sys sys'"
  obtains (on) "sys_env sys' = sys_env sys" "sys_lost sys' = sys_lost sys"
    "sys_service sys' = sys_service sys \<or> process_step (sys_env sys) fsys (sys_service sys) (sys_service sys')"
    "\<And>n. service_timer (sys_service sys') n \<noteq> None \<Longrightarrow> service_timer (sys_service sys) n \<noteq> None \<or> unused K sys n"
    "sys_mail sys' \<subseteq># sys_mail sys + mailed (sys_service sys) (sys_service sys')"
  | (new) "new_process (sys_env sys') (sys_service sys')" "sys_clients sys' = sys_clients sys" "sys_mail sys' = sys_mail sys"
    "sys_lost sys' = (\<lambda>k. dom (info_of (c_callbacks (sys_clients sys k))))"
  using assms(3)
proof (cases rule: system_step.cases)
  case (service s')
  then show thesis by (intro that(1)) (simp_all add: advance_def)
next
  case (create k err info c' s' n)
  show thesis
    using assms(1,2) create(5)
  proof (cases rule: client_create_cases)
    case none
    then show thesis by (intro that(1)) (simp_all add: create(1) advance_def)
  next
    case (call t ob n')
    have "unused K sys n'" if "n' \<noteq> 0"
      using drawn_number [OF call(2) that] create(4) by (simp add: fresh_number_def)
    then show thesis
      using process_step.create [OF create(3) call(2), of fsys] service_create_timers [OF call(2)]
      by (intro that(1)) (auto simp: create(1) advance_def split: if_splits)
  qed
next
  case (start k err n time c' s' ok)
  then show thesis
    using client_start_stop(1) [OF assms(1,2) start(3)] process_step.start [of "sys_env sys" fsys "sys_service sys" n time]
      service_start [of "sys_env sys" n time "sys_service sys"]
    by (intro that(1); cases "StartTimer_service (sys_env sys) n time (sys_service sys)") (auto simp: advance_def)
next
  case (stop k err n c' s' ok)
  then show thesis
    using client_start_stop(2) [OF assms(1,2) stop(3)] process_step.stop [of "sys_env sys" fsys "sys_service sys" n]
      service_stop [of "sys_env sys" n "sys_service sys"]
    by (intro that(1); cases "StopTimer_service (sys_env sys) n (sys_service sys)") (auto simp: advance_def)
next
  case (destroy k n err c' s' ok)
  show thesis
    using assms(1,2) destroy(4)
  proof (cases rule: client_destroy_cases)
    case none
    then show thesis by (intro that(1)) (simp_all add: destroy(1) advance_def)
  next
    case call
    then show thesis
      using process_step.destroy [of "sys_env sys" fsys "sys_service sys" n] service_destroy [of "sys_env sys" n "sys_service sys"]
      by (intro that(1)) (auto simp: destroy(1) advance_def split: if_splits)
  qed
next
  case (notify k n cb)
  then show thesis by (intro that(1)) simp_all
next
  case (die e' s')
  then show thesis by (intro that(2)) simp_all
next
  case (told k)
  then show thesis by (intro that(1)) simp_all
qed

lemma system_service:
  assumes "parcel_documented ops contents" "parcel_room ops" "system_reachable K ops ce fsys sys"
  shows "process_reachable (sys_env sys) fsys (sys_service sys) \<and> valid_sort ti_whenElapsed (w_sort (e_world (sys_env sys)))"
  using assms(3)
proof induction
  case (init e s)
  then show ?case by (auto simp: new_process_def intro: process_reachable.init)
next
  case (step sys sys')
  show ?case
    using assms(1,2) step.hyps(2)
  proof (cases rule: step_service)
    case on
    then show ?thesis using step.IH by (auto intro: process_reachable.step)
  next
    case new
    then show ?thesis by (auto simp: new_process_def intro: process_reachable.init)
  qed
qed

section \<open>The tables, step by step\<close>

text \<open>What a step does to a client's table: it adds a number that was not in use, or removes one of the service's.\<close>

lemma step_entries:
  assumes "parcel_documented ops contents" "parcel_room ops" "system_step K ops ce fsys sys sys'"
  obtains (same) "info_of (c_callbacks (sys_clients sys' j)) = info_of (c_callbacks (sys_clients sys j))"
  | (added) n info where "unused K sys n" "sys_clients sys' = (sys_clients sys)(j := sys_clients sys' j)"
    "info_of (c_callbacks (sys_clients sys' j)) = (info_of (c_callbacks (sys_clients sys j)))(n \<mapsto> info)"
  | (removed) n where "service_timer (sys_service sys) n \<noteq> None"
    "info_of (c_callbacks (sys_clients sys' j)) = (info_of (c_callbacks (sys_clients sys j)))(n := None)"
  using assms(3)
proof (cases rule: system_step.cases)
  case (service s')
  then show thesis by (intro that(1)) (simp add: advance_def)
next
  case (create k err info c' s' n)
  show thesis
    using assms(1,2) create(5)
  proof (cases rule: client_create_cases)
    case none
    then show thesis by (intro that(1)) (simp add: create(1) advance_def)
  next
    case (call t ob n')
    show thesis
    proof (cases "j = k \<and> n' \<noteq> 0")
      case True
      then have u: "unused K sys n'"
        using drawn_number [OF call(2)] create(4) by (simp add: fresh_number_def)
      then have "info_of (c_callbacks (sys_clients sys k)) n' = None" using create(2) by (simp add: unused_def)
      then show thesis
        using True u call(3) callbacks.lookup_register [of n' info "c_callbacks (sys_clients sys k)"]
        by (intro that(2) [of n' info]) (simp_all add: create(1) advance_def)
    qed (intro that(1), use call(3) in \<open>auto simp: create(1) advance_def\<close>)
  qed
next
  case (start k err n time c' s' ok)
  then show thesis
    using client_start_stop(1) [OF assms(1,2) start(3)] by (intro that(1)) (simp add: advance_def)
next
  case (stop k err n c' s' ok)
  then show thesis
    using client_start_stop(2) [OF assms(1,2) stop(3)] by (intro that(1)) (simp add: advance_def)
next
  case (destroy k n err c' s' ok)
  note table = DestroyTimer_client_table [OF destroy(4)]
  show thesis
  proof (cases "j = k \<and> ok")
    case True
    have "service_timer (sys_service sys) n \<noteq> None"
      using assms(1,2) destroy(4) True
      by (cases rule: client_destroy_cases) (use service_destroy [of "sys_env sys" n "sys_service sys"] in auto)
    then show thesis using True table by (intro that(3) [of n]) (simp_all add: destroy(1) advance_def)
  qed (intro that(1), use table in \<open>auto simp: destroy(1) advance_def\<close>)
next
  case (notify k n cb)
  have "cb = NotifyTimer_callback n (c_callbacks (sys_clients sys k))"
    using notify(4) notification_arrives [OF assms(1,2), of NotifyTimer_callback n] by simp
  then show thesis by (intro that(1)) (simp add: notify(1))
next
  case (die e' s')
  then show thesis by (intro that(1)) simp
next
  case (told k)
  then show thesis by (intro that(1)) simp
qed

text \<open>The numbers that are lost stay with the client, and out of use.\<close>

lemma step_lost:
  assumes "parcel_documented ops contents" "parcel_room ops" "system_reachable K ops ce fsys sys"
    and step: "system_step K ops ce fsys sys sys'" and "k \<in> K"
    and lost: "lost_stay (sys_lost sys k) (sys_clients sys k) (sys_service sys)"
  shows "lost_stay (sys_lost sys' k) (sys_clients sys' k) (sys_service sys') \<and> sys_lost sys k \<subseteq> sys_lost sys' k \<and>
    (\<forall>n \<in> sys_lost sys k. count (sys_mail sys') (k, n) \<le> count (sys_mail sys) (k, n))"
  using assms(1,2) step
proof (cases rule: step_service)
  case new
  then show ?thesis
    using lost new_process_empty by (auto simp: lost_stay_def absent_def dest: new_process_empty)
next
  case on
  note sys = system_service [OF assms(1-3)]
  have "info_of (c_callbacks (sys_clients sys' k)) n \<noteq> None \<and> absent n (sys_service sys') \<and>
      count (sys_mail sys') (k, n) \<le> count (sys_mail sys) (k, n)" if n: "n \<in> sys_lost sys k" for n
  proof -
    have info: "info_of (c_callbacks (sys_clients sys k)) n \<noteq> None" and gone: "absent n (sys_service sys)"
      using lost n by (auto simp: lost_stay_def)
    have "info_of (c_callbacks (sys_clients sys' k)) n \<noteq> None"
      using assms(1,2) step
      by (cases rule: step_entries [where j = k]) (use info absent_unregistered [OF gone] in auto)
    moreover have "service_timer (sys_service sys') n = None"
      using on(4) [of n] absent_unregistered [OF gone] info assms(5)
      by (cases "service_timer (sys_service sys') n") (auto simp: unused_def)
    then have "absent n (sys_service sys') \<and> (k, n) \<notin># mailed (sys_service sys) (sys_service sys')"
      using on(3) gone process_step_absent [OF _ conjunct1 [OF sys] conjunct2 [OF sys] gone]
      by (auto dest: mailed_others)
    moreover from this have "count (sys_mail sys') (k, n) \<le> count (sys_mail sys) (k, n)"
      using mset_subset_eq_count [OF on(5), of "(k, n)"] by (simp add: not_in_iff)
    ultimately show ?thesis by blast
  qed
  then show ?thesis by (simp add: on(2) lost_stay_def)
qed

text \<open>No two clients have the same number.\<close>

definition apart :: "nat set \<Rightarrow> system \<Rightarrow> bool" where
  "apart K sys \<longleftrightarrow> (\<forall>j \<in> K. \<forall>k \<in> K. j \<noteq> k \<longrightarrow>
     dom (info_of (c_callbacks (sys_clients sys j))) \<inter> dom (info_of (c_callbacks (sys_clients sys k))) = {})"

lemma step_apart:
  assumes "parcel_documented ops contents" "parcel_room ops" and step: "system_step K ops ce fsys sys sys'"
    and "apart K sys"
  shows "apart K sys'"
  unfolding apart_def
proof (intro ballI impI)
  let ?d = "\<lambda>sys j. dom (info_of (c_callbacks (sys_clients sys j)))"
  fix j k assume jk: "j \<in> K" "k \<in> K" "j \<noteq> k"
  then have old: "?d sys j \<inter> ?d sys k = {}" using assms(4) by (simp add: apart_def)
  have grow: "?d sys' i \<subseteq> ?d sys i \<or> (\<exists>n. unused K sys n \<and> ?d sys' i \<subseteq> insert n (?d sys i) \<and>
      (\<forall>l. l \<noteq> i \<longrightarrow> sys_clients sys' l = sys_clients sys l))" for i
    using assms(1,2) step
  proof (cases rule: step_entries [where j = i])
    case (added n info)
    then have "\<forall>l. l \<noteq> i \<longrightarrow> sys_clients sys' l = sys_clients sys l" by (metis fun_upd_other)
    with added show ?thesis by (intro disjI2 exI [of _ n]) auto
  qed auto
  have new: "n \<notin> ?d sys j" "n \<notin> ?d sys k" if "unused K sys n" for n
    using that jk by (auto simp: unused_def)
  show "?d sys' j \<inter> ?d sys' k = {}"
    using grow [of j]
  proof
    assume j: "?d sys' j \<subseteq> ?d sys j"
    from grow [of k] show ?thesis
    proof
      assume "?d sys' k \<subseteq> ?d sys k"
      with j old show ?thesis by blast
    next
      assume "\<exists>n. unused K sys n \<and> ?d sys' k \<subseteq> insert n (?d sys k) \<and> (\<forall>l. l \<noteq> k \<longrightarrow> sys_clients sys' l = sys_clients sys l)"
      then obtain n where "unused K sys n" "?d sys' k \<subseteq> insert n (?d sys k)" by blast
      with j old new(1) show ?thesis by blast
    qed
  next
    assume "\<exists>n. unused K sys n \<and> ?d sys' j \<subseteq> insert n (?d sys j) \<and> (\<forall>l. l \<noteq> j \<longrightarrow> sys_clients sys' l = sys_clients sys l)"
    then obtain n where "unused K sys n" "?d sys' j \<subseteq> insert n (?d sys j)" "sys_clients sys' k = sys_clients sys k"
      using jk(3) by (metis (full_types))
    moreover from this(3) have "?d sys' k = ?d sys k" by simp
    ultimately show ?thesis using old new(2) [of n] by blast
  qed
qed

text \<open>Apart from the numbers that are lost the two tables agree.\<close>

lemma step_agree:
  assumes "parcel_documented ops contents" "parcel_room ops" "own_objects ce" and step: "system_step K ops ce fsys sys sys'"
    and agree: "\<forall>k \<in> K. tables_agree k (sys_lost sys k) (sys_clients sys k) (sys_service sys)"
    and lost: "\<forall>k \<in> K. lost_stay (sys_lost sys k) (sys_clients sys k) (sys_service sys)"
  shows "\<forall>k \<in> K. tables_agree k (sys_lost sys' k) (sys_clients sys' k) (sys_service sys')"
proof -
  have same: "tables_agree j l c' s'" if "tables_agree j l c s" "c_callbacks c' = c_callbacks c" "timers_of j s' = timers_of j s"
    for j l c c' s s' using that by (simp add: tables_agree_def)
  show ?thesis
    using step
  proof (cases rule: system_step.cases)
    case (service s')
    then show ?thesis using agree by (auto simp: advance_def tables_agree_def)
  next
    case (create k err info c' s' n)
    show ?thesis
      using assms(1,2) create(5)
    proof (cases rule: client_create_cases)
      case none
      then show ?thesis using agree by (auto simp: create(1) advance_def intro: same)
    next
      case (call t ob n')
      have "ob = k" using call(1) assms(3) by (auto simp: own_objects_def)
      note made = call(2) [unfolded this]
      have "service_timer (sys_service sys) n' = None \<and> info_of (c_callbacks (sys_clients sys k)) n' = None" if "n' \<noteq> 0"
        using drawn_number [OF made that] create(2,4) by (auto simp: fresh_number_def unused_def)
      then have "tables_agree k (sys_lost sys k) c' s'"
        using agree create(2) by (intro agree_create [OF _ made _ refl refl refl call(3)]) auto
      then show ?thesis
        using agree others_create [OF made] by (auto simp: create(1) advance_def intro: same)
    qed
  next
    case (start k err n time c' s' ok)
    have "timers_of j s' = timers_of j (sys_service sys)" for j
      using client_start_stop(1) [OF assms(1,2) start(3)] start_timers [of j "sys_env sys" n time "sys_service sys"] by (metis fst_conv)
    then show ?thesis
      using agree client_start_stop(1) [OF assms(1,2) start(3)] by (auto simp: start(1) advance_def intro: same)
  next
    case (stop k err n c' s' ok)
    have "timers_of j s' = timers_of j (sys_service sys)" for j
      using client_start_stop(2) [OF assms(1,2) stop(3)]
        timers_of_cong [of "fst (StopTimer_service (sys_env sys) n (sys_service sys))"] by (metis fst_conv service_stop)
    then show ?thesis
      using agree client_start_stop(2) [OF assms(1,2) stop(3)] by (auto simp: stop(1) advance_def intro: same)
  next
    case (destroy k n err c' s' ok)
    show ?thesis
      using assms(1,2) destroy(4)
    proof (cases rule: client_destroy_cases)
      case none
      then show ?thesis using agree by (auto simp: destroy(1) advance_def intro: same)
    next
      case call
      have "tables_agree k (sys_lost sys k) c' s' \<and> (\<forall>j. j \<noteq> k \<longrightarrow> timers_of j s' = timers_of j (sys_service sys))"
        using agree lost destroy(2,3)
        by (intro agree_destroy [OF _ _ _ call DestroyTimer_client_table [OF destroy(4)]]) auto
      then show ?thesis using agree by (auto simp: destroy(1) advance_def intro: same)
    qed
  next
    case (notify k n cb)
    have "cb = NotifyTimer_callback n (c_callbacks (sys_clients sys k))"
      using notify(4) notification_arrives [OF assms(1,2), of NotifyTimer_callback n] by simp
    then show ?thesis using agree by (auto simp: notify(1) tables_agree_def)
  next
    case (die e' s')
    then show ?thesis
      using new_process_empty
      by (auto simp: tables_agree_def timers_of_def service_timer_def dom_def dest: new_process_empty)
  next
    case (told k)
    then show ?thesis using agree by (auto simp: tables_agree_def)
  qed
qed

lemma new_process_agrees: "new_process e s \<Longrightarrow> tables_agree k l TimeServiceClient s"
  by (auto simp: tables_agree_def TimeServiceClient_def TimerCallback_def info_of_def map_find_def
      timers_of_def service_timer_def dest: new_process_empty)

text \<open>In every state of the system:\<close>

lemma reachable_tables:
  assumes "parcel_documented ops contents" "parcel_room ops" "own_objects ce" "system_reachable K ops ce fsys sys"
  shows "(\<forall>k \<in> K. tables_agree k (sys_lost sys k) (sys_clients sys k) (sys_service sys) \<and>
      lost_stay (sys_lost sys k) (sys_clients sys k) (sys_service sys)) \<and> apart K sys"
  using assms(4)
proof induction
  case (init e s)
  have "dom (info_of (c_callbacks TimeServiceClient)) = {}"
    by (simp add: TimeServiceClient_def TimerCallback_def info_of_def map_find_def)
  with init show ?case by (simp add: new_process_agrees lost_stay_def apart_def)
next
  case (step sys sys')
  then show ?case
    using step_agree [OF assms(1-3) step.hyps(2)] step_lost [OF assms(1,2) step.hyps] step_apart [OF assms(1,2) step.hyps(2)]
    by blast
qed

lemmas reachable_agree = reachable_tables [THEN conjunct1, THEN bspec, THEN conjunct1]
lemmas reachable_lost = reachable_tables [THEN conjunct1, THEN bspec, THEN conjunct2]
lemmas reachable_apart = reachable_tables [THEN conjunct2]

end
