(* ===== verification/System_Properties.thy ===== *)
theory System_Properties
  imports Whole_System Timer_Properties
begin

text \<open>
  What the whole system guarantees (\<open>Whole_System\<close>): how the tables of the clients and of the service
  correspond, whom a call reaches, what is left of a timer when the service has died, and the run from a
  client's \<open>StartTimer\<close> to its \<open>OnTrigger\<close>.
\<close>

section \<open>Guarantees\<close>

text \<open>C11. The client's table and the service's agree, in every state of the whole system, however the service
  has died and been started again: a client has a number exactly when the service has a timer under this
  number that calls the client's object, and it is the timer the client asked for, of the type, window,
  repetition and interval of its options; but for the numbers that the client had when a process died, which
  it still has, and the service has not. No two clients have the same number. Creations and destructions go
  through library, parcels, proxy and stub, and anything else happens to the service meanwhile.\<close>

theorem system_tables_agree:
  assumes "parcel_documented ops contents" "parcel_room ops" "own_objects ce"
    and "system_reachable K ops ce fsys sys" "k \<in> K"
  shows "(if n \<in> sys_lost sys k
      then info_of (c_callbacks (sys_clients sys k)) n \<noteq> None \<and> service_timer (sys_service sys) n = None
      else rel_option (made_for k n) (info_of (c_callbacks (sys_clients sys k)) n) (timers_of k (sys_service sys) n)) \<and>
    (\<forall>j \<in> K - {k}. info_of (c_callbacks (sys_clients sys k)) n = None \<or> info_of (c_callbacks (sys_clients sys j)) n = None)"
proof -
  have "info_of (c_callbacks (sys_clients sys k)) n = None \<or> info_of (c_callbacks (sys_clients sys j)) n = None"
    if "j \<in> K - {k}" for j
    using reachable_apart [OF assms(1-4)] assms(5) that by (fastforce simp: apart_def)
  then show ?thesis
    using reachable_agree [OF assms] reachable_lost [OF assms]
    by (auto simp: tables_agree_def lost_stay_def absent_unregistered)
qed

text \<open>What one step lets a client hear.\<close>

lemma step_hears:
  assumes "parcel_documented ops contents" "parcel_room ops" "system_step K ops ce fsys sys sys'"
    and "k \<in> K" "cb_events (c_callbacks (sys_clients sys' k)) \<noteq> cb_events (c_callbacks (sys_clients sys k))"
  shows "\<exists>n info. (k, n) \<in># sys_mail sys \<and> sys_mail sys' = sys_mail sys - {#(k, n)#} \<and>
    info_of (c_callbacks (sys_clients sys k)) n = Some info \<and>
    cb_events (c_callbacks (sys_clients sys' k)) = cb_events (c_callbacks (sys_clients sys k)) @ events_of info"
  using assms(3)
proof (cases rule: system_step.cases)
  case (service s')
  then show ?thesis using assms(5) by (simp add: advance_def)
next
  case (create j err info c' s' n)
  have events: "cb_events (fst (InsertTimerCallbackInfo i x c)) = cb_events c" for i x c
    by (simp add: InsertTimerCallbackInfo_def split: option.split)
  have "cb_events (c_callbacks c') = cb_events (c_callbacks (sys_clients sys j))"
    using assms(1,2) create(5) by (cases rule: client_create_cases) (auto simp: events)
  then show ?thesis using assms(5) by (auto simp: create(1) advance_def split: if_splits)
next
  case (start j err n time c' s' ok)
  then show ?thesis
    using assms(5) client_start_stop(1) [OF assms(1,2) start(3)] by (auto simp: advance_def split: if_splits)
next
  case (stop j err n c' s' ok)
  then show ?thesis
    using assms(5) client_start_stop(2) [OF assms(1,2) stop(3)] by (auto simp: advance_def split: if_splits)
next
  case (destroy j n err c' s' ok)
  have "cb_events (fst (RemoveTimerCallbackInfo i c)) = cb_events c" for i c
    by (simp add: RemoveTimerCallbackInfo_def)
  then have "cb_events (c_callbacks c') = cb_events (c_callbacks (sys_clients sys j))"
    using destroy(4) by (auto simp: DestroyTimer_client_def with_service_def Let_def split: if_splits)
  then show ?thesis using assms(5) by (auto simp: destroy(1) advance_def split: if_splits)
next
  case (notify j n cb)
  have "cb = NotifyTimer_callback n (c_callbacks (sys_clients sys j))"
    using notify(4) notification_arrives [OF assms(1,2), of NotifyTimer_callback n] by simp
  then show ?thesis
    using assms(5) notify by (auto simp: NotifyTimer_events split: if_splits option.splits)
next
  case (die e' s')
  then show ?thesis using assms(5) by simp
next
  case (told j)
  then show ?thesis using assms(5) by (auto split: if_splits)
qed

text \<open>C12. A client hears of its own timers only, and only while it has them: when a step of the system
  runs something in a client, then it is the arrival of one call of the service's that was under way, for
  a number that the client has, and the \<open>OnTrigger\<close> and the want agent of the options it has for it are run,
  once each; and the service has, at this moment, the timer of this client that these options ask for, unless
  the timer was lost when a process of the service died. A call that arrives after the client has
  destroyed the timer runs nothing.\<close>

theorem client_hears_its_own:
  assumes "parcel_documented ops contents" "parcel_room ops" "own_objects ce"
    and "system_reachable K ops ce fsys sys" "system_step K ops ce fsys sys sys'" "k \<in> K"
    and "cb_events (c_callbacks (sys_clients sys' k)) \<noteq> cb_events (c_callbacks (sys_clients sys k))"
  shows "\<exists>n info. (k, n) \<in># sys_mail sys \<and> sys_mail sys' = sys_mail sys - {#(k, n)#} \<and>
    info_of (c_callbacks (sys_clients sys k)) n = Some info \<and>
    (n \<in> sys_lost sys k \<or> (\<exists>t. service_timer (sys_service sys) n = Some t \<and> made_for k n info t)) \<and>
    cb_events (c_callbacks (sys_clients sys' k)) = cb_events (c_callbacks (sys_clients sys k)) @ events_of info"
proof -
  obtain n info where h: "(k, n) \<in># sys_mail sys" "sys_mail sys' = sys_mail sys - {#(k, n)#}"
    "info_of (c_callbacks (sys_clients sys k)) n = Some info"
    "cb_events (c_callbacks (sys_clients sys' k)) = cb_events (c_callbacks (sys_clients sys k)) @ events_of info"
    using step_hears [OF assms(1,2,5-7)] by blast
  have "n \<in> sys_lost sys k \<or> rel_option (made_for k n) (Some info) (timers_of k (sys_service sys) n)"
    using reachable_agree [OF assms(1-4,6)] h(3) by (auto simp: tables_agree_def dest: spec [of _ n])
  then have "n \<in> sys_lost sys k \<or> (\<exists>t. service_timer (sys_service sys) n = Some t \<and> made_for k n info t)"
    by (auto simp: option_rel_Some1 timers_of_def split: option.splits if_splits)
  with h show ?thesis by blast
qed

text \<open>A lost number is refused, by a dead service and by a new one.\<close>

lemma lost_refused:
  assumes "parcel_documented ops contents" "parcel_room ops" "service_timer (sys_service sys) n = None"
  shows "StartTimer_client ce (service_for ops err sys k) n time (c, sys_service sys) \<noteq> Some (cs, True)"
    and "StopTimer_client ce (service_for ops err sys k) n (c, sys_service sys) \<noteq> Some (cs, True)"
    and "DestroyTimer_client ce (service_for ops err sys k) n (c, sys_service sys) \<noteq> Some (cs, True)"
proof -
  obtain c' s' where cs: "cs = (c', s')" by (cases cs)
  note no = service_start [of "sys_env sys" n time "sys_service sys"] service_stop [of "sys_env sys" n "sys_service sys"]
    service_destroy [of "sys_env sys" n "sys_service sys"] assms(3)
  show "StartTimer_client ce (service_for ops err sys k) n time (c, sys_service sys) \<noteq> Some (cs, True)"
    "StopTimer_client ce (service_for ops err sys k) n (c, sys_service sys) \<noteq> Some (cs, True)"
    using no by (auto simp: cs dest!: client_start_stop [OF assms(1,2)] dest: arg_cong [of _ _ snd])
  show "DestroyTimer_client ce (service_for ops err sys k) n (c, sys_service sys) \<noteq> Some (cs, True)"
    using no by (auto simp: cs elim!: client_destroy_cases [OF assms(1,2)] dest: arg_cong [of _ _ snd])
qed

text \<open>C14. What a death of the service leaves behind stays for ever: a number that a client had when a process of the
  service died is, after any further steps of the system, still in the client's table and without a timer in
  the service; the client's \<open>StartTimer\<close>, \<open>StopTimer\<close> and \<open>DestroyTimer\<close> of it are never answered true, through
  the old proxy or a new one, so that the entry cannot be removed; and no further call of it is sent, so that the
  client hears of it as often as calls were under way, at most.\<close>

theorem lost_timers_stay_lost:
  assumes "parcel_documented ops contents" "parcel_room ops" "own_objects ce"
    and "system_reachable K ops ce fsys sys" "(system_step K ops ce fsys)\<^sup>*\<^sup>* sys sys'" "k \<in> K" "n \<in> sys_lost sys k"
  shows "info_of (c_callbacks (sys_clients sys' k)) n \<noteq> None \<and> service_timer (sys_service sys') n = None \<and>
    count (sys_mail sys') (k, n) \<le> count (sys_mail sys) (k, n) \<and>
    (\<nexists>err time cs. StartTimer_client (ce k) (service_for ops err sys' k) n time (sys_clients sys' k, sys_service sys') = Some (cs, True)) \<and>
    (\<nexists>err cs. StopTimer_client (ce k) (service_for ops err sys' k) n (sys_clients sys' k, sys_service sys') = Some (cs, True)) \<and>
    (\<nexists>err cs. DestroyTimer_client (ce k) (service_for ops err sys' k) n (sys_clients sys' k, sys_service sys') = Some (cs, True))"
proof -
  have r: "system_reachable K ops ce fsys sys' \<and> n \<in> sys_lost sys' k \<and>
      count (sys_mail sys') (k, n) \<le> count (sys_mail sys) (k, n)"
    using assms(5)
  proof induction
    case base
    then show ?case using assms(4,7) by simp
  next
    case (step sys1 sys2)
    have "lost_stay (sys_lost sys1 k) (sys_clients sys1 k) (sys_service sys1)"
      using reachable_lost [OF assms(1-3) _ assms(6)] step.IH by blast
    from step_lost [OF assms(1,2) _ step.hyps(2) assms(6) this] step.IH show ?case
      using system_reachable.step [OF _ step.hyps(2)] order_trans by blast
  qed
  then have "lost_stay (sys_lost sys' k) (sys_clients sys' k) (sys_service sys')"
    using reachable_lost [OF assms(1-3) _ assms(6)] by blast
  then have left: "info_of (c_callbacks (sys_clients sys' k)) n \<noteq> None" "service_timer (sys_service sys') n = None"
    using r by (auto simp: lost_stay_def absent_unregistered)
  show ?thesis using r left lost_refused [OF assms(1,2) left(2)] by simp
qed

text \<open>
  Why \<open>unused\<close> is asked of the numbers: the new process draws from an engine seeded with its own time, and when it
  draws a number that the client has lost, the client is answered 0 while the service keeps the new timer,
  whose calls run the old options.
\<close>

lemma lost_number_drawn:
  assumes "parcel_documented ops contents" "parcel_room ops" "timeServiceProxy c" "ce_object ce (c_now c) = Some ob"
    and create: "CreateTimer_service e (ii_type info) (ii_repeat info) (ii_interval info) (Some ob) s = Some (s', n)"
    and "n \<noteq> 0" "info_of (c_callbacks c) n = Some old"
  shows "\<exists>c'. CreateTimer_client ce (remote_service ops e) (Some info) (c, s) = Some ((c', s'), 0) \<and>
    info_of (c_callbacks c') n = Some old \<and> service_timer s' n \<noteq> None"
proof -
  have "service_timer s' n \<noteq> None"
    using service_create_timers [OF create] assms(6) by (cases "service_timer s n") auto
  then show ?thesis
    using assms(3-7) by (simp add: CreateTimer_client_def with_service_def connected_def remote_service_eq [OF assms(1,2)]
        guarded_def TimeService_interface_def InsertTimerCallbackInfo_def info_of_def Let_def)
qed

section \<open>From a client's start to its notification\<close>

lemma map_filter_member: "x \<in> set xs \<Longrightarrow> f x = Some y \<Longrightarrow> y \<in> set (List.map_filter f xs)"
  by (auto simp: List.map_filter_def intro!: image_eqI)

lemma StartTimer_service_manager:
  assumes "StartTimer_service e n time s = (s1, True)" "s_manager s = Some m" "s_manager s1 = Some m1"
  shows "StartTimer (e_world e) n time m = (m1, True)"
  using assms by (auto simp: StartTimer_service_def Let_def split: prod.splits)

text \<open>The run, from the start by the client to the arrival of the call.\<close>

lemma start_to_notification:
  assumes "parcel_documented ops contents" "parcel_room ops" "own_objects ce"
    and "system_reachable K ops ce fsys sys" "k \<in> K" "info_of (c_callbacks (sys_clients sys k)) n = Some info"
    and "sys_env sys = e" "s_manager (sys_service sys) = Some m"
    and "service_timer (sys_service sys) n = Some t" "te_uid t \<notin> proxyUids m"
    and "GetBootTimeNs (e_world e) (ticks m + 1) \<le> ConvertToElapsed (e_world e) (ticks m + 2) (sint time) (te_type t)"
    and "StartTimer_client (ce k) (service_for ops err sys k) n time (sys_clients sys k, sys_service sys) = Some ((c1, s1), True)"
    and "s_manager s1 = Some m1" "result \<noteq> TIME_CHANGED_MASK"
    and "\<forall>b \<in> set (alarmBatches m1). (\<exists>a \<in> set (b_alarms b). ti_id a = n) \<longrightarrow> GetStart b \<le> now"
    and "\<forall>b \<in> set (before n m1). GetStart b \<le> now \<and> (\<forall>a \<in> set (b_alarms b). \<not> repeating a)"
    and "now_ok now" "\<forall>a \<in># scheduled m1. alarm_ok a"
  shows "\<exists>m2 sys1 sys2 sys3. looper_trigger (e_world e) result now m1 = Some m2 \<and>
    system_step K ops ce fsys sys sys1 \<and> sys_service sys1 = s1 \<and>
    system_step K ops ce fsys sys1 sys2 \<and> sys_service sys2 = s1\<lparr>s_manager := Some m2\<rparr> \<and> (k, n) \<in># sys_mail sys2 \<and>
    system_step K ops ce fsys sys2 sys3 \<and> cb_events (c_callbacks (sys_clients sys2 k)) = cb_events (c_callbacks (sys_clients sys k)) \<and>
    cb_events (c_callbacks (sys_clients sys3 k)) = cb_events (c_callbacks (sys_clients sys k)) @ events_of info"
proof -
  have "n \<notin> sys_lost sys k"
    using reachable_lost [OF assms(1-5)] assms(9) by (auto simp: lost_stay_def dest!: absent_unregistered)
  then have "rel_option (made_for k n) (Some info) (timers_of k (sys_service sys) n)"
    using reachable_agree [OF assms(1-5)] assms(6) by (auto simp: tables_agree_def dest: spec [of _ n])
  then have cb: "te_callback t = Some (Notify_Remote k)"
    using assms(9) by (auto simp: option_rel_Some1 timers_of_def split: if_splits)
  note start = client_start_stop(1) [OF assms(1,2,12)]
  have m1: "StartTimer (e_world e) n time m = (m1, True)"
    using start assms(7) by (intro StartTimer_service_manager [OF _ assms(8,13)]) simp
  have entry: "map_find (timerEntryMap m) n = Some t"
    using assms(8,9) by (simp add: service_timer_def registered_timer_def)
  note process = system_service [OF assms(1,2,4), unfolded assms(7)]
  have "reachable (e_world e) m"
    by (rule process_manager_reachable [OF conjunct1 [OF process] assms(8)])
  from started_timer_is_called [OF this conjunct2 [OF process] entry cb assms(10,11) m1 assms(14-18)] obtain m2 new where
    m2: "looper_trigger (e_world e) result now m1 = Some m2" "fired m2 = fired m1 @ new" "(Notify_Remote k, n) \<in> set new"
    by blast
  define sys1 where "sys1 = (advance s1 sys)\<lparr>sys_clients := (sys_clients sys)(k := c1)\<rparr>"
  define s2 where "s2 = s1\<lparr>s_manager := Some m2\<rparr>"
  define sys2 where "sys2 = advance s2 sys1"
  define cb2 where "cb2 = NotifyTimer_callback n (c_callbacks c1)"
  define sys3 where "sys3 = sys2\<lparr>sys_clients := (sys_clients sys2)(k := sys_clients sys2 k\<lparr>c_callbacks := cb2\<rparr>),
    sys_mail := sys_mail sys2 - {#(k, n)#}\<rparr>"
  have step1: "system_step K ops ce fsys sys sys1"
    unfolding sys1_def using assms(5,12) by (rule system_step.start)
  have sel: "sys_service sys1 = s1" "sys_clients sys1 k = c1" "sys_clients sys2 = sys_clients sys1" "sys_service sys2 = s2"
    "sys_env sys1 = e" by (simp_all add: sys1_def sys2_def advance_def assms(7))
  have "timers_of j s2 = timers_of j s1" for j
    using looper_timers(1) [OF m2(1)] assms(13) by (intro timers_of_cong) (simp add: s2_def service_timer_def registered_timer_def)
  then have step2: "system_step K ops ce fsys sys1 sys2"
    unfolding sys2_def using process_step.trigger [OF assms(13) m2(1), of fsys]
    using looper_timers(1) [OF m2(1)] assms(13)
    by (intro system_step.service) (simp_all add: sel s2_def service_timer_def registered_timer_def)
  have "calls_made s2 = calls_made s1 @ new" using assms(13) m2(2) by (simp add: calls_made_def s2_def)
  then have "(k, n) \<in># mailed s1 s2" using map_filter_member [OF m2(3), of remote_call] by (simp add: mailed_def)
  then have mail: "(k, n) \<in># sys_mail sys2" by (simp add: sys2_def advance_def sel)
  have step3: "system_step K ops ce fsys sys2 sys3"
    unfolding sys3_def
    by (rule system_step.notify [OF assms(5) mail]) (simp add: sel cb2_def notification_arrives [OF assms(1,2)])
  have "cb_events (c_callbacks (sys_clients sys2 k)) = cb_events (c_callbacks (sys_clients sys k))"
    using start by (simp add: sel)
  moreover have "cb_events (c_callbacks (sys_clients sys3 k)) = cb_events (c_callbacks (sys_clients sys k)) @ events_of info"
    using start assms(6) by (simp add: sys3_def cb2_def NotifyTimer_events)
  ultimately show ?thesis using m2(1) step1 step2 step3 mail sel(1,4) unfolding s2_def by blast
qed

text \<open>C13. From a client's \<open>StartTimer\<close> to its \<open>OnTrigger\<close>, through both processes: in a reachable state of the
  system, whatever has died before, the client starts one of its timers, repeating or not, of a user that is not
  proxied, for a time that has not passed, and is answered true. The next delivery of the service, when the
  batch that the timer went into has come due, and those before it have come due and hold no repeating alarm,
  within the bounds of \<open>Trigger_terminates\<close>, succeeds and sends the client's object a call with the number, and when this call arrives it runs the
  \<open>OnTrigger\<close>, and the want agent, of the options that the timer was created with.\<close>

theorem started_timer_is_heard:
  assumes "parcel_documented ops contents" "parcel_room ops" "own_objects ce"
    and "system_reachable K ops ce fsys sys" "k \<in> K" "info_of (c_callbacks (sys_clients sys k)) n = Some info"
    and "sys_env sys = e" "s_manager (sys_service sys) = Some m"
    and "service_timer (sys_service sys) n = Some t" "te_uid t \<notin> proxyUids m"
    and "GetBootTimeNs (e_world e) (ticks m + 1) \<le> ConvertToElapsed (e_world e) (ticks m + 2) (sint time) (te_type t)"
    and "StartTimer_client (ce k) (service_for ops err sys k) n time (sys_clients sys k, sys_service sys) = Some ((c1, s1), True)"
    and "s_manager s1 = Some m1" "result \<noteq> TIME_CHANGED_MASK"
    and "\<forall>b \<in> set (alarmBatches m1). (\<exists>a \<in> set (b_alarms b). ti_id a = n) \<longrightarrow> GetStart b \<le> now"
    and "\<forall>b \<in> set (before n m1). GetStart b \<le> now \<and> (\<forall>a \<in> set (b_alarms b). \<not> repeating a)"
    and "now_ok now" "\<forall>a \<in># scheduled m1. alarm_ok a"
  shows "\<exists>m2 sys1 sys2 sys3. looper_trigger (e_world e) result now m1 = Some m2 \<and>
    system_step K ops ce fsys sys sys1 \<and> sys_service sys1 = s1 \<and>
    system_step K ops ce fsys sys1 sys2 \<and> sys_service sys2 = s1\<lparr>s_manager := Some m2\<rparr> \<and> (k, n) \<in># sys_mail sys2 \<and>
    system_step K ops ce fsys sys2 sys3 \<and>
    cb_events (c_callbacks (sys_clients sys3 k)) = cb_events (c_callbacks (sys_clients sys k)) @ events_of info"
  using start_to_notification [OF assms] by blast

section \<open>An example\<close>

text \<open>One client, with the object 1, and a timer on the boot clock that wakes the device, without a window.\<close>

definition sample_envs :: "nat \<Rightarrow> client_env" where
  "sample_envs k = ready_env\<lparr>ce_object := \<lambda>_. Some k\<rparr>"

definition sample_timer :: itimer_info where
  "sample_timer = (ITimerInfo 9)\<lparr>ii_type := 7\<rparr>"

lemma sample_new: "new_process sample_env sample_service"
  unfolding new_process_def using sample_service_made by (intro conjI exI) (simp_all add: valid_sort_sort_key)

lemma sample_own: "own_objects sample_envs"
  by (simp add: own_objects_def sample_envs_def)

lemma sample_client_creates:
  obtains c s where "CreateTimer_client (sample_envs 1) (remote_service list_parcel sample_env) (Some sample_timer)
      (TimeServiceClient, sample_service) = Some ((c, s), 1)"
    "s_manager s = Some created_state" "timeServiceProxy c" "c_callbacks c = \<lparr>TimerInfoMap = [(1, sample_timer)], cb_events = []\<rparr>"
proof -
  let ?s0 = "report_creation sample_env 100 7 0 (after 1 sample_service)"
  have "snd (get_manager sample_env ?s0) = Some TimerManager" by (rule sample_gets_manager) simp
  then obtain s1 where g: "get_manager sample_env ?s0 = (s1, Some TimerManager)" by (cases "get_manager sample_env ?s0") simp
  have u: "e_uid sample_env t = 100" for t by (simp add: sample_env_def)
  have p: "PaserTimerPara 7 False 0 = \<lparr>tp_timerType = ELAPSED_REALTIME_WAKEUP, tp_windowLength = 0, tp_interval = 0, tp_flag = 0\<rparr>"
    by (simp add: PaserTimerPara_def TIMER_TYPE_REALTIME_MASK_def TIMER_TYPE_REALTIME_WAKEUP_MASK_def TIMER_TYPE_EXACT_MASK_def)
  have "CreateTimer_service sample_env 7 False 0 (Some 1) sample_service = Some (s1\<lparr>s_manager := Some created_state\<rparr>, 1)"
    using g CreateTimer_sample by (simp add: CreateTimer_service_def u p Let_def)
  then have "\<exists>c. CreateTimer_client (sample_envs 1) (remote_service list_parcel sample_env) (Some sample_timer)
      (TimeServiceClient, sample_service) = Some ((c, s1\<lparr>s_manager := Some created_state\<rparr>), 1) \<and> timeServiceProxy c \<and>
      c_callbacks c = \<lparr>TimerInfoMap = [(1, sample_timer)], cb_events = []\<rparr>"
    by (simp add: CreateTimer_client_def with_service_def connected_def ConnectService_def sample_envs_def ready_env_def
        TimeServiceClient_def sample_timer_def ITimerInfo_def remote_service_eq [OF list_parcel_ok] guarded_def
        TimeService_interface_def InsertTimerCallbackInfo_def TimerCallback_def Let_def)
  then show thesis using that by fastforce
qed

text \<open>The system after the creation, and after the start for a time 100 seconds ahead.\<close>

lemma sample_system:
  obtains sys where "system_reachable {1} list_parcel sample_envs tree_fs sys"
    "info_of (c_callbacks (sys_clients sys 1)) 1 = Some sample_timer" "cb_events (c_callbacks (sys_clients sys 1)) = []"
    "timeServiceProxy (sys_clients sys 1)" "s_manager (sys_service sys) = Some created_state"
    "sys_env sys = sample_env" "sys_dead sys = {}" "sys_lost sys = (\<lambda>_. {})"
    "{k. timeServiceProxy (sys_clients sys k)} = {1}"
proof -
  define sys0 where "sys0 = \<lparr>sys_env = sample_env, sys_service = sample_service, sys_clients = (\<lambda>_. TimeServiceClient),
    sys_mail = {#}, sys_dead = {}, sys_lost = (\<lambda>_. {})\<rparr>"
  have seen: "service_for list_parcel 0 sys0 1 = remote_service list_parcel sample_env"
    by (simp add: service_for_def sys0_def)
  have r: "system_reachable {1} list_parcel sample_envs tree_fs sys0"
    unfolding sys0_def by (rule system_reachable.init [OF sample_new])
  obtain c s where c0: "CreateTimer_client (sample_envs 1) (remote_service list_parcel sample_env) (Some sample_timer)
      (TimeServiceClient, sample_service) = Some ((c, s), 1)"
    and sel: "s_manager s = Some created_state" "timeServiceProxy c"
      "c_callbacks c = \<lparr>TimerInfoMap = [(1, sample_timer)], cb_events = []\<rparr>"
    by (rule sample_client_creates)
  have c: "CreateTimer_client (sample_envs 1) (service_for list_parcel 0 sys0 1) (Some sample_timer)
      (sys_clients sys0 1, sys_service sys0) = Some ((c, s), 1)"
    unfolding seen using c0 by (simp add: sys0_def)
  have "fresh_number {1} sys0"
    by (simp add: fresh_number_def unused_def service_timer_def sys0_def info_of_def map_find_def TimeServiceClient_def
        TimerCallback_def split: option.split)
  moreover have "in_i32 (e_uid (sys_env sys0) (s_now (sys_service sys0)))" by (simp add: sys0_def sample_env_def in_i32_def)
  ultimately have "system_reachable {1} list_parcel sample_envs tree_fs
      ((advance s sys0)\<lparr>sys_clients := (sys_clients sys0)(1 := c)\<rparr>)"
    using c by (intro system_reachable.step [OF r] system_step.create) simp_all
  then show thesis
    by (rule that) (auto simp: advance_def sel info_of_def map_find_def sys0_def TimeServiceClient_def split: if_splits)
qed

lemma sample_entry:
  "s_manager s = Some created_state \<Longrightarrow> service_timer s 1 = Some \<lparr>te_id = 1, te_type = ELAPSED_REALTIME_WAKEUP,
     te_windowLength = 0, te_interval = 0, te_flag = 0, te_callback = Some (Notify_Remote 1), te_uid = 100\<rparr>"
  by (simp add: service_timer_def registered_timer_def created_state_sel)

theorem system_tables_agree_witness:
  "\<exists>sys. system_reachable {1} list_parcel sample_envs tree_fs sys \<and>
    info_of (c_callbacks (sys_clients sys 1)) 1 = Some sample_timer \<and>
    (\<exists>t. timers_of 1 (sys_service sys) 1 = Some t \<and> made_for 1 1 sample_timer t)"
proof -
  obtain sys where sys: "system_reachable {1} list_parcel sample_envs tree_fs sys"
    "info_of (c_callbacks (sys_clients sys 1)) 1 = Some sample_timer" "sys_lost sys = (\<lambda>_. {})"
    by (rule sample_system)
  have "rel_option (made_for 1 1) (Some sample_timer) (timers_of 1 (sys_service sys) 1)"
    using system_tables_agree [OF list_parcel_ok sample_own sys(1), of 1 1] sys(2) by (simp add: sys(3))
  with sys show ?thesis by (auto simp: option_rel_Some1)
qed

text \<open>The timer is started, comes due, and its client is notified.\<close>

definition sample_m1 :: timer_manager where
  "sample_m1 = fst (StartTimer sample_world 1 200000 created_state)"

lemma sample_start_client:
  assumes "s_manager s = Some created_state" "timeServiceProxy c" "sys_env sys = sample_env" "sys_dead sys = {}"
  shows "StartTimer_client (sample_envs 1) (service_for list_parcel 0 sys 1) 1 200000 (c, s) =
    Some ((c, s\<lparr>s_manager := Some sample_m1\<rparr>), True)"
  using assms arg_cong [OF sample_started(2), of snd]
  by (simp add: StartTimer_client_def with_service_def connected_def service_for_def remote_service_eq [OF list_parcel_ok]
      guarded_def TimeService_interface_def StartTimer_service_def case_prod_beta sample_m1_def Let_def)

lemmas sample_due = sample_started(3-7) [folded sample_m1_def]

lemmas sample_defs = created_state_sel(1,2) TIME_CHANGED_MASK_def

text \<open>The hypotheses of the run hold in the example.\<close>

theorem started_timer_is_heard_witness:
  "\<exists>sys. system_reachable {1} list_parcel sample_envs tree_fs sys \<and>
    cb_events (c_callbacks (sys_clients sys 1)) = [OnTrigger 9]"
proof -
  let ?step = "system_step {1} list_parcel sample_envs tree_fs"
  obtain sys where sys: "system_reachable {1} list_parcel sample_envs tree_fs sys"
    "info_of (c_callbacks (sys_clients sys 1)) 1 = Some sample_timer" "cb_events (c_callbacks (sys_clients sys 1)) = []"
    "timeServiceProxy (sys_clients sys 1)" "s_manager (sys_service sys) = Some created_state" "sys_env sys = sample_env"
    "sys_dead sys = {}" "sys_lost sys = (\<lambda>_. {})"
    by (rule sample_system)
  have "\<exists>m2 sys1 sys2 sys3. looper_trigger (e_world sample_env) 4 (ms_to_ns 200000) sample_m1 = Some m2 \<and>
    ?step sys sys1 \<and> sys_service sys1 = (sys_service sys)\<lparr>s_manager := Some sample_m1\<rparr> \<and>
    ?step sys1 sys2 \<and> sys_service sys2 = (sys_service sys)\<lparr>s_manager := Some sample_m1\<rparr>\<lparr>s_manager := Some m2\<rparr> \<and>
    (1, 1) \<in># sys_mail sys2 \<and> ?step sys2 sys3 \<and>
    cb_events (c_callbacks (sys_clients sys3 1)) = cb_events (c_callbacks (sys_clients sys 1)) @ events_of sample_timer"
    by (rule started_timer_is_heard [OF list_parcel_ok sample_own sys(1) _ sys(2,6,5) sample_entry [OF sys(5)] _ _
          sample_start_client [OF sys(5,4,6,7)]]) (use sample_due in \<open>simp_all add: sample_defs\<close>)
  then obtain sys1 sys2 sys3 where "?step sys sys1" "?step sys1 sys2" "?step sys2 sys3"
    "cb_events (c_callbacks (sys_clients sys3 1)) = [OnTrigger 9]"
    using sys(3) by (auto simp: events_of_def sample_timer_def ITimerInfo_def)
  moreover from this have "system_reachable {1} list_parcel sample_envs tree_fs sys3"
    by (blast intro: system_reachable.step sys(1))
  ultimately show ?thesis by blast
qed

text \<open>The service dies, and the client is told: its timer is lost.\<close>

theorem lost_timers_stay_lost_witness:
  "\<exists>sys sys'. system_reachable {1} list_parcel sample_envs tree_fs sys \<and>
    system_step {1} list_parcel sample_envs tree_fs sys sys' \<and> 1 \<in> sys_lost sys 1 \<and> sys_dead sys = {1} \<and> sys_dead sys' = {} \<and>
    info_of (c_callbacks (sys_clients sys' 1)) 1 \<noteq> None \<and>
    (\<nexists>err cs. DestroyTimer_client (sample_envs 1) (service_for list_parcel err sys' 1) 1
      (sys_clients sys' 1, sys_service sys') = Some (cs, True))"
proof -
  obtain sys0 where sys: "system_reachable {1} list_parcel sample_envs tree_fs sys0"
    "info_of (c_callbacks (sys_clients sys0 1)) 1 = Some sample_timer" "{k. timeServiceProxy (sys_clients sys0 k)} = {1}"
    by (rule sample_system)
  define sys1 where "sys1 = sys0\<lparr>sys_env := sample_env, sys_service := sample_service,
    sys_dead := {k. timeServiceProxy (sys_clients sys0 k)}, sys_lost := \<lambda>k. dom (info_of (c_callbacks (sys_clients sys0 k)))\<rparr>"
  define sys2 where "sys2 = sys1\<lparr>sys_clients := (sys_clients sys1)(1 := OnRemoteDied (sample_envs 1) (sys_clients sys1 1)),
    sys_dead := sys_dead sys1 - {1}\<rparr>"
  have r: "system_reachable {1} list_parcel sample_envs tree_fs sys1"
    unfolding sys1_def by (rule system_reachable.step [OF sys(1) system_step.die [OF sample_new]])
  have step: "system_step {1} list_parcel sample_envs tree_fs sys1 sys2"
    unfolding sys2_def by (rule system_step.told) simp
  have lost: "1 \<in> sys_lost sys1 1" using sys(2) by (auto simp: sys1_def)
  have dead: "sys_dead sys1 = {1}" "sys_dead sys2 = {}" using sys(3) by (simp_all add: sys2_def, simp_all add: sys1_def)
  from lost_timers_stay_lost [OF list_parcel_ok sample_own r r_into_rtranclp [of "system_step _ _ _ _", OF step] _ lost]
  show ?thesis using r step lost dead by blast
qed

theorem client_hears_its_own_witness:
  "\<exists>sys sys' n info. system_step {1} list_parcel sample_envs tree_fs sys sys' \<and> (1, n) \<in># sys_mail sys \<and>
    info_of (c_callbacks (sys_clients sys 1)) n = Some info \<and>
    cb_events (c_callbacks (sys_clients sys' 1)) = cb_events (c_callbacks (sys_clients sys 1)) @ events_of info"
proof -
  let ?step = "system_step {1} list_parcel sample_envs tree_fs"
  obtain sys where sys: "system_reachable {1} list_parcel sample_envs tree_fs sys"
    "info_of (c_callbacks (sys_clients sys 1)) 1 = Some sample_timer" "cb_events (c_callbacks (sys_clients sys 1)) = []"
    "timeServiceProxy (sys_clients sys 1)" "s_manager (sys_service sys) = Some created_state" "sys_env sys = sample_env"
    "sys_dead sys = {}" "sys_lost sys = (\<lambda>_. {})"
    by (rule sample_system)
  have "\<exists>m2 sys1 sys2 sys3. looper_trigger (e_world sample_env) 4 (ms_to_ns 200000) sample_m1 = Some m2 \<and>
    ?step sys sys1 \<and> sys_service sys1 = (sys_service sys)\<lparr>s_manager := Some sample_m1\<rparr> \<and>
    ?step sys1 sys2 \<and> sys_service sys2 = (sys_service sys)\<lparr>s_manager := Some sample_m1\<rparr>\<lparr>s_manager := Some m2\<rparr> \<and>
    (1, 1) \<in># sys_mail sys2 \<and> ?step sys2 sys3 \<and>
    cb_events (c_callbacks (sys_clients sys2 1)) = cb_events (c_callbacks (sys_clients sys 1)) \<and>
    cb_events (c_callbacks (sys_clients sys3 1)) = cb_events (c_callbacks (sys_clients sys 1)) @ events_of sample_timer"
    by (rule start_to_notification [OF list_parcel_ok sample_own sys(1) _ sys(2,6,5) sample_entry [OF sys(5)] _ _
          sample_start_client [OF sys(5,4,6,7)]]) (use sample_due in \<open>simp_all add: sample_defs\<close>)
  then obtain sys1 sys2 sys3 where s: "?step sys sys1" "?step sys1 sys2" "?step sys2 sys3"
    "cb_events (c_callbacks (sys_clients sys3 1)) \<noteq> cb_events (c_callbacks (sys_clients sys2 1))"
    by (auto simp: events_of_def)
  have "system_reachable {1} list_parcel sample_envs tree_fs sys2"
    using s(1,2) by (blast intro: system_reachable.step sys(1))
  from client_hears_its_own [OF list_parcel_ok sample_own this s(3) _ s(4)] s(3) show ?thesis by blast
qed

end
