(* ===== verification/Spec2Isabelle.thy ===== *)
theory Spec2Isabelle
  imports Timer_Properties File_Utils Time_Zone Sntp_Client Ntp_Properties Service_Properties Process Ntp_Delivery Time_Client Js_Script
    Thread_Properties Client_Threads System_Properties
begin

text \<open>
  A verification development for the time service (\<open>miscservices_time\<close>): a system service that
  sets the clock and the time zone, keeps timers for its clients and calls them back, and sets the
  clock from the network by itself; the library that clients link with; and the two JavaScript
  modules over that library.

  \<^bold>\<open>The parts and how they work together.\<close>

  \<^item> \<open>TimerManager\<close> (\<open>services/timer\<close>) is the core. A registered timer is a \<open>TimerEntry\<close> in a
    table; starting it makes an alarm, a \<open>TimerInfo\<close>, which is put into a \<open>Batch\<close> of alarms whose
    windows meet. The manager arms kernel timers for the first batches (\<open>TimerHandler\<close>). Its thread
    waits for them, takes the batches that have come due off the list, schedules the repeating alarms
    again, and calls the callbacks, or queues the alarms of a user that is proxied.
  \<^item> \<open>TimeService\<close> (\<open>services/time_manager\<close>) checks permissions, decodes a client's timer type and
    passes timer requests on to the manager; it sets the clock and the hardware clock, keeps the time
    zone (\<open>TimeZoneInfo\<close>), publishes events (\<open>TimeServiceNotify\<close>, \<open>TimeTickNotify\<close>) and answers dumps.
  \<^item> \<open>NtpUpdateTime\<close> is a client of the manager inside the service: a timer of every day, or a network
    that comes up, makes \<open>NtpTrustedTime\<close> ask a server through \<open>SNTPClient\<close>, and the result is handed to
    \<open>TimeService::SetTime\<close>, unless the time of the carrier is fresh.
  \<^item> A client calls \<open>TimeServiceClient\<close>; its \<open>TimeServiceProxy\<close> writes a message, the service's
    \<open>TimeServiceStub\<close> reads it and calls \<open>TimeService\<close>. When a client's timer fires, the service calls
    the client's callback object by a message in the other direction, which \<open>TimerCallback\<close> looks up.
  \<^item> The JavaScript modules \<open>systemTimer\<close> and \<open>systemTime\<close> read a script's arguments, run the client's
    functions on worker threads, and answer by a callback or a promise.

  \<^bold>\<open>The theories.\<close> Paths are under \<open>src/\<close>; every definition has the name it has in the code, with
  a suffix where two classes share it (\<open>CreateTimer\<close> is the manager's, \<open>CreateTimer_service\<close> the
  service's, \<open>_proxy\<close>, \<open>_client\<close> and \<open>_js\<close> the next ones').

  \<^item> Common ground: \<open>Prelude\<close> (words, signed 64-bit values, the division and the durations of C++,
    rounding), \<open>Cpp_Std\<close> (\<open>std::upper_bound\<close>, \<open>std::sort\<close>, \<open>std::map\<close>), \<open>Text\<close> (numbers as text,
    \<open>atoi\<close>).
  \<^item> The timer manager, \<open>services/timer\<close>: \<open>Timer_Info\<close> (\<open>timer_info.cpp\<close>), \<open>Batch\<close> (\<open>batch.cpp\<close>),
    \<open>Timer_Handler\<close> (\<open>timer_handler.cpp\<close>), and of \<open>timer_manager.cpp\<close>: \<open>Timer_Clock\<close> (constants, clocks,
    trigger times), \<open>Timer_Batching\<close> (the state \<open>timer_manager\<close>, the list of batches, arming),
    \<open>Timer_Proxy\<close> (delivery, proxies), \<open>Timer_Manager\<close> (requests, removal, re-batching),
    \<open>Timer_Trigger\<close> (\<open>TriggerTimersLocked\<close>), \<open>Timer_Looper\<close> (the public operations, the thread, the
    dumps), \<open>Timer_Reach\<close> (steps and reachable states), \<open>Batch_Bounds\<close> (what holds of every batch),
    \<open>Timer_Contract\<close> (the interface),
    \<open>Timer_Properties\<close>.
  \<^item> Threads: \<open>Threads\<close> (programs that take mutexes and share a state, their interleaving, deadlock, data
    races), \<open>Timer_Threads\<close> (the manager's operations as programs, with the mutexes where the code takes
    them), \<open>Timer_Interleaving\<close> (their lock order, and that a program alone is the operation),
    \<open>Timer_Protected\<close> and \<open>Timer_Safe\<close> (the manager's invariant under interleaving),
    \<open>Thread_Properties\<close>, \<open>Client_Threads\<close> (the client's table, and the three \<open>GetInstance\<close>).
  \<^item> The service, \<open>services/time_manager\<close>: \<open>Time_Common\<close> (\<open>time_permission.cpp\<close>, error codes, the permission mock),
    \<open>Time_Notify\<close> (\<open>time_service_notify.cpp\<close>, \<open>time_tick_notify.cpp\<close>), \<open>Time_Cmd\<close>
    (\<open>time_cmd_parse.cpp\<close>, \<open>time_cmd_dispatcher.cpp\<close>), \<open>Time_Zone\<close> (\<open>time_zone_info.cpp\<close>),
    \<open>File_Utils\<close> (\<open>utils/native/src/time_file_utils.cpp\<close>), \<open>Sntp_Client\<close> (\<open>sntp_client.cpp\<close>),
    \<open>Ntp_Trusted_Time\<close> (\<open>ntp_trusted_time.cpp\<close>), \<open>Ntp_Update\<close> (\<open>ntp_update_time.cpp\<close>,
    \<open>nitz_subscriber.cpp\<close>, \<open>net_conn_callback_observer.cpp\<close>) with \<open>Ntp_Properties\<close>, and of
    \<open>time_service.cpp\<close>: \<open>Service_State\<close> (the state \<open>time_service\<close> of the process and the outside,
    \<open>service_env\<close>), \<open>Service_Clock\<close>, \<open>Service_Timers\<close>, \<open>Time_Service\<close> (start, stop, dumps),
    \<open>Service_Samples\<close> and \<open>Service_Properties\<close>; \<open>Time_Sysevent\<close> (\<open>dfx/src/time_sysevent.cpp\<close>).
  \<^item> Remote calls: \<open>Time_Ipc\<close> (\<open>time_service_interface.h\<close>, \<open>time_service_stub.cpp\<close>,
    \<open>time_service_proxy.cpp\<close>), \<open>Ipc_Properties\<close>, \<open>Remote_Service\<close>; \<open>Process\<close> (everything that happens
    to the process of the service, in any order), \<open>Ntp_Delivery\<close> (the delivery of alarms with the refresh
    of the network time that it calls back); \<open>Timer_Callback\<close>
    (\<open>timer_call_back.cpp\<close> with its proxy and stub), \<open>Time_Client\<close> (\<open>time_service_client.cpp\<close>);
    \<open>System_Tables\<close>, \<open>Whole_System\<close> (the service, which may die, and its clients, each a process, with the calls
    under way between them) and \<open>System_Properties\<close>.
  \<^item> JavaScript, \<open>interfaces/kits/js/napi\<close>: \<open>Js_Engine\<close> (what the modules use of Node-API), \<open>Js_Timer\<close>
    (\<open>system_timer.cpp\<close>), \<open>Js_Time\<close> (\<open>js_systemtime.cpp\<close>), \<open>Js_Module\<close> (their registration,
    \<open>timer_init.cpp\<close>, \<open>timer_type.cpp\<close>), \<open>Js_Properties\<close>, \<open>Js_Script\<close>.
\<close>

text \<open>
  \<^bold>\<open>How the code is represented.\<close> A class is a record of its members, an operation a function from
  state to state with its result; the process of the service is the one record \<open>time_service\<close>, with
  the singletons in it. An error code is a value of \<open>time_error\<close>, a failing operation with an output
  gives \<open>Inl\<close> the error. Unsigned integers are words and wrap; signed 64-bit ones are \<open>int\<close>, since
  their overflow is undefined in C++, and the theorems that need it bound them. Shared pointers are
  values where the code never writes through two of them (\<open>Timer_Batching\<close> says why for alarms); the
  contexts of the JavaScript module are numbers into a set of live ones, since the code does free
  them too early. Calls to the outside are recorded in order: callbacks in \<open>fired\<close>, events in
  \<open>published\<close>, descriptors, what a script sees in \<open>js_log\<close>.

  \<^bold>\<open>What is outside.\<close> Nothing is assumed of code that is not in the repository except what it is
  documented to do. Clocks, the random engine, system calls, the access token, bundle, ability and
  network managers, the JSON library, the parcels of the IPC library and the engine of JavaScript are
  fields of the records \<open>world\<close>, \<open>os_calls\<close>, \<open>service_env\<close>, \<open>zone_os\<close>, \<open>file_system\<close>,
  \<open>parcel_ops\<close>, \<open>js_engine\<close>: parameters of the definitions. What changes with time is read at an
  instant, a counter of the state (\<open>ticks\<close>, \<open>s_now\<close>, \<open>c_now\<close>) that every read advances, so two reads
  may differ. The hypotheses on them have names: \<open>valid_sort\<close> (\<open>std::sort\<close>), \<open>settime_documented\<close>
  (\<open>timerfd_settime\<close>), \<open>parcel_documented\<close> and \<open>parcel_room\<close>, \<open>engine_ok\<close> (a random engine that does
  not yield only zeros), \<open>mkdir_documented\<close>, \<open>remove_documented\<close>; each is met by a concrete value in
  the witness of the theorem that uses it.

  \<^bold>\<open>Interfaces.\<close> Where a part relies on another the contract is a locale, and its interpretation on
  the model of the part that keeps it proves the laws:

  \<^item> \<open>ordered_insert\<close> (\<open>Cpp_Std\<close>): insertion that keeps a vector sorted; kept by \<open>std::upper_bound\<close> with
    \<open>insert\<close>, by the alarms of a batch and by the list of batches.
  \<^item> \<open>registry_base\<close> and \<open>registry\<close> (\<open>Cpp_Std\<close>): a table in which the first registration of a key wins;
    kept by \<open>std::map::insert\<close> and by the client's table of callbacks.
  \<^item> \<open>timer_table\<close> and \<open>timer_factory\<close> (\<open>Timer_Contract\<close>): what a client of \<open>ITimerManager\<close> relies on;
    kept by the manager and, over it, by the service. The refinement of the abstract table of live timers
    is proved once, in the locale.
  \<^item> \<open>batch_law\<close> (\<open>Batch_Bounds\<close>): a property of single batches that the three operations of \<open>Batch\<close> keep, which
    then holds of every batch in every reachable state; kept by the exact start and end of a batch.
  \<^item> \<open>protected_state\<close> (\<open>Threads\<close>): a shared state with an invariant, what a thread may rely on while it
    holds some mutexes, and what its steps may do; kept by the manager's state and by the single instance.
  \<^item> \<open>async_module\<close> (\<open>Js_Engine\<close>): a module that owes a completion for every promise it gives; kept by
    both JavaScript modules.

  \<^bold>\<open>Loops and bounds.\<close> The search of \<open>upper_bound\<close>, the thread \<open>TimerLooper\<close> (over the results of its
  waits), the loop of \<open>destroyTimer\<close> over the created contexts and \<open>RemoveFile\<close>, whose paths grow up to
  \<open>PATH_MAX\<close>, are recursive functions with a measure.
  \<open>TriggerTimersLocked\<close> loops until nothing is due: its model has the fuel \<open>trigger_fuel\<close>, one round for
  every batch, one for every alarm and one to see the end, and \<open>Trigger_terminates\<close> proves that this is
  enough for times within 18 years of boot and intervals of at most a year (the code caps them there).
  The draw of a timer's number
  repeats until it is not 0 and is a \<open>partial_function\<close>: \<open>None\<close> is an engine that yields only zeros, and
  \<open>draw_returns\<close> proves that any other returns. The connection of the network's observer is retried
  \<open>RETRY_MAX_TIMES\<close> times, as in the code.
\<close>

text \<open>
  \<^bold>\<open>What is proved.\<close>

  \<^item> The manager. Its invariant holds in every reachable state, and each batch starts and ends exactly where its alarms say
    (\<open>reachable_states_ok\<close>); the run of
    \<open>TriggerTimersLocked\<close> ends, hands over exactly what is due, in order, and loses nothing
    (\<open>Trigger_terminates\<close>, \<open>Trigger_exactly_due\<close>, \<open>Trigger_conserves\<close>); repeating alarms do not drift
    (\<open>next_alarm_no_drift\<close>); delivery calls or queues (\<open>looper_delivers\<close>, lemma \<open>ProxyTimer_ends\<close>); a started
    timer is called (lemma \<open>started_timer_is_called\<close>), a stopped one is not scheduled, a destroyed one stays
    silent (\<open>Stop_unschedules\<close>, lemma \<open>destroyed_stays_silent\<close>); requests are corrected, and those for a time that has
    passed are dropped against the documentation (\<open>SetHandler_schedules\<close>, lemma \<open>MaxTriggerTime_window\<close>); re-batching restores the order, and the kernel is
    armed for the first batches (\<open>ReBatch_restores\<close>, \<open>Reschedule_arms_first\<close>); the descriptors of
    \<open>TimerHandler\<close> are released (lemma \<open>Create_leaks_nothing\<close>).
  \<^item> The manager's threads. Alone, each program is the operation (\<open>programs_are_operations\<close>). Run together by
    any number of threads, in any interleaving, they all come to an end when the callbacks return
    (\<open>operations_finish\<close>); whenever \<open>proxyMutex_\<close> is free the manager's invariant holds, and callbacks are
    only made of registered timers or queued alarms (\<open>threads_keep_invariant\<close>); the data races are exactly two
    (\<open>races_exactly\<close>). A callback that waits for an operation of the manager blocks it for ever
    (\<open>reentrant_stop_blocks\<close>), and so does, in the client, one that creates or destroys a timer
    (\<open>OnTrigger_blocks\<close>).
  \<^item> Where the manager departs from what its callers expect: which alarms are delayed by coalescing
    (lemma \<open>coalesce_delays_exact_alarm\<close>, against \<open>insert_keeps_windows\<close>), which are dropped by a removal
    (lemma \<open>stop_drops_another\<close>), and when a destroyed timer is still called (\<open>destroyed_fires_from_queue\<close>).
  \<^item> The service. Its timer operations refine the abstract table (\<open>service_refines_table\<close>), a created timer
    is the one asked for (\<open>created_as_requested\<close>); setting the time or the zone, in each outcome
    (\<open>SetTime_outcome\<close>, \<open>SetTimezone_outcome\<close>), and what a restart restores (\<open>SetTimezone_restart\<close>,
    lemma \<open>switch_survives_restart\<close>); the dumps (\<open>Dump_selects\<close>).
  \<^item> The process: whatever happens to it in whatever order, the manager's invariant holds
    (\<open>process_states_ok\<close>), every timer is well-typed (\<open>process_timers_typed\<close>), and a destroyed timer stays
    silent (\<open>process_destroyed_stays_silent\<close>).
  \<^item> The whole system, a service that may die and its clients: the client's table and the service's agree in
    every state, but for what a death has taken (\<open>system_tables_agree\<close>), a client hears only of its own timers
    (\<open>client_hears_its_own\<close>), a timer it starts is heard of (\<open>started_timer_is_heard\<close>), and what a death has taken
    stays lost, an entry in the client that nothing removes (\<open>lost_timers_stay_lost\<close>).
  \<^item> The network time: the delivery of a due daily alarm sets the network's time and schedules the next day's
    (\<open>daily_update\<close>; by lemma \<open>looper_trigger_service_eq\<close> it is the manager's step with the refreshes in the order
    of the calls, so a path of \<open>Process\<close>; a service
    started again keeps the daily timer it had, lemma \<open>restart_adds_daily_timer\<close>); the exchange and its conversions (\<open>ReceivedMessage_corrects\<close>,
    lemmas \<open>ConvertNtpToStamp_exact\<close>, \<open>Unix_Ntp_roundtrip\<close>), when the carrier's time wins
    (\<open>carrier_time_window\<close>), what is set (\<open>SetSystemTime_sets\<close>).
  \<^item> Remote calls: a call through proxy, parcel and stub is the call itself (\<open>remote_call_is_a_call\<close>), what
    a refused caller gets (lemma \<open>refused_proxy_succeeds\<close>); a client's timer is notified until it is destroyed
    (lemma \<open>notified_until_destroyed\<close>).
  \<^item> Scripts: promises are settled once (\<open>js_promises_kept\<close>), and two runs from the script to the service and back
    (\<open>script_creates_timer\<close>, \<open>script_sets_time\<close>); what the destruction of a timer frees
    (\<open>destroy_frees_another\<close>).

  \<^bold>\<open>Not modelled.\<close> Logging. The theories of one component run an
  operation to its end before the next one starts, and the thread of the manager in two steps for an
  iteration, since it releases its mutex in between; the interleaving inside the operations is
  modelled for the manager and for the client's table (\<open>Timer_Threads\<close>, \<open>Client_Threads\<close>), at the grain of
  the code between taking and releasing a mutex, with the callback as a program that is a parameter. The
  other classes of the service have no mutex of their own. The work of the detached thread that registers
  the network's observer is done where the thread is started. In \<open>Whole_System\<close> a client's call is one step,
  a call of its object a message of its own, and a number that the random engine draws is not in use, in the service or
  in a client (lemma \<open>lost_number_drawn\<close> says what happens otherwise). The memory model stops at values, but for the contexts named above.

  \<^bold>\<open>What could be added\<close>: a bound on how late an alarm can be delivered when repeating alarms are due with
  it, the refresh inside \<open>ProxyTimer\<close> and \<open>ResetAllProxy\<close> (when uid 0 was proxied; it is a step of its own in
  \<open>Process\<close>), and the script's side of \<open>Whole_System\<close>.
\<close>

end
